theory Spec2Isabelle
  imports Main "HOL-Library.Word"
begin

unbundle bit_operations_syntax

section \<open>Result codes and scalar types\<close>

text \<open>
  \<open>SlangResult\<close>: the orchestrator only distinguishes success from failure
  (\<open>SLANG_RETURN_ON_FAIL\<close> returns whatever failing code it was given), so every failing
  code is \<open>SLANG_FAIL\<close>. A collaborator that can fail returns an \<open>option\<close>, \<open>None\<close> being
  its failing result code.
\<close>

datatype SlangResult = SLANG_OK | SLANG_FAIL

type_synonym byte = "8 word"

text \<open>\<open>SourceLoc::RawValue\<close>, a pointer-sized unsigned integer.\<close>
type_synonym SourceLoc = "64 word"

text \<open>\<open>SerialCompressionType\<close>, stored in the header as a \<open>uint32_t\<close>.\<close>
type_synonym SerialCompressionType = "32 word"

datatype SerialOptionFlag = RawSourceLocation | DebugInfo | IRModuleFlag | ASTModuleFlag

section \<open>The chunked container\<close>

text \<open>
  The four-character codes are constants of headers that are not part of this file; all
  that the orchestrator uses of them is that they are distinct tags.
\<close>

datatype FourCC =
    kContainerFourCc
  | kContainerHeaderFourCc
  | kModuleListFourCc
  | kEntryPointFourCc
  | kStringTableFourCc
  | kIRModuleFourCc
  | kSlangASTModuleFourCC
  | kSlangASTModuleDataFourCC
  | kDebugFourCc
  | OtherFourCC nat

datatype Chunk = ListChunk FourCC "Chunk list" | DataChunk FourCC "byte list"

text \<open>
  Modelled from the spec: \<open>RiffContainer\<close> (the chunked container framework, section 4.1)
  is declared outside this file. A chunk is a List (tag and ordered children) or a Data
  chunk (tag and byte payload); lookup is by tag among the direct children of a scope, or
  recursively over the whole tree. \<open>as<ListChunk>(chunk, tag)\<close> is the test that a chunk
  is a List chunk with the given tag.
\<close>

fun asListChunk :: "Chunk \<Rightarrow> FourCC \<Rightarrow> Chunk list option" where
  "asListChunk (ListChunk t cs) tag = (if t = tag then Some cs else None)"
| "asListChunk (DataChunk t bs) tag = None"

fun asDataChunk :: "Chunk \<Rightarrow> FourCC \<Rightarrow> byte list option" where
  "asDataChunk (DataChunk t bs) tag = (if t = tag then Some bs else None)"
| "asDataChunk (ListChunk t cs) tag = None"

fun findContainedList :: "FourCC \<Rightarrow> Chunk list \<Rightarrow> Chunk list option" where
  "findContainedList tag [] = None"
| "findContainedList tag (c # cs) =
     (case asListChunk c tag of Some sub \<Rightarrow> Some sub | None \<Rightarrow> findContainedList tag cs)"

fun findContainedData :: "FourCC \<Rightarrow> Chunk list \<Rightarrow> byte list option" where
  "findContainedData tag [] = None"
| "findContainedData tag (c # cs) =
     (case asDataChunk c tag of Some bs \<Rightarrow> Some bs | None \<Rightarrow> findContainedData tag cs)"

fun findContained :: "FourCC \<Rightarrow> Chunk list \<Rightarrow> byte list list" where
  "findContained tag [] = []"
| "findContained tag (c # cs) =
     (case asDataChunk c tag of Some bs \<Rightarrow> bs # findContained tag cs
      | None \<Rightarrow> findContained tag cs)"

fun findListRec :: "FourCC \<Rightarrow> Chunk \<Rightarrow> Chunk list option"
  and findListRecs :: "FourCC \<Rightarrow> Chunk list \<Rightarrow> Chunk list option" where
  "findListRec tag (ListChunk t cs) = (if t = tag then Some cs else findListRecs tag cs)"
| "findListRec tag (DataChunk t bs) = None"
| "findListRecs tag [] = None"
| "findListRecs tag (c # cs) =
     (case findListRec tag c of Some sub \<Rightarrow> Some sub | None \<Rightarrow> findListRecs tag cs)"

subsection \<open>Fixed-size records in Data chunks\<close>

text \<open>
  \<open>container->write(&record, sizeof(record))\<close> copies the record's memory; the records here
  are made of \<open>uint32_t\<close> fields only, laid out little-endian without padding.
\<close>

definition encodeU32 :: "32 word \<Rightarrow> byte list" where
  "encodeU32 w = [ucast w, ucast (drop_bit 8 w), ucast (drop_bit 16 w), ucast (drop_bit 24 w)]"

fun decodeU32 :: "byte list \<Rightarrow> 32 word option" where
  "decodeU32 (b0 # b1 # b2 # b3 # bs) =
     Some (ucast b0 OR push_bit 8 (ucast b1) OR push_bit 16 (ucast b2) OR push_bit 24 (ucast b3))"
| "decodeU32 bs = None"

text \<open>
  Modelled from the spec: the templated \<open>findContainedData<ContainerHeader>\<close> is declared
  outside this file; by section 8 a header Data chunk truncated by one byte makes \<open>read\<close>
  fail, so the header is found only when its payload holds the whole record
  (\<open>SerialBinary::ContainerHeader\<close>, one \<open>uint32_t\<close>: the compression scheme).
\<close>

definition findContainerHeader :: "Chunk list \<Rightarrow> SerialCompressionType option" where
  "findContainerHeader cs =
     (case findContainedData kContainerHeaderFourCc cs of
        None \<Rightarrow> None
      | Some bs \<Rightarrow> decodeU32 bs)"

text \<open>
  \<open>SerialContainerBinary::EntryPoint\<close>: string-table handle of the name, profile bits,
  string-table handle of the mangled name (section 6). \<open>reader.read(srcEntryPoint)\<close> fails
  when the payload is shorter than the record.
\<close>

record BinaryEntryPoint =
  bin_name :: "32 word"
  bin_profile :: "32 word"
  bin_mangledName :: "32 word"

definition encodeEntryPoint :: "BinaryEntryPoint \<Rightarrow> byte list" where
  "encodeEntryPoint e =
     encodeU32 (bin_name e) @ encodeU32 (bin_profile e) @ encodeU32 (bin_mangledName e)"

definition decodeEntryPoint :: "byte list \<Rightarrow> BinaryEntryPoint option" where
  "decodeEntryPoint bs =
     (case decodeU32 bs of
        None \<Rightarrow> None
      | Some n \<Rightarrow>
          (case decodeU32 (drop 4 bs) of
             None \<Rightarrow> None
           | Some p \<Rightarrow>
               (case decodeU32 (drop 8 bs) of
                  None \<Rightarrow> None
                | Some m \<Rightarrow> Some \<lparr>bin_name = n, bin_profile = p, bin_mangledName = m\<rparr>)))"

section \<open>The container string pool\<close>

text \<open>
  Modelled from the spec: \<open>StringSlicePool\<close> is declared outside this file. By section 3
  it is a bijection between string content and a dense integer handle, insertion-ordered,
  with handle 0 reserved for the empty string; identical content always maps to the same
  handle. \<open>getAdded\<close> is the list of the strings added beyond the reserved one. A handle
  that names no string of the pool has no slice (\<open>None\<close>).
\<close>

datatype StringSlicePool = StringSlicePool (getAdded: "string list")

fun findIndex :: "'a \<Rightarrow> 'a list \<Rightarrow> nat option" where
  "findIndex x [] = None"
| "findIndex x (y # ys) =
     (if x = y then Some 0 else (case findIndex x ys of None \<Rightarrow> None | Some i \<Rightarrow> Some (Suc i)))"

definition poolAdd :: "StringSlicePool \<Rightarrow> string \<Rightarrow> nat \<times> StringSlicePool" where
  "poolAdd p s =
     (if s = [] then (0, p)
      else (case findIndex s (getAdded p) of
              Some i \<Rightarrow> (Suc i, p)
            | None \<Rightarrow> (Suc (length (getAdded p)), StringSlicePool (getAdded p @ [s]))))"

definition getSlice :: "StringSlicePool \<Rightarrow> nat \<Rightarrow> string option" where
  "getSlice p h =
     (if h = 0 then Some []
      else if h - 1 < length (getAdded p) then Some (getAdded p ! (h - 1))
      else None)"

section \<open>The session snapshot (\<open>SerialContainerData\<close>)\<close>

text \<open>
  AST nodes and IR modules are built by other components; the orchestrator tests a node
  for being a module declaration (\<open>as<ModuleDecl>\<close>) and a pointer for being null.
\<close>

datatype NodeBase = ModuleDecl nat | OtherNode nat

record IRInst =
  instId :: nat
  sourceLoc :: SourceLoc

datatype IRModule = IRModule "IRInst list"

datatype ASTBuilder = ASTBuilder string

record Module =
  astBuilder :: "ASTBuilder option"
  astRootNode :: "NodeBase option"
  irModule :: "IRModule option"

record Target =
  t_floatingPointMode :: nat
  t_profile :: "32 word"
  t_flags :: "32 word"
  t_codeGenTarget :: nat

record TargetComponent =
  tc_target :: Target
  tc_irModule :: "IRModule option"

record EntryPoint =
  name :: string
  mangledName :: string
  profile :: "32 word"

record SerialContainerData =
  modules :: "Module list"
  targetComponents :: "TargetComponent list"
  entryPoints :: "EntryPoint list"

definition clear :: SerialContainerData where
  "clear = \<lparr>modules = [], targetComponents = [], entryPoints = []\<rparr>"

section \<open>Collaborators of the read direction\<close>

text \<open>
  The payload codecs (\<open>IRSerialReader\<close>, \<open>SerialReader\<close>, \<open>SerialSourceLocData\<close>,
  \<open>SerialSourceLocReader\<close>, \<open>SerialClasses\<close>, \<open>SerialStringTableUtil\<close>) are other
  components; \<open>read\<close> is verified for whatever they compute. Their intermediate data is
  opaque to the orchestrator.
\<close>

text \<open>Flattened IR payload (section 4.5): op-code, type reference, operand indices.\<close>
type_synonym IRSerialData = "(nat \<times> nat \<times> nat list) list"

datatype SerialSourceLocData = SerialSourceLocData "SourceLoc list"

datatype SerialSourceLocReader = SerialSourceLocReader "SourceLoc list"

record SourceView =
  viewBegin :: SourceLoc
  viewEnd :: SourceLoc
  viewPath :: string

datatype SourceManager = SourceManager "SourceView list"

record Readers =
  sourceLocReadContainer :: "SerialCompressionType \<Rightarrow> Chunk list \<Rightarrow> SerialSourceLocData option"
  sourceLocRead :: "SerialSourceLocData \<Rightarrow> SourceManager \<Rightarrow> (SerialSourceLocReader \<times> SourceManager) option"
  irReadContainer :: "Chunk list \<Rightarrow> SerialCompressionType \<Rightarrow> IRSerialData option"
  irRead :: "IRSerialData \<Rightarrow> SerialSourceLocReader option \<Rightarrow> IRModule option"
  serialClassesCreate :: bool
  astLoad :: "byte list \<Rightarrow> SerialSourceLocReader option \<Rightarrow> ASTBuilder \<Rightarrow> NodeBase option option"
  decodeStringTable :: "byte list \<Rightarrow> StringSlicePool"

text \<open>
  \<open>astLoad\<close> stands for \<open>reader.load(payload, namePool)\<close> followed by
  \<open>reader.getPointer(SerialIndex(1)).dynamicCast<NodeBase>()\<close>: \<open>None\<close> when the load fails,
  \<open>Some None\<close> when it succeeds and the object at index 1 is not a node (the cast gives
  a null pointer), \<open>Some (Some n)\<close> when it is the node \<open>n\<close>.
\<close>

record ReadOptions =
  ro_sourceManager :: SourceManager

section \<open>\<open>SerialContainerUtil::read\<close>\<close>

text \<open>The generated translation-unit name: \<open>buf << "tu" << out.modules.getCount()\<close>.\<close>

function string_of_nat :: "nat \<Rightarrow> string" where
  "string_of_nat n =
     (if n < 10 then [''0123456789'' ! n]
      else string_of_nat (n div 10) @ [''0123456789'' ! (n mod 10)])"
  by pat_completeness auto
termination
  by (relation "measure id") auto

declare string_of_nat.simps [simp del]

text \<open>
  One iteration of the module loop is split at its three parts. Each part takes the
  chunks from the current one on (\<open>chunk\<close> and its \<open>m_next\<close> chain; the empty list is
  the null pointer) and gives back the chunks from the new current one on.

  The IR part (lines 276 to 288).
\<close>

definition readIRPart ::
  "Readers \<Rightarrow> SerialCompressionType \<Rightarrow> SerialSourceLocReader option \<Rightarrow> Chunk list
     \<Rightarrow> (IRModule option \<times> Chunk list) option" where
  "readIRPart R ct lr cs =
     (case cs of
        [] \<Rightarrow> Some (None, cs)
      | c # rest \<Rightarrow>
          (case asListChunk c kIRModuleFourCc of
             None \<Rightarrow> Some (None, cs)
           | Some irChunk \<Rightarrow>
               (case irReadContainer R irChunk ct of
                  None \<Rightarrow> None
                | Some serialData \<Rightarrow>
                    (case irRead R serialData lr of
                       None \<Rightarrow> None
                     | Some m \<Rightarrow> Some (Some m, rest)))))"

text \<open>
  The AST part (lines 290 to 324). The boolean is \<open>serialClasses\<close> being set; the number
  is \<open>out.modules.getCount()\<close>.
\<close>

definition readASTPart ::
  "Readers \<Rightarrow> SerialSourceLocReader option \<Rightarrow> bool \<Rightarrow> nat \<Rightarrow> Chunk list
     \<Rightarrow> (ASTBuilder option \<times> NodeBase option \<times> bool \<times> Chunk list) option" where
  "readASTPart R lr classes count cs =
     (case cs of
        [] \<Rightarrow> Some (None, None, classes, cs)
      | c # rest \<Rightarrow>
          (case asListChunk c kSlangASTModuleFourCC of
             None \<Rightarrow> Some (None, None, classes, cs)
           | Some astChunk \<Rightarrow>
               (case findContainedData kSlangASTModuleDataFourCC astChunk of
                  None \<Rightarrow> Some (None, None, classes, rest)
                | Some payload \<Rightarrow>
                    if \<not> classes \<and> \<not> serialClassesCreate R then None
                    else
                      (let builder = ASTBuilder (''tu'' @ string_of_nat count) in
                       case astLoad R payload lr builder of
                         None \<Rightarrow> None
                       | Some root \<Rightarrow> Some (Some builder, root, True, rest)))))"

text \<open>The emission test (lines 326 to 335): the modules that the slot adds to the output.\<close>

definition emitModule :: "ASTBuilder option \<Rightarrow> NodeBase option \<Rightarrow> IRModule option \<Rightarrow> Module list" where
  "emitModule builder root ir =
     (if builder \<noteq> None \<or> ir \<noteq> None
      then [\<lparr>astBuilder = builder, astRootNode = root, irModule = ir\<rparr>]
      else [])"

text \<open>Line 338: \<open>chunk = (chunk == startChunk) ? chunk->m_next : chunk\<close>.\<close>

definition stepIfNoProgress :: "Chunk list \<Rightarrow> Chunk list \<Rightarrow> Chunk list" where
  "stepIfNoProgress start cs = (if cs = start then tl cs else cs)"

text \<open>
  One iteration (the body of \<open>while (chunk)\<close>): \<open>None\<close> when a collaborator fails, else the
  modules emitted, the new \<open>serialClasses\<close> state and the chunks from the next one on.
\<close>

definition readSlot ::
  "Readers \<Rightarrow> SerialCompressionType \<Rightarrow> SerialSourceLocReader option \<Rightarrow> bool \<Rightarrow> nat \<Rightarrow> Chunk list
     \<Rightarrow> (Module list \<times> bool \<times> Chunk list) option" where
  "readSlot R ct lr classes count start =
     (case readIRPart R ct lr start of
        None \<Rightarrow> None
      | Some (ir, cs1) \<Rightarrow>
          (case readASTPart R lr classes count cs1 of
             None \<Rightarrow> None
           | Some (builder, root, classes', cs2) \<Rightarrow>
               Some (emitModule builder root ir, classes', stepIfNoProgress start cs2)))"

lemma readIRPart_rest:
  "readIRPart R ct lr cs = Some (ir, cs') \<Longrightarrow> cs' = cs \<or> length cs' < length cs"
  by (auto simp: readIRPart_def split: list.splits option.splits)

lemma readASTPart_rest:
  "readASTPart R lr classes count cs = Some (b, root, classes', cs') \<Longrightarrow>
     cs' = cs \<or> length cs' < length cs"
  by (auto simp: readASTPart_def Let_def split: list.splits option.splits if_splits)

lemma stepIfNoProgress_length:
  "start \<noteq> [] \<Longrightarrow> cs = start \<or> length cs < length start \<Longrightarrow>
     length (stepIfNoProgress start cs) < length start"
  by (cases start) (auto simp: stepIfNoProgress_def)

lemma readSlot_length:
  assumes "readSlot R ct lr classes count start = Some (ms, classes', cs')" and "start \<noteq> []"
  shows "length cs' < length start"
proof -
  from assms(1) obtain ir cs1 b root cs2 where
    ir: "readIRPart R ct lr start = Some (ir, cs1)" and
    ast: "readASTPart R lr classes count cs1 = Some (b, root, classes', cs2)" and
    cs': "cs' = stepIfNoProgress start cs2"
    by (auto simp: readSlot_def split: option.splits)
  have "cs2 = start \<or> length cs2 < length start"
    using readIRPart_rest [OF ir] readASTPart_rest [OF ast] by auto
  with assms(2) show ?thesis
    unfolding cs' by (rule stepIfNoProgress_length)
qed

text \<open>
  The loop \<open>while (chunk)\<close> (lines 268 to 339), over the chunks from the current one on,
  with \<open>out.modules\<close> as accumulator. A failing collaborator returns from \<open>read\<close> at once,
  with \<open>out.modules\<close> as it is then.
\<close>

function readModuleList ::
  "Readers \<Rightarrow> SerialCompressionType \<Rightarrow> SerialSourceLocReader option \<Rightarrow> bool \<Rightarrow> Module list
     \<Rightarrow> Chunk list \<Rightarrow> SlangResult \<times> Module list" where
  "readModuleList R ct lr classes out [] = (SLANG_OK, out)"
| "readModuleList R ct lr classes out (c # cs) =
     (case readSlot R ct lr classes (length out) (c # cs) of
        None \<Rightarrow> (SLANG_FAIL, out)
      | Some (ms, classes', cs') \<Rightarrow> readModuleList R ct lr classes' (out @ ms) cs')"
  by pat_completeness auto
termination
  by (relation "measure (\<lambda>(R, ct, lr, classes, out, cs). length cs)")
    (auto dest: readSlot_length)

text \<open>
  The entry points (lines 343 to 373), over the payloads of the entry-point Data chunks,
  with \<open>out.entryPoints\<close> as accumulator. \<open>getSlice\<close> indexes the pool's slices unchecked: a
  handle outside the pool ends the call abnormally (\<open>None\<close>).
\<close>

fun readEntryPoints ::
  "StringSlicePool \<Rightarrow> byte list list \<Rightarrow> EntryPoint list \<Rightarrow> (SlangResult \<times> EntryPoint list) option" where
  "readEntryPoints pool [] out = Some (SLANG_OK, out)"
| "readEntryPoints pool (payload # ps) out =
     (case decodeEntryPoint payload of
        None \<Rightarrow> Some (SLANG_FAIL, out)
      | Some src \<Rightarrow>
          (case getSlice pool (unat (bin_name src)) of
             None \<Rightarrow> None
           | Some n \<Rightarrow>
               (case getSlice pool (unat (bin_mangledName src)) of
                  None \<Rightarrow> None
                | Some m \<Rightarrow>
                    readEntryPoints pool ps
                      (out @ [\<lparr>name = n, mangledName = m, profile = bin_profile src\<rparr>]))))"

text \<open>The debug information (lines 253 to 262): \<open>None\<close> when a collaborator fails.\<close>

definition readDebugInfo ::
  "Readers \<Rightarrow> ReadOptions \<Rightarrow> SerialCompressionType \<Rightarrow> Chunk list \<Rightarrow> SerialSourceLocReader option option" where
  "readDebugInfo R options ct containerChunk =
     (case findContainedList kDebugFourCc containerChunk of
        None \<Rightarrow> Some None
      | Some debugChunk \<Rightarrow>
          (case sourceLocReadContainer R ct debugChunk of
             None \<Rightarrow> None
           | Some sourceLocData \<Rightarrow>
               (case sourceLocRead R sourceLocData (ro_sourceManager options) of
                  None \<Rightarrow> None
                | Some (reader, mgr) \<Rightarrow> Some (Some reader))))"

definition readStringTable :: "Readers \<Rightarrow> Chunk list \<Rightarrow> StringSlicePool" where
  "readStringTable R containerChunk =
     (case findContainedData kStringTableFourCc containerChunk of
        None \<Rightarrow> StringSlicePool []
      | Some bs \<Rightarrow> decodeStringTable R bs)"

text \<open>Lines 264 to 340: the modules, into \<open>out.modules\<close> (which line 224 has cleared).\<close>

definition readModules ::
  "Readers \<Rightarrow> SerialCompressionType \<Rightarrow> SerialSourceLocReader option \<Rightarrow> Chunk list
     \<Rightarrow> SlangResult \<times> Module list" where
  "readModules R ct lr containerChunk =
     (case findContainedList kModuleListFourCc containerChunk of
        None \<Rightarrow> (SLANG_OK, [])
      | Some moduleList \<Rightarrow> readModuleList R ct lr False [] moduleList)"

text \<open>Lines 264 to 375: the modules, then the entry points.\<close>

definition readModulesAndEntryPoints ::
  "Readers \<Rightarrow> SerialCompressionType \<Rightarrow> StringSlicePool \<Rightarrow> SerialSourceLocReader option \<Rightarrow> Chunk list
     \<Rightarrow> (SlangResult \<times> SerialContainerData) option" where
  "readModulesAndEntryPoints R ct pool lr containerChunk =
     (case readModules R ct lr containerChunk of
        (SLANG_FAIL, ms) \<Rightarrow> Some (SLANG_FAIL, clear\<lparr>modules := ms\<rparr>)
      | (SLANG_OK, ms) \<Rightarrow>
          (case readEntryPoints pool (findContained kEntryPointFourCc containerChunk) [] of
             None \<Rightarrow> None
           | Some (r, eps) \<Rightarrow> Some (r, clear\<lparr>modules := ms, entryPoints := eps\<rparr>)))"

text \<open>
  \<open>read\<close>, from the root chunk of the container. The result is the result code and the
  content of \<open>out\<close> at the return, or \<open>None\<close> when the call ends abnormally.
\<close>

definition read :: "Readers \<Rightarrow> Chunk \<Rightarrow> ReadOptions \<Rightarrow> (SlangResult \<times> SerialContainerData) option" where
  "read R root options =
     (case findListRec kContainerFourCc root of
        None \<Rightarrow> Some (SLANG_FAIL, clear)
      | Some containerChunk \<Rightarrow>
          (case findContainerHeader containerChunk of
             None \<Rightarrow> Some (SLANG_FAIL, clear)
           | Some ct \<Rightarrow>
               (let pool = readStringTable R containerChunk in
                case readDebugInfo R options ct containerChunk of
                  None \<Rightarrow> Some (SLANG_FAIL, clear)
                | Some lr \<Rightarrow> readModulesAndEntryPoints R ct pool lr containerChunk)))"

section \<open>Collaborators of the write direction\<close>

text \<open>
  \<open>sourceLocWriter\<close> is a null pointer (\<open>None\<close>) or a writer holding the source locations
  recorded so far. A payload writer is handed the writer and reports the locations it
  records there.
\<close>

type_synonym SerialSourceLocWriter = "SourceLoc list option"

definition recordLocs :: "SerialSourceLocWriter \<Rightarrow> SourceLoc list \<Rightarrow> SerialSourceLocWriter" where
  "recordLocs w locs = (case w of None \<Rightarrow> None | Some recorded \<Rightarrow> Some (recorded @ locs))"

record Writers =
  irWrite :: "IRModule option \<Rightarrow> SerialSourceLocWriter \<Rightarrow> SerialOptionFlag set
                \<Rightarrow> (IRSerialData \<times> SourceLoc list) option"
  irWriteContainer :: "IRSerialData \<Rightarrow> SerialCompressionType \<Rightarrow> Chunk list option"
  w_serialClassesCreate :: bool
  astWrite :: "NodeBase \<Rightarrow> SerialSourceLocWriter \<Rightarrow> (Chunk list \<times> SourceLoc list) option"
  sourceLocWriteContainer :: "SourceLoc list \<Rightarrow> SerialCompressionType \<Rightarrow> bool \<times> Chunk list"
  encodeStringTable :: "StringSlicePool \<Rightarrow> byte list"

record WriteOptions =
  compressionType :: SerialCompressionType
  optionFlags :: "SerialOptionFlag set"
  wo_sourceManager :: SourceManager

section \<open>\<open>SerialContainerUtil::write\<close>\<close>

text \<open>
  Modelled from the spec: \<open>IRSerialWriter::writeContainer\<close>, \<open>SerialWriter::writeIntoContainer\<close>
  and \<open>SerialSourceLocData::writeContainer\<close> are declared outside this file. By sections
  4.5 and 6 each writes its payload as one List chunk of its own (tagged IR-module,
  AST-module with the tag it is given, debug-info), internally self-delimited; the
  children are the collaborator's. The debug-info List chunk is written whenever the
  operation is called: \<open>verifyIRSerialize\<close> (lines 410 to 444) calls it under the same
  condition as \<open>write\<close> does and then fails unless it finds the chunk.

  Lines 130 to 136, and 170 to 177 for a target component: the IR payload.
\<close>

definition writeIRModule ::
  "Writers \<Rightarrow> WriteOptions \<Rightarrow> SerialSourceLocWriter \<Rightarrow> IRModule option
     \<Rightarrow> (Chunk \<times> SerialSourceLocWriter) option" where
  "writeIRModule W options w ir =
     (case irWrite W ir w (optionFlags options) of
        None \<Rightarrow> None
      | Some (serialData, locs) \<Rightarrow>
          (case irWriteContainer W serialData (compressionType options) of
             None \<Rightarrow> None
           | Some children \<Rightarrow> Some (ListChunk kIRModuleFourCc children, recordLocs w locs)))"

text \<open>
  The state of the module loop: the source-location writer, \<open>serialClasses\<close> being set,
  and the chunks written into the module-list scope so far.
\<close>

type_synonym ModuleListState = "SerialSourceLocWriter \<times> bool \<times> Chunk list"

definition writeModuleIR :: "Writers \<Rightarrow> WriteOptions \<Rightarrow> ModuleListState \<Rightarrow> Module \<Rightarrow> ModuleListState option" where
  "writeModuleIR W options st m =
     (case st of (w, classes, cs) \<Rightarrow>
        if IRModuleFlag \<in> optionFlags options \<and> irModule m \<noteq> None
        then (case writeIRModule W options w (irModule m) of
                None \<Rightarrow> None
              | Some (c, w') \<Rightarrow> Some (w', classes, cs @ [c]))
        else Some st)"

text \<open>Lines 140 to 160: the AST payload.\<close>

definition writeModuleAST :: "Writers \<Rightarrow> WriteOptions \<Rightarrow> ModuleListState \<Rightarrow> Module \<Rightarrow> ModuleListState option" where
  "writeModuleAST W options st m =
     (case st of (w, classes, cs) \<Rightarrow>
        if ASTModuleFlag \<in> optionFlags options
        then (case astRootNode m of
                Some (ModuleDecl k) \<Rightarrow>
                  if \<not> classes \<and> \<not> w_serialClassesCreate W then None
                  else (case astWrite W (ModuleDecl k) w of
                          None \<Rightarrow> None
                        | Some (children, locs) \<Rightarrow>
                            Some (recordLocs w locs, True, cs @ [ListChunk kSlangASTModuleFourCC children]))
              | _ \<Rightarrow> Some st)
        else Some st)"

fun writeModules :: "Writers \<Rightarrow> WriteOptions \<Rightarrow> ModuleListState \<Rightarrow> Module list \<Rightarrow> ModuleListState option" where
  "writeModules W options st [] = Some st"
| "writeModules W options st (m # ms) =
     (case writeModuleIR W options st m of
        None \<Rightarrow> None
      | Some st1 \<Rightarrow>
          (case writeModuleAST W options st1 m of
             None \<Rightarrow> None
           | Some st2 \<Rightarrow> writeModules W options st2 ms))"

text \<open>Lines 168 to 178: the target components, written into the same module-list scope.\<close>

fun writeTargets :: "Writers \<Rightarrow> WriteOptions \<Rightarrow> ModuleListState \<Rightarrow> TargetComponent list \<Rightarrow> ModuleListState option" where
  "writeTargets W options st [] = Some st"
| "writeTargets W options (w, classes, cs) (t # ts) =
     (case writeIRModule W options w (tc_irModule t) of
        None \<Rightarrow> None
      | Some (c, w') \<Rightarrow> writeTargets W options (w', classes, cs @ [c]) ts)"

text \<open>
  Lines 112 to 180: the module-list section of the container scope (no chunk or one List
  chunk) and the source-location writer after it.
\<close>

definition writeModuleList ::
  "Writers \<Rightarrow> WriteOptions \<Rightarrow> SerialContainerData \<Rightarrow> (SerialSourceLocWriter \<times> Chunk list) option" where
  "writeModuleList W options d =
     (if modules d \<noteq> [] \<and>
         (IRModuleFlag \<in> optionFlags options \<or> ASTModuleFlag \<in> optionFlags options)
      then
        (let w0 = (if DebugInfo \<in> optionFlags options then Some [] else None) in
         case writeModules W options (w0, False, []) (modules d) of
           None \<Rightarrow> None
         | Some st1 \<Rightarrow>
             (case (if targetComponents d \<noteq> [] \<and> IRModuleFlag \<in> optionFlags options
                    then writeTargets W options st1 (targetComponents d)
                    else Some st1) of
                None \<Rightarrow> None
              | Some (w2, classes2, cs2) \<Rightarrow> Some (w2, [ListChunk kModuleListFourCc cs2])))
      else Some (None, []))"

text \<open>
  Lines 182 to 196: one Data chunk per entry point, the strings going into the container
  string pool; the handles are cast to \<open>uint32_t\<close>.
\<close>

fun writeEntryPoints :: "StringSlicePool \<Rightarrow> EntryPoint list \<Rightarrow> Chunk list \<times> StringSlicePool" where
  "writeEntryPoints pool [] = ([], pool)"
| "writeEntryPoints pool (e # es) =
     (case poolAdd pool (name e) of (n, pool1) \<Rightarrow>
        (case poolAdd pool1 (mangledName e) of (m, pool2) \<Rightarrow>
           (case writeEntryPoints pool2 es of (cs, pool') \<Rightarrow>
              (DataChunk kEntryPointFourCc
                 (encodeEntryPoint
                    \<lparr>bin_name = of_nat n, bin_profile = profile e, bin_mangledName = of_nat m\<rparr>) # cs,
               pool'))))"

text \<open>Lines 198 to 206: the debug information; the result code of the call is dropped.\<close>

definition writeDebugInfo :: "Writers \<Rightarrow> WriteOptions \<Rightarrow> SerialSourceLocWriter \<Rightarrow> Chunk list" where
  "writeDebugInfo W options w =
     (case w of
        None \<Rightarrow> []
      | Some locs \<Rightarrow>
          [ListChunk kDebugFourCc (snd (sourceLocWriteContainer W locs (compressionType options)))])"

text \<open>Lines 208 to 217: the container string table.\<close>

definition writeStringTable :: "Writers \<Rightarrow> StringSlicePool \<Rightarrow> Chunk list" where
  "writeStringTable W pool =
     (if length (getAdded pool) > 0
      then [DataChunk kStringTableFourCc (encodeStringTable W pool)]
      else [])"

text \<open>
  \<open>write\<close> into an empty \<open>RiffContainer\<close>: the container List chunk, which is then the root
  of the container, or \<open>None\<close> when a collaborator fails (the call returns its failing
  code).
\<close>

definition "write" :: "Writers \<Rightarrow> SerialContainerData \<Rightarrow> WriteOptions \<Rightarrow> Chunk option" where
  "write W d options =
     (let header = DataChunk kContainerHeaderFourCc (encodeU32 (compressionType options)) in
      case writeModuleList W options d of
        None \<Rightarrow> None
      | Some (w, moduleList) \<Rightarrow>
          (case writeEntryPoints (StringSlicePool []) (entryPoints d) of (eps, pool) \<Rightarrow>
             Some (ListChunk kContainerFourCc
                     ([header] @ moduleList @ eps @ writeDebugInfo W options w
                        @ writeStringTable W pool))))"

section \<open>A small set of codecs\<close>

text \<open>
  Concrete collaborators, for running the orchestrator on concrete containers and
  snapshots. An IR payload holds one Data chunk per instruction (tagged with the
  instruction's identity, holding its source location); an AST payload holds one data
  chunk with one byte (0 for an object at index 1 that is not a node); the debug payload
  holds one Data chunk per recorded location; the string table is the strings, each
  followed by a null byte.
\<close>

definition simpleIRWrite ::
  "IRModule option \<Rightarrow> SerialSourceLocWriter \<Rightarrow> SerialOptionFlag set \<Rightarrow> (IRSerialData \<times> SourceLoc list) option" where
  "simpleIRWrite ir w flags =
     (case ir of
        None \<Rightarrow> None
      | Some (IRModule insts) \<Rightarrow>
          Some (map (\<lambda>i. (instId i, unat (sourceLoc i), [])) insts, map sourceLoc insts))"

definition simpleIRWriteContainer :: "IRSerialData \<Rightarrow> SerialCompressionType \<Rightarrow> Chunk list option" where
  "simpleIRWriteContainer serialData ct =
     Some (map (\<lambda>(opc, ty, ops). DataChunk (OtherFourCC opc) (encodeU32 (of_nat ty))) serialData)"

definition simpleASTWrite :: "NodeBase \<Rightarrow> SerialSourceLocWriter \<Rightarrow> (Chunk list \<times> SourceLoc list) option" where
  "simpleASTWrite node w =
     (case node of
        ModuleDecl k \<Rightarrow> Some ([DataChunk kSlangASTModuleDataFourCC [of_nat k]], [])
      | OtherNode k \<Rightarrow> None)"

definition simpleSourceLocWriteContainer :: "SourceLoc list \<Rightarrow> SerialCompressionType \<Rightarrow> bool \<times> Chunk list" where
  "simpleSourceLocWriteContainer locs ct =
     (True, map (\<lambda>l. DataChunk (OtherFourCC 0) (encodeU32 (ucast l))) locs)"

definition simpleEncodeStringTable :: "StringSlicePool \<Rightarrow> byte list" where
  "simpleEncodeStringTable pool = concat (map (\<lambda>s. map of_char s @ [0]) (getAdded pool))"

definition simpleWriters :: Writers where
  "simpleWriters =
     \<lparr>irWrite = simpleIRWrite,
      irWriteContainer = simpleIRWriteContainer,
      w_serialClassesCreate = True,
      astWrite = simpleASTWrite,
      sourceLocWriteContainer = simpleSourceLocWriteContainer,
      encodeStringTable = simpleEncodeStringTable\<rparr>"

fun simpleIRReadInst :: "Chunk \<Rightarrow> (nat \<times> nat \<times> nat list) option" where
  "simpleIRReadInst (DataChunk (OtherFourCC opc) bs) =
     (case decodeU32 bs of None \<Rightarrow> None | Some ty \<Rightarrow> Some (opc, unat ty, []))"
| "simpleIRReadInst c = None"

fun simpleIRReadContainer :: "Chunk list \<Rightarrow> SerialCompressionType \<Rightarrow> IRSerialData option" where
  "simpleIRReadContainer [] ct = Some []"
| "simpleIRReadContainer (c # cs) ct =
     (case simpleIRReadInst c of
        None \<Rightarrow> None
      | Some i \<Rightarrow> (case simpleIRReadContainer cs ct of None \<Rightarrow> None | Some is \<Rightarrow> Some (i # is)))"

definition simpleIRRead :: "IRSerialData \<Rightarrow> SerialSourceLocReader option \<Rightarrow> IRModule option" where
  "simpleIRRead serialData lr =
     Some (IRModule (map (\<lambda>(opc, ty, ops). \<lparr>instId = opc, sourceLoc = of_nat ty\<rparr>) serialData))"

definition simpleASTLoad ::
  "byte list \<Rightarrow> SerialSourceLocReader option \<Rightarrow> ASTBuilder \<Rightarrow> NodeBase option option" where
  "simpleASTLoad payload lr builder =
     (case payload of
        [] \<Rightarrow> None
      | b # bs \<Rightarrow> if b = 0 then Some None else Some (Some (ModuleDecl (unat b))))"

fun simpleSplitStrings :: "string \<Rightarrow> byte list \<Rightarrow> string list" where
  "simpleSplitStrings cur [] = []"
| "simpleSplitStrings cur (b # bs) =
     (if b = 0 then cur # simpleSplitStrings [] bs else simpleSplitStrings (cur @ [char_of (unat b)]) bs)"

definition simpleReaders :: Readers where
  "simpleReaders =
     \<lparr>sourceLocReadContainer = (\<lambda>ct cs. Some (SerialSourceLocData [])),
      sourceLocRead = (\<lambda>d mgr. Some (SerialSourceLocReader [], mgr)),
      irReadContainer = simpleIRReadContainer,
      irRead = simpleIRRead,
      serialClassesCreate = True,
      astLoad = simpleASTLoad,
      decodeStringTable = (\<lambda>bs. StringSlicePool (simpleSplitStrings [] bs))\<rparr>"

definition noSourceManager :: SourceManager where
  "noSourceManager = SourceManager []"

text \<open>
  The same loop with a bound on the number of iterations: \<open>None\<close> when the bound is
  reached with chunks left to visit.
\<close>

fun readModuleListBounded ::
  "nat \<Rightarrow> Readers \<Rightarrow> SerialCompressionType \<Rightarrow> SerialSourceLocReader option \<Rightarrow> bool \<Rightarrow> Module list
     \<Rightarrow> Chunk list \<Rightarrow> (SlangResult \<times> Module list) option" where
  "readModuleListBounded n R ct lr classes out [] = Some (SLANG_OK, out)"
| "readModuleListBounded 0 R ct lr classes out (c # cs) = None"
| "readModuleListBounded (Suc n) R ct lr classes out (c # cs) =
     (case readSlot R ct lr classes (length out) (c # cs) of
        None \<Rightarrow> Some (SLANG_FAIL, out)
      | Some (ms, classes', cs') \<Rightarrow> readModuleListBounded n R ct lr classes' (out @ ms) cs')"

section \<open>The layout of a container\<close>

text \<open>
  The kind and tag of a chunk (\<open>RiffContainer::Chunk::Kind\<close> and the four-character
  code), for stating in which order \<open>write\<close> lays the sections out.
\<close>

datatype ChunkKind = ListKind | DataKind

fun chunkShape :: "Chunk \<Rightarrow> ChunkKind \<times> FourCC" where
  "chunkShape (ListChunk t cs) = (ListKind, t)"
| "chunkShape (DataChunk t bs) = (DataKind, t)"

fun isModuleDecl :: "NodeBase option \<Rightarrow> bool" where
  "isModuleDecl (Some (ModuleDecl k)) = True"
| "isModuleDecl n = False"

text \<open>
  The payloads of one module, in the order written: the IR payload when IR output is
  requested and the module has an IR module, then the AST payload when AST output is
  requested and the root node is a module declaration.
\<close>

definition moduleShape :: "SerialOptionFlag set \<Rightarrow> Module \<Rightarrow> (ChunkKind \<times> FourCC) list" where
  "moduleShape flags m =
     (if IRModuleFlag \<in> flags \<and> irModule m \<noteq> None then [(ListKind, kIRModuleFourCc)] else [])
     @ (if ASTModuleFlag \<in> flags \<and> isModuleDecl (astRootNode m)
        then [(ListKind, kSlangASTModuleFourCC)] else [])"

text \<open>The condition of line 112, under which the module-list chunk is written.\<close>

definition writesModuleList :: "SerialContainerData \<Rightarrow> WriteOptions \<Rightarrow> bool" where
  "writesModuleList d options \<longleftrightarrow>
     modules d \<noteq> [] \<and>
     (IRModuleFlag \<in> optionFlags options \<or> ASTModuleFlag \<in> optionFlags options)"

subsection \<open>A sample snapshot\<close>

text \<open>
  One module with an AST root and an IR module of one instruction, one target component
  with an IR module of one instruction, and one entry point.
\<close>

definition sampleModule :: Module where
  "sampleModule =
     \<lparr>astBuilder = None, astRootNode = Some (ModuleDecl 5),
      irModule = Some (IRModule [\<lparr>instId = 1, sourceLoc = 7\<rparr>])\<rparr>"

definition sampleTarget :: TargetComponent where
  "sampleTarget =
     \<lparr>tc_target = \<lparr>t_floatingPointMode = 0, t_profile = 0, t_flags = 0, t_codeGenTarget = 0\<rparr>,
      tc_irModule = Some (IRModule [\<lparr>instId = 2, sourceLoc = 9\<rparr>])\<rparr>"

definition sampleData :: SerialContainerData where
  "sampleData =
     \<lparr>modules = [sampleModule], targetComponents = [sampleTarget],
      entryPoints = [\<lparr>name = ''f'', mangledName = ''g'', profile = 3\<rparr>]\<rparr>"

definition sampleOptions :: "SerialOptionFlag set \<Rightarrow> WriteOptions" where
  "sampleOptions flags =
     \<lparr>compressionType = 0, optionFlags = flags, wo_sourceManager = noSourceManager\<rparr>"

section \<open>\<open>SerialContainerUtil::requestToData\<close>\<close>

text \<open>
  The live compilation state that \<open>requestToData\<close> reads: the translation units of the
  front-end request (each with \<open>module->getIRModule()\<close> and \<open>getModuleDecl()\<close>), the
  targets of the linkage, each with the target program that
  \<open>program->getTargetProgram(target)\<close> gives for it, the entry points of the program
  (name, profile and \<open>getEntryPointMangledName\<close>) and the diagnostic sink.
\<close>

record TranslationUnitRequest =
  tu_irModule :: "IRModule option"
  tu_moduleDecl :: "NodeBase option"

record TargetRequest =
  floatingPointMode :: nat
  targetProfile :: "32 word"
  targetFlags :: "32 word"
  target :: nat

record TargetProgram =
  tp_irModuleForLayout :: "IRModule option"

record ProgramEntryPoint =
  ep_name :: string
  ep_profile :: "32 word"
  ep_mangledName :: string

type_synonym DiagnosticSink = "string list"

record EndToEndCompileRequest =
  translationUnits :: "TranslationUnitRequest list"
  targets :: "(TargetRequest \<times> TargetProgram) list"
  programEntryPoints :: "ProgramEntryPoint list"
  sink :: DiagnosticSink

text \<open>
  \<open>targetProgram->getOrCreateIRModuleForLayout(sink)\<close> is an operation of another
  component on the live target program and the sink: it gives the IR module and the
  target program and sink as it leaves them.
\<close>

type_synonym LayoutIRProvider =
  "TargetProgram \<Rightarrow> DiagnosticSink \<Rightarrow> IRModule option \<times> TargetProgram \<times> DiagnosticSink"

text \<open>
  Lines 26 to 45. The boolean says whether assertions are compiled in: then
  \<open>SLANG_ASSERT(irModule || moduleDecl)\<close> ends the call abnormally (\<open>None\<close>) for a
  translation unit that has neither.
\<close>

fun addModules :: "bool \<Rightarrow> TranslationUnitRequest list \<Rightarrow> Module list \<Rightarrow> Module list option" where
  "addModules asserts [] out = Some out"
| "addModules asserts (tu # tus) out =
     (if asserts \<and> tu_irModule tu = None \<and> tu_moduleDecl tu = None then None
      else addModules asserts tus
             (out @ [\<lparr>astBuilder = None, astRootNode = tu_moduleDecl tu, irModule = tu_irModule tu\<rparr>]))"

text \<open>
  Lines 52 to 69: the targets still to visit and the sink, with \<open>out.targetComponents\<close> as
  accumulator; the result also holds the targets as the loop leaves them.
\<close>

fun addTargets ::
  "LayoutIRProvider \<Rightarrow> (TargetRequest \<times> TargetProgram) list \<Rightarrow> DiagnosticSink \<Rightarrow> TargetComponent list
     \<Rightarrow> TargetComponent list \<times> (TargetRequest \<times> TargetProgram) list \<times> DiagnosticSink" where
  "addTargets provider [] s out = (out, [], s)"
| "addTargets provider ((t, tp) # ts) s out =
     (case provider tp s of (ir, tp', s') \<Rightarrow>
        (case addTargets provider ts s'
                (out @ [\<lparr>tc_target =
                           \<lparr>t_floatingPointMode = floatingPointMode t, t_profile = targetProfile t,
                            t_flags = targetFlags t, t_codeGenTarget = target t\<rparr>,
                         tc_irModule = ir\<rparr>]) of
           (out', ts', s'') \<Rightarrow> (out', (t, tp') # ts', s'')))"

text \<open>Lines 74 to 87: \<open>for (Index ii = 0; ii < entryPointCount; ++ii)\<close>.\<close>

function addEntryPoints :: "ProgramEntryPoint list \<Rightarrow> nat \<Rightarrow> EntryPoint list \<Rightarrow> EntryPoint list" where
  "addEntryPoints eps ii out =
     (if ii < length eps
      then addEntryPoints eps (Suc ii)
             (out @ [\<lparr>name = ep_name (eps ! ii), mangledName = ep_mangledName (eps ! ii),
                      profile = ep_profile (eps ! ii)\<rparr>])
      else out)"
  by pat_completeness auto
termination
  by (relation "measure (\<lambda>(eps, ii, out). length eps - ii)") auto

declare addEntryPoints.simps [simp del]

text \<open>
  \<open>requestToData\<close>: the result code, the snapshot \<open>out\<close> and the compile request as the call
  leaves it.
\<close>

definition requestToData ::
  "LayoutIRProvider \<Rightarrow> bool \<Rightarrow> EndToEndCompileRequest
     \<Rightarrow> (SlangResult \<times> SerialContainerData \<times> EndToEndCompileRequest) option" where
  "requestToData provider asserts request =
     (case addModules asserts (translationUnits request) [] of
        None \<Rightarrow> None
      | Some ms \<Rightarrow>
          (case addTargets provider (targets request) (sink request) [] of
             (tcs, targets', sink') \<Rightarrow>
               Some (SLANG_OK,
                     \<lparr>modules = ms, targetComponents = tcs,
                      entryPoints = addEntryPoints (programEntryPoints request) 0 []\<rparr>,
                     request\<lparr>targets := targets', sink := sink'\<rparr>)))"

text \<open>
  A provider that creates the layout IR module of a target program on first use and
  keeps it there, and a request with one translation unit, one target whose program has
  no layout IR module yet, and one entry point.
\<close>

definition cachingProvider :: LayoutIRProvider where
  "cachingProvider tp s =
     (case tp_irModuleForLayout tp of
        Some m \<Rightarrow> (Some m, tp, s)
      | None \<Rightarrow> (Some (IRModule []), tp\<lparr>tp_irModuleForLayout := Some (IRModule [])\<rparr>, s))"

definition sampleTargetRequest :: TargetRequest where
  "sampleTargetRequest = \<lparr>floatingPointMode = 1, targetProfile = 2, targetFlags = 3, target = 4\<rparr>"

definition sampleRequest :: EndToEndCompileRequest where
  "sampleRequest =
     \<lparr>translationUnits = [\<lparr>tu_irModule = None, tu_moduleDecl = Some (ModuleDecl 5)\<rparr>],
      targets = [(sampleTargetRequest, \<lparr>tp_irModuleForLayout = None\<rparr>)],
      programEntryPoints = [\<lparr>ep_name = ''f'', ep_profile = 3, ep_mangledName = ''g''\<rparr>],
      sink = []\<rparr>"

section \<open>\<open>SerialContainerUtil::verifyIRSerialize\<close>\<close>

text \<open>
  What the verifier uses of other components: the flattened instruction list of a
  module (\<open>IRSerialWriter::calcInstructionList\<close>, a list of instruction pointers, a
  null pointer being \<open>None\<close>), writing a container to the memory stream and reading it
  back (\<open>RiffUtil::write\<close>, \<open>RiffUtil::read\<close>; the type variable is the content of the
  stream), and the source managers (\<open>initialize\<close>, \<open>findSourceView\<close>,
  \<open>getHumaneLoc\<close> with \<open>SourceLocType::Actual\<close>). In an \<open>IRInst\<close>, \<open>instId\<close> stands for the
  identity of the instruction object.
\<close>

record HumaneSourceLoc =
  line :: nat
  column :: nat
  foundPath :: string

record 's VerifyEnv =
  calcInstructionList :: "IRModule \<Rightarrow> IRInst option list"
  riffWrite :: "Chunk \<Rightarrow> 's option"
  riffRead :: "'s \<Rightarrow> Chunk list option"
  initializeSourceManager :: "SourceManager \<Rightarrow> SourceManager"
  findSourceView :: "SourceManager \<Rightarrow> SourceLoc \<Rightarrow> SourceView option"
  getHumaneLoc :: "SourceView \<Rightarrow> SourceLoc \<Rightarrow> HumaneSourceLoc"

text \<open>
  \<open>riffRead\<close> gives the children of the root List chunk that was read. A call of the
  verifier returns a result code, or ends abnormally (\<open>None\<close>): with assertions compiled
  in, a failing \<open>SLANG_ASSERT\<close> stops the program; without them the statement after it
  runs, which is \<open>return SLANG_FAIL\<close>, or at line 526 the use of a null pointer.
\<close>

definition assertFail :: "bool \<Rightarrow> SlangResult option" where
  "assertFail asserts = (if asserts then None else Some SLANG_FAIL)"

text \<open>
  Lines 389 to 419: the IR payload that is written (\<open>irData\<close>) and the content of the
  memory stream; \<open>None\<close> when a collaborator fails.
\<close>

definition verifyWrite ::
  "Writers \<Rightarrow> 's VerifyEnv \<Rightarrow> IRModule \<Rightarrow> WriteOptions \<Rightarrow> (IRSerialData \<times> 's) option" where
  "verifyWrite W V module options =
     (let sourceLocWriter = (if DebugInfo \<in> optionFlags options then Some [] else None) in
      case irWrite W (Some module) sourceLocWriter (optionFlags options) of
        None \<Rightarrow> None
      | Some (irData, locs) \<Rightarrow>
          (case irWriteContainer W irData (compressionType options) of
             None \<Rightarrow> None
           | Some irChildren \<Rightarrow>
               (case (case recordLocs sourceLocWriter locs of
                        None \<Rightarrow> Some []
                      | Some recorded \<Rightarrow>
                          (case sourceLocWriteContainer W recorded (compressionType options) of
                             (ok, debugChildren) \<Rightarrow>
                               if ok then Some [ListChunk kDebugFourCc debugChildren] else None)) of
                  None \<Rightarrow> None
                | Some debug \<Rightarrow>
                    (case riffWrite V (ListChunk kContainerFourCc
                                         ([ListChunk kIRModuleFourCc irChildren] @ debug)) of
                       None \<Rightarrow> None
                     | Some stream \<Rightarrow> Some (irData, stream)))))"

text \<open>
  Lines 435 to 450: the source-location reader and the work source manager after it;
  \<open>None\<close> when the debug chunk is missing or a collaborator fails.
\<close>

definition verifyReadDebug ::
  "Readers \<Rightarrow> WriteOptions \<Rightarrow> SourceManager \<Rightarrow> Chunk list
     \<Rightarrow> (SerialSourceLocReader option \<times> SourceManager) option" where
  "verifyReadDebug R options workSourceManager rootList =
     (if DebugInfo \<in> optionFlags options
      then (case findContainedList kDebugFourCc rootList of
              None \<Rightarrow> None
            | Some debugList \<Rightarrow>
                (case sourceLocReadContainer R (compressionType options) debugList of
                   None \<Rightarrow> None
                 | Some sourceLocData \<Rightarrow>
                     (case sourceLocRead R sourceLocData workSourceManager of
                        None \<Rightarrow> None
                      | Some (reader, mgr) \<Rightarrow> Some (Some reader, mgr))))
      else Some (None, workSourceManager))"

text \<open>
  Lines 452 to 462: the IR payload read back from the stream's container (\<open>irReadData\<close>);
  \<open>None\<close> when the IR chunk is missing or does not decode.
\<close>

definition verifyReadData :: "Readers \<Rightarrow> WriteOptions \<Rightarrow> Chunk list \<Rightarrow> IRSerialData option" where
  "verifyReadData R options rootList =
     (case findContainedList kIRModuleFourCc rootList of
        None \<Rightarrow> None
      | Some irList \<Rightarrow> irReadContainer R irList (compressionType options))"

text \<open>Lines 485 to 500, over the pairs \<open>(originalInsts[i], readInsts[i])\<close> from \<open>i = 1\<close> on.\<close>

fun checkRawLocs :: "bool \<Rightarrow> (IRInst option \<times> IRInst option) list \<Rightarrow> SlangResult option" where
  "checkRawLocs asserts [] = Some SLANG_OK"
| "checkRawLocs asserts ((Some origInst, Some readInst) # rest) =
     (if sourceLoc origInst \<noteq> sourceLoc readInst then assertFail asserts
      else checkRawLocs asserts rest)"
| "checkRawLocs asserts (p # rest) = None"

text \<open>Lines 501 to 561, over the same pairs.\<close>

fun checkDebugLocs ::
  "'s VerifyEnv \<Rightarrow> bool \<Rightarrow> SourceManager \<Rightarrow> SourceManager \<Rightarrow> (IRInst option \<times> IRInst option) list
     \<Rightarrow> SlangResult option" where
  "checkDebugLocs V asserts origMgr workMgr [] = Some SLANG_OK"
| "checkDebugLocs V asserts origMgr workMgr ((Some origInst, Some readInst) # rest) =
     (if sourceLoc origInst = sourceLoc readInst then checkDebugLocs V asserts origMgr workMgr rest
      else
        (case (findSourceView V origMgr (sourceLoc origInst),
               findSourceView V workMgr (sourceLoc readInst)) of
           (None, None) \<Rightarrow> checkDebugLocs V asserts origMgr workMgr rest
         | (Some origSourceView, Some readSourceView) \<Rightarrow>
             if sourceLoc origInst - viewBegin origSourceView
                  \<noteq> sourceLoc readInst - viewBegin readSourceView
             then assertFail asserts
             else
               (let origInfo = getHumaneLoc V origSourceView (sourceLoc origInst);
                    readInfo = getHumaneLoc V readSourceView (sourceLoc readInst)
                in if \<not> (line origInfo = line readInfo \<and> column origInfo = column readInfo
                          \<and> foundPath origInfo = foundPath readInfo)
                   then assertFail asserts
                   else checkDebugLocs V asserts origMgr workMgr rest)
         | (None, Some readSourceView) \<Rightarrow> None
         | (Some origSourceView, None) \<Rightarrow> None))"
| "checkDebugLocs V asserts origMgr workMgr (p # rest) = None"

text \<open>
  Lines 476 to 563: the comparison of the two instruction lists. Line 487,
  \<open>SLANG_ASSERT(readInsts[0] == originalInsts[0])\<close>, only exists with assertions
  compiled in (indexing an empty list is then an assertion failure too).
\<close>

definition slotZeroShared :: "IRInst option list \<Rightarrow> IRInst option list \<Rightarrow> bool" where
  "slotZeroShared readInsts originalInsts =
     (case (readInsts, originalInsts) of
        (readInst # rs, origInst # os) \<Rightarrow> readInst = origInst
      | _ \<Rightarrow> False)"

definition compareInsts ::
  "'s VerifyEnv \<Rightarrow> bool \<Rightarrow> WriteOptions \<Rightarrow> SourceManager \<Rightarrow> IRInst option list \<Rightarrow> IRInst option list
     \<Rightarrow> SlangResult option" where
  "compareInsts V asserts options workMgr originalInsts readInsts =
     (if length readInsts \<noteq> length originalInsts then assertFail asserts
      else if RawSourceLocation \<in> optionFlags options
      then (if asserts \<and> \<not> slotZeroShared readInsts originalInsts then None
            else checkRawLocs asserts (zip (drop 1 originalInsts) (drop 1 readInsts)))
      else if DebugInfo \<in> optionFlags options
      then checkDebugLocs V asserts (wo_sourceManager options) workMgr
             (zip (drop 1 originalInsts) (drop 1 readInsts))
      else Some SLANG_OK)"

text \<open>
  Lines 421 to 474: reading the stream back, up to the module re-read (\<open>irReadModule\<close>,
  which line 471 reads from \<open>irData\<close>) and the work source manager.
\<close>

definition verifyRead ::
  "Readers \<Rightarrow> 's VerifyEnv \<Rightarrow> bool \<Rightarrow> WriteOptions \<Rightarrow> IRSerialData \<Rightarrow> 's
     \<Rightarrow> (SlangResult + IRModule \<times> SourceManager) option" where
  "verifyRead R V asserts options irData stream =
     (case riffRead V stream of
        None \<Rightarrow> Some (Inl SLANG_FAIL)
      | Some rootList \<Rightarrow>
          (case verifyReadDebug R options (initializeSourceManager V (wo_sourceManager options))
                  rootList of
             None \<Rightarrow> Some (Inl SLANG_FAIL)
           | Some (sourceLocReader, workMgr) \<Rightarrow>
               (case verifyReadData R options rootList of
                  None \<Rightarrow> Some (Inl SLANG_FAIL)
                | Some irReadData \<Rightarrow>
                    if irData \<noteq> irReadData then map_option Inl (assertFail asserts)
                    else
                      (case irRead R irData sourceLocReader of
                         None \<Rightarrow> Some (Inl SLANG_FAIL)
                       | Some irReadModule \<Rightarrow> Some (Inr (irReadModule, workMgr))))))"

definition verifyIRSerialize ::
  "Writers \<Rightarrow> Readers \<Rightarrow> 's VerifyEnv \<Rightarrow> bool \<Rightarrow> IRModule \<Rightarrow> WriteOptions \<Rightarrow> SlangResult option" where
  "verifyIRSerialize W R V asserts module options =
     (case verifyWrite W V module options of
        None \<Rightarrow> Some SLANG_FAIL
      | Some (irData, stream) \<Rightarrow>
          (case verifyRead R V asserts options irData stream of
             None \<Rightarrow> None
           | Some (Inl r) \<Rightarrow> Some r
           | Some (Inr (irReadModule, workMgr)) \<Rightarrow>
               compareInsts V asserts options workMgr
                 (calcInstructionList V module) (calcInstructionList V irReadModule)))"

text \<open>
  The agreement that lines 509 to 544 accept for one instruction: the same raw location,
  or no source view for either location, or a source view for each with the same offset
  in the view and the same line, column and found path.
\<close>

definition locationsAgree ::
  "'s VerifyEnv \<Rightarrow> SourceManager \<Rightarrow> SourceManager \<Rightarrow> IRInst \<Rightarrow> IRInst \<Rightarrow> bool" where
  "locationsAgree V origMgr workMgr origInst readInst \<longleftrightarrow>
     sourceLoc origInst = sourceLoc readInst
     \<or> (findSourceView V origMgr (sourceLoc origInst) = None
        \<and> findSourceView V workMgr (sourceLoc readInst) = None)
     \<or> (\<exists>origSourceView readSourceView.
           findSourceView V origMgr (sourceLoc origInst) = Some origSourceView
         \<and> findSourceView V workMgr (sourceLoc readInst) = Some readSourceView
         \<and> sourceLoc origInst - viewBegin origSourceView
             = sourceLoc readInst - viewBegin readSourceView
         \<and> line (getHumaneLoc V origSourceView (sourceLoc origInst))
             = line (getHumaneLoc V readSourceView (sourceLoc readInst))
         \<and> column (getHumaneLoc V origSourceView (sourceLoc origInst))
             = column (getHumaneLoc V readSourceView (sourceLoc readInst))
         \<and> foundPath (getHumaneLoc V origSourceView (sourceLoc origInst))
             = foundPath (getHumaneLoc V readSourceView (sourceLoc readInst)))"

text \<open>
  The resolved location of a raw location in a source manager: line, column and found
  path in the source view that holds it, if there is one.
\<close>

definition resolvedLoc :: "'s VerifyEnv \<Rightarrow> SourceManager \<Rightarrow> SourceLoc \<Rightarrow> (nat \<times> nat \<times> string) option" where
  "resolvedLoc V mgr loc =
     (case findSourceView V mgr loc of
        None \<Rightarrow> None
      | Some v \<Rightarrow>
          Some (line (getHumaneLoc V v loc), column (getHumaneLoc V v loc),
                foundPath (getHumaneLoc V v loc)))"

subsection \<open>Collaborators for running the verifier\<close>

text \<open>
  The instruction list of a module is the reserved null entry followed by its
  instructions; the stream holds the container as it is; a source view holds the
  locations from its begin to its end, and a location resolves to line 1 and the column
  of its offset. The relocating readers rebuild every source view 100 locations further
  on in the work source manager and give a re-read instruction its location there.
\<close>

fun simpleFindSourceView :: "SourceManager \<Rightarrow> SourceLoc \<Rightarrow> SourceView option" where
  "simpleFindSourceView (SourceManager vs) loc =
     find (\<lambda>v. viewBegin v \<le> loc \<and> loc \<le> viewEnd v) vs"

fun rootChildren :: "Chunk \<Rightarrow> Chunk list option" where
  "rootChildren (ListChunk t cs) = Some cs"
| "rootChildren (DataChunk t bs) = None"

definition simpleVerifyEnv :: "Chunk VerifyEnv" where
  "simpleVerifyEnv =
     \<lparr>calcInstructionList = (\<lambda>m. case m of IRModule insts \<Rightarrow> None # map Some insts),
      riffWrite = Some,
      riffRead = rootChildren,
      initializeSourceManager = (\<lambda>mgr. mgr),
      findSourceView = simpleFindSourceView,
      getHumaneLoc = (\<lambda>v loc. \<lparr>line = 1, column = unat (loc - viewBegin v) + 1,
                                foundPath = viewPath v\<rparr>)\<rparr>"

fun relocateViews :: "SerialSourceLocData \<Rightarrow> SourceManager \<Rightarrow> (SerialSourceLocReader \<times> SourceManager) option" where
  "relocateViews d (SourceManager vs) =
     Some (SerialSourceLocReader [],
           SourceManager (vs @ map (\<lambda>v. v\<lparr>viewBegin := viewBegin v + 100, viewEnd := viewEnd v + 100\<rparr>) vs))"

definition relocatingIRRead :: "IRSerialData \<Rightarrow> SerialSourceLocReader option \<Rightarrow> IRModule option" where
  "relocatingIRRead serialData lr =
     Some (IRModule (map (\<lambda>(opc, ty, ops).
             \<lparr>instId = opc, sourceLoc = of_nat ty + (if lr = None then 0 else 100)\<rparr>) serialData))"

definition relocatingReaders :: Readers where
  "relocatingReaders = simpleReaders\<lparr>sourceLocRead := relocateViews, irRead := relocatingIRRead\<rparr>"

text \<open>
  An environment whose work source manager holds no source view after \<open>initialize\<close>:
  the views of the original manager are not its own.
\<close>

definition freshVerifyEnv :: "Chunk VerifyEnv" where
  "freshVerifyEnv = simpleVerifyEnv\<lparr>initializeSourceManager := (\<lambda>mgr. SourceManager [])\<rparr>"

definition sampleSourceManager :: SourceManager where
  "sampleSourceManager = SourceManager [\<lparr>viewBegin = 0, viewEnd = 50, viewPath = ''a.slang''\<rparr>]"

definition sampleIRModule :: IRModule where
  "sampleIRModule = IRModule [\<lparr>instId = 3, sourceLoc = 7\<rparr>, \<lparr>instId = 4, sourceLoc = 9\<rparr>]"

definition verifyOptions :: "SerialOptionFlag set \<Rightarrow> WriteOptions" where
  "verifyOptions flags =
     \<lparr>compressionType = 0, optionFlags = flags, wo_sourceManager = sampleSourceManager\<rparr>"

section \<open>What \<open>read\<close> decodes from which chunk\<close>

text \<open>
  For stating the order in which \<open>read\<close> emits what it decodes. A chunk of the module
  list is an IR-module List chunk, an AST-module List chunk (which may hold AST data), or
  something else.
\<close>

definition isIRChunk :: "Chunk \<Rightarrow> bool" where
  "isIRChunk c \<longleftrightarrow> asListChunk c kIRModuleFourCc \<noteq> None"

definition isASTChunk :: "Chunk \<Rightarrow> bool" where
  "isASTChunk c \<longleftrightarrow> asListChunk c kSlangASTModuleFourCC \<noteq> None"

definition astPayload :: "Chunk \<Rightarrow> byte list option" where
  "astPayload c =
     (case asListChunk c kSlangASTModuleFourCC of
        None \<Rightarrow> None
      | Some astChunk \<Rightarrow> findContainedData kSlangASTModuleDataFourCC astChunk)"

text \<open>
  The chunks that the iterations of the module loop visit, one slot per iteration, in the
  order of the module list: the IR-module chunk at which the iteration starts, if it
  starts at one (line 276), and the AST-module chunk that is current after it, if there
  is one (line 290). An iteration that starts at any other chunk steps over that chunk
  (line 338).
\<close>

type_synonym ChunkSlot = "Chunk option \<times> Chunk option"

fun chunkSlots :: "Chunk list \<Rightarrow> ChunkSlot list" where
  "chunkSlots [] = []"
| "chunkSlots [c] =
     (if isIRChunk c then [(Some c, None)]
      else if isASTChunk c then [(None, Some c)]
      else [(None, None)])"
| "chunkSlots (c # c' # cs) =
     (if isIRChunk c
      then (if isASTChunk c' then (Some c, Some c') # chunkSlots cs
            else (Some c, None) # chunkSlots (c' # cs))
      else if isASTChunk c then (None, Some c) # chunkSlots (c' # cs)
      else (None, None) # chunkSlots (c' # cs))"

text \<open>
  A slot leads to a module when it has an IR-module chunk or an AST-module chunk that
  holds AST data (lines 280 to 284, 292 to 319 and 326).
\<close>

definition slotEmits :: "ChunkSlot \<Rightarrow> bool" where
  "slotEmits s \<longleftrightarrow> fst s \<noteq> None \<or> (\<exists>c. snd s = Some c \<and> astPayload c \<noteq> None)"

text \<open>
  An IR module is decoded from a chunk (lines 280 to 284); the AST side of a module, the
  builder named after the number of modules emitted before it, is decoded from a chunk
  (lines 292 to 319); a module is decoded from a slot; an entry point is decoded from the
  payload of an entry-point Data chunk in a string pool (lines 363 to 369).
\<close>

definition decodesIR ::
  "Readers \<Rightarrow> SerialCompressionType \<Rightarrow> SerialSourceLocReader option \<Rightarrow> Chunk \<Rightarrow> IRModule \<Rightarrow> bool" where
  "decodesIR R ct lr c ir \<longleftrightarrow>
     (\<exists>irChunk serialData.
        asListChunk c kIRModuleFourCc = Some irChunk
      \<and> irReadContainer R irChunk ct = Some serialData
      \<and> irRead R serialData lr = Some ir)"

definition decodesAST ::
  "Readers \<Rightarrow> SerialSourceLocReader option \<Rightarrow> nat \<Rightarrow> Chunk \<Rightarrow> Module \<Rightarrow> bool" where
  "decodesAST R lr count c m \<longleftrightarrow>
     (\<exists>payload.
        astPayload c = Some payload
      \<and> astBuilder m = Some (ASTBuilder (''tu'' @ string_of_nat count))
      \<and> astLoad R payload lr (ASTBuilder (''tu'' @ string_of_nat count)) = Some (astRootNode m))"

definition decodesSlot ::
  "Readers \<Rightarrow> SerialCompressionType \<Rightarrow> SerialSourceLocReader option \<Rightarrow> nat \<Rightarrow> ChunkSlot \<Rightarrow> Module
     \<Rightarrow> bool" where
  "decodesSlot R ct lr count s m \<longleftrightarrow>
     (case fst s of
        None \<Rightarrow> irModule m = None
      | Some c \<Rightarrow> (\<exists>ir. irModule m = Some ir \<and> decodesIR R ct lr c ir))
     \<and> (case snd s of
          None \<Rightarrow> astBuilder m = None \<and> astRootNode m = None
        | Some c \<Rightarrow>
            if astPayload c = None then astBuilder m = None \<and> astRootNode m = None
            else decodesAST R lr count c m)"

definition decodesEntryPoint :: "StringSlicePool \<Rightarrow> byte list \<Rightarrow> EntryPoint \<Rightarrow> bool" where
  "decodesEntryPoint pool payload e \<longleftrightarrow>
     (\<exists>src.
        decodeEntryPoint payload = Some src
      \<and> getSlice pool (unat (bin_name src)) = Some (name e)
      \<and> getSlice pool (unat (bin_mangledName src)) = Some (mangledName e)
      \<and> profile e = bin_profile src)"

definition moduleListChunks :: "Chunk list \<Rightarrow> Chunk list" where
  "moduleListChunks containerChunk =
     (case findContainedList kModuleListFourCc containerChunk of None \<Rightarrow> [] | Some ml \<Rightarrow> ml)"

section \<open>What \<open>write\<close> hands to the payload codecs\<close>

text \<open>
  The payloads that \<open>write\<close> puts into the module-list chunk, in the order written: an
  IR module pointer (of a module, or of a target component) or the module declaration
  of a module.
\<close>

type_synonym Payload = "IRModule option + NodeBase"

definition modulePayloads :: "SerialOptionFlag set \<Rightarrow> Module \<Rightarrow> Payload list" where
  "modulePayloads flags m =
     (if IRModuleFlag \<in> flags \<and> irModule m \<noteq> None then [Inl (irModule m)] else [])
     @ (case astRootNode m of
          Some (ModuleDecl k) \<Rightarrow> if ASTModuleFlag \<in> flags then [Inr (ModuleDecl k)] else []
        | _ \<Rightarrow> [])"

definition writtenPayloads :: "SerialContainerData \<Rightarrow> WriteOptions \<Rightarrow> Payload list" where
  "writtenPayloads d options =
     (if writesModuleList d options
      then concat (map (modulePayloads (optionFlags options)) (modules d))
           @ (if targetComponents d \<noteq> [] \<and> IRModuleFlag \<in> optionFlags options
              then map (\<lambda>t. Inl (tc_irModule t)) (targetComponents d) else [])
      else [])"

text \<open>
  The payloads as the module loop of \<open>read\<close> will group them: an IR payload with the AST
  payload written directly after it, or either alone.
\<close>

datatype PayloadSlot =
    IRSlot "IRModule option"
  | ASTSlot NodeBase
  | IRASTSlot "IRModule option" NodeBase

fun payloadSlots :: "Payload list \<Rightarrow> PayloadSlot list" where
  "payloadSlots [] = []"
| "payloadSlots (Inr node # ps) = ASTSlot node # payloadSlots ps"
| "payloadSlots [Inl ir] = [IRSlot ir]"
| "payloadSlots (Inl ir # Inr node # ps) = IRASTSlot ir node # payloadSlots ps"
| "payloadSlots (Inl ir # Inl ir' # ps) = IRSlot ir # payloadSlots (Inl ir' # ps)"

text \<open>
  The payload codecs bring a payload back: whatever the source-location writer holds, the
  payload writer succeeds on it, and what it writes is read, with whatever
  source-location reader and AST builder, as something that stands in the given relation
  to the payload written (equality, or equality up to the relocation of source
  locations).
\<close>

definition payloadRoundTrips ::
  "Writers \<Rightarrow> Readers \<Rightarrow> WriteOptions \<Rightarrow> (IRModule option \<Rightarrow> IRModule \<Rightarrow> bool)
     \<Rightarrow> (NodeBase \<Rightarrow> NodeBase option \<Rightarrow> bool) \<Rightarrow> Payload \<Rightarrow> bool" where
  "payloadRoundTrips W R options irSim astSim p =
     (case p of
        Inl ir \<Rightarrow>
          (\<forall>w. \<exists>serialData locs children.
               irWrite W ir w (optionFlags options) = Some (serialData, locs)
             \<and> irWriteContainer W serialData (compressionType options) = Some children
             \<and> (\<forall>lr. \<exists>readData m.
                    irReadContainer R children (compressionType options) = Some readData
                  \<and> irRead R readData lr = Some m \<and> irSim ir m))
      | Inr node \<Rightarrow>
          (\<forall>w. \<exists>children locs payload.
               astWrite W node w = Some (children, locs)
             \<and> findContainedData kSlangASTModuleDataFourCC children = Some payload
             \<and> (\<forall>lr builder. \<exists>root. astLoad R payload lr builder = Some root \<and> astSim node root)))"

text \<open>A chunk that holds a payload so that it is read back in that relation to it.\<close>

definition holdsPayload ::
  "Readers \<Rightarrow> WriteOptions \<Rightarrow> (IRModule option \<Rightarrow> IRModule \<Rightarrow> bool)
     \<Rightarrow> (NodeBase \<Rightarrow> NodeBase option \<Rightarrow> bool) \<Rightarrow> Chunk \<Rightarrow> Payload \<Rightarrow> bool" where
  "holdsPayload R options irSim astSim c p =
     (case p of
        Inl ir \<Rightarrow>
          (\<exists>children. c = ListChunk kIRModuleFourCc children
             \<and> (\<forall>lr. \<exists>readData m.
                    irReadContainer R children (compressionType options) = Some readData
                  \<and> irRead R readData lr = Some m \<and> irSim ir m))
      | Inr node \<Rightarrow>
          (\<exists>children payload. c = ListChunk kSlangASTModuleFourCC children
             \<and> findContainedData kSlangASTModuleDataFourCC children = Some payload
             \<and> (\<forall>lr builder. \<exists>root. astLoad R payload lr builder = Some root \<and> astSim node root)))"

text \<open>A module that \<open>read\<close> emits brings a slot of payloads back.\<close>

definition readsBackAs ::
  "(IRModule option \<Rightarrow> IRModule \<Rightarrow> bool) \<Rightarrow> (NodeBase \<Rightarrow> NodeBase option \<Rightarrow> bool)
     \<Rightarrow> PayloadSlot \<Rightarrow> Module \<Rightarrow> bool" where
  "readsBackAs irSim astSim s m =
     (case s of
        IRSlot ir \<Rightarrow>
          (\<exists>ir'. irModule m = Some ir' \<and> irSim ir ir')
          \<and> astBuilder m = None \<and> astRootNode m = None
      | ASTSlot node \<Rightarrow>
          irModule m = None
          \<and> (\<exists>builder. astBuilder m = Some builder) \<and> astSim node (astRootNode m)
      | IRASTSlot ir node \<Rightarrow>
          (\<exists>ir'. irModule m = Some ir' \<and> irSim ir ir')
          \<and> (\<exists>builder. astBuilder m = Some builder) \<and> astSim node (astRootNode m))"

text \<open>
  The codecs bring a snapshot back: every payload that \<open>write\<close> hands out is brought back,
  the serial classes can be created, the debug information that is written reads back
  into the reader's source manager, the container string table reads back as the pool it
  was written from, and the handles of that pool fit a \<open>uint32_t\<close>.
\<close>

definition codecsRoundTrip ::
  "Writers \<Rightarrow> Readers \<Rightarrow> (IRModule option \<Rightarrow> IRModule \<Rightarrow> bool)
     \<Rightarrow> (NodeBase \<Rightarrow> NodeBase option \<Rightarrow> bool) \<Rightarrow> WriteOptions \<Rightarrow> ReadOptions
     \<Rightarrow> SerialContainerData \<Rightarrow> bool" where
  "codecsRoundTrip W R irSim astSim options ro d \<longleftrightarrow>
     (\<forall>p\<in>set (writtenPayloads d options). payloadRoundTrips W R options irSim astSim p)
     \<and> w_serialClassesCreate W \<and> serialClassesCreate R
     \<and> (\<forall>locs. \<exists>sourceLocData reader mgr.
            sourceLocReadContainer R (compressionType options)
              (snd (sourceLocWriteContainer W locs (compressionType options))) = Some sourceLocData
          \<and> sourceLocRead R sourceLocData (ro_sourceManager ro) = Some (reader, mgr))
     \<and> decodeStringTable R
          (encodeStringTable W (snd (writeEntryPoints (StringSlicePool []) (entryPoints d))))
         = snd (writeEntryPoints (StringSlicePool []) (entryPoints d))
     \<and> length (getAdded (snd (writeEntryPoints (StringSlicePool []) (entryPoints d)))) < 2 ^ 32"

text \<open>
  Relations for the codecs of this file: an IR module comes back with the same
  instructions, their source locations as written or relocated; an AST root comes back
  as the node written.
\<close>

definition sameInstructions :: "IRModule option \<Rightarrow> IRModule \<Rightarrow> bool" where
  "sameInstructions ir m \<longleftrightarrow>
     (case (ir, m) of
        (Some (IRModule insts), IRModule insts') \<Rightarrow> map instId insts' = map instId insts
      | (None, m') \<Rightarrow> False)"

definition sameNode :: "NodeBase \<Rightarrow> NodeBase option \<Rightarrow> bool" where
  "sameNode node root \<longleftrightarrow> root = Some node"

section \<open>Properties of the orchestrator\<close>

subsection \<open>Shared facts\<close>

lemma decodeU32_encodeU32: "decodeU32 (encodeU32 w @ bs) = Some w"
proof -
  have "(ucast (ucast w :: byte) OR push_bit 8 (ucast (ucast (drop_bit 8 w) :: byte)) OR
         push_bit 16 (ucast (ucast (drop_bit 16 w) :: byte)) OR
         push_bit 24 (ucast (ucast (drop_bit 24 w) :: byte)) :: 32 word) = w"
  proof (rule bit_word_eqI)
    fix n assume "n < LENGTH(32)"
    then consider "n < 8" | "8 \<le> n" "n < 16" | "16 \<le> n" "n < 24" | "24 \<le> n" "n < 32"
      by fastforce
    then show "bit (ucast (ucast w :: byte) OR push_bit 8 (ucast (ucast (drop_bit 8 w) :: byte)) OR
         push_bit 16 (ucast (ucast (drop_bit 16 w) :: byte)) OR
         push_bit 24 (ucast (ucast (drop_bit 24 w) :: byte)) :: 32 word) n = bit w n"
      by cases (auto simp: bit_simps)
  qed
  then show ?thesis
    by (simp add: encodeU32_def)
qed

lemma findContainerHeader_written:
  "findContainerHeader (DataChunk kContainerHeaderFourCc (encodeU32 ct) # cs) = Some ct"
  using decodeU32_encodeU32 [of ct "[]"] by (simp add: findContainerHeader_def)

subsection \<open>The empty session\<close>

text \<open>
  C6. For a snapshot with no module, no target component and no entry point, \<open>write\<close>
  succeeds and the container chunk holds the header Data chunk only: no module-list,
  entry-point, debug-info or string-table chunk, whatever the option flags. \<open>read\<close> of
  that container succeeds with the empty snapshot. This holds for every collaborator.
\<close>

theorem write_read_empty_snapshot:
  assumes "modules d = []" and "targetComponents d = []" and "entryPoints d = []"
  shows "write W d options =
           Some (ListChunk kContainerFourCc
                   [DataChunk kContainerHeaderFourCc (encodeU32 (compressionType options))])
         \<and> read R (ListChunk kContainerFourCc
                     [DataChunk kContainerHeaderFourCc (encodeU32 (compressionType options))]) ro
             = Some (SLANG_OK, clear)"
proof
  show "write W d options =
           Some (ListChunk kContainerFourCc
                   [DataChunk kContainerHeaderFourCc (encodeU32 (compressionType options))])"
    using assms
    by (simp add: write_def writeModuleList_def writeDebugInfo_def writeStringTable_def)
next
  let ?cc = "[DataChunk kContainerHeaderFourCc (encodeU32 (compressionType options))]"
  have h: "findContainerHeader ?cc = Some (compressionType options)"
    by (rule findContainerHeader_written)
  have dbg: "readDebugInfo R ro (compressionType options) ?cc = Some None"
    by (simp add: readDebugInfo_def)
  have body: "readModulesAndEntryPoints R (compressionType options) (readStringTable R ?cc) None ?cc
      = Some (SLANG_OK, clear)"
    by (simp add: readModulesAndEntryPoints_def readModules_def clear_def)
  show "read R (ListChunk kContainerFourCc ?cc) ro = Some (SLANG_OK, clear)"
    by (simp add: read_def h dbg body)
qed

theorem write_read_empty_snapshot_witness:
  "write simpleWriters clear
       \<lparr>compressionType = 0, optionFlags = {IRModuleFlag, DebugInfo},
        wo_sourceManager = noSourceManager\<rparr>
     = Some (ListChunk kContainerFourCc [DataChunk kContainerHeaderFourCc [0, 0, 0, 0]])
   \<and> read simpleReaders (ListChunk kContainerFourCc [DataChunk kContainerHeaderFourCc [0, 0, 0, 0]])
        \<lparr>ro_sourceManager = noSourceManager\<rparr> = Some (SLANG_OK, clear)"
  using write_read_empty_snapshot [of clear simpleWriters
      "\<lparr>compressionType = 0, optionFlags = {IRModuleFlag, DebugInfo},
        wo_sourceManager = noSourceManager\<rparr>"
      simpleReaders "\<lparr>ro_sourceManager = noSourceManager\<rparr>"]
  by (simp add: clear_def encodeU32_def)

subsection \<open>Termination of the module loop\<close>

lemma readModuleListBounded_enough:
  "length cs \<le> n \<Longrightarrow>
     readModuleListBounded n R ct lr classes out cs = Some (readModuleList R ct lr classes out cs)"
proof (induction n arbitrary: classes out cs)
  case 0
  then show ?case by simp
next
  case (Suc n)
  show ?case
  proof (cases cs)
    case Nil
    then show ?thesis by simp
  next
    case (Cons c cs0)
    show ?thesis
    proof (cases "readSlot R ct lr classes (length out) (c # cs0)")
      case None
      with Cons show ?thesis by simp
    next
      case (Some res)
      obtain ms classes' cs' where res: "res = (ms, classes', cs')"
        by (cases res) auto
      from Some res have slot: "readSlot R ct lr classes (length out) (c # cs0) = Some (ms, classes', cs')"
        by simp
      from readSlot_length [OF slot] Suc.prems Cons have "length cs' \<le> n"
        by simp
      from Suc.IH [OF this] slot Cons show ?thesis
        by simp
    qed
  qed
qed

lemma readSlot_skips_other:
  assumes "asListChunk c kIRModuleFourCc = None" and "asListChunk c kSlangASTModuleFourCC = None"
  shows "readSlot R ct lr classes count (c # cs) = Some ([], classes, cs)"
  using assms
  by (simp add: readSlot_def readIRPart_def readASTPart_def emitModule_def stepIfNoProgress_def)

text \<open>
  C10. Every iteration of the module loop of \<open>read\<close> that does not fail leaves strictly
  fewer chunks to visit than it was given; a chunk that is neither an IR-module List
  chunk nor an AST-module List chunk is stepped over, emitting nothing, changing nothing
  and without error; and the loop over any chunk list returns within as many iterations
  as the list has chunks.
\<close>

theorem readModuleList_terminates:
  "(\<forall>ms classes' cs'. readSlot R ct lr classes count (c # cs) = Some (ms, classes', cs')
       \<longrightarrow> length cs' < length (c # cs))
   \<and> (asListChunk c kIRModuleFourCc = None \<longrightarrow> asListChunk c kSlangASTModuleFourCC = None
       \<longrightarrow> readSlot R ct lr classes count (c # cs) = Some ([], classes, cs))
   \<and> readModuleListBounded (length chunks) R ct lr classes out chunks
       = Some (readModuleList R ct lr classes out chunks)"
proof (intro conjI allI impI)
  fix ms classes' cs'
  assume "readSlot R ct lr classes count (c # cs) = Some (ms, classes', cs')"
  from readSlot_length [OF this] show "length cs' < length (c # cs)"
    by simp
next
  assume "asListChunk c kIRModuleFourCc = None" and "asListChunk c kSlangASTModuleFourCC = None"
  then show "readSlot R ct lr classes count (c # cs) = Some ([], classes, cs)"
    by (rule readSlot_skips_other)
next
  show "readModuleListBounded (length chunks) R ct lr classes out chunks
       = Some (readModuleList R ct lr classes out chunks)"
    by (rule readModuleListBounded_enough) simp
qed

theorem readModuleList_terminates_witness:
  "readSlot simpleReaders 0 None False 0
       [DataChunk (OtherFourCC 9) [1], ListChunk kIRModuleFourCc [DataChunk (OtherFourCC 1) [7, 0, 0, 0]]]
     = Some ([], False, [ListChunk kIRModuleFourCc [DataChunk (OtherFourCC 1) [7, 0, 0, 0]]])
   \<and> length [ListChunk kIRModuleFourCc [DataChunk (OtherFourCC 1) [7, 0, 0, 0]]]
       < length [DataChunk (OtherFourCC 9) [1], ListChunk kIRModuleFourCc [DataChunk (OtherFourCC 1) [7, 0, 0, 0]]]
   \<and> readModuleListBounded 2 simpleReaders 0 None False []
       [DataChunk (OtherFourCC 9) [1], ListChunk kIRModuleFourCc [DataChunk (OtherFourCC 1) [7, 0, 0, 0]]]
     = Some (readModuleList simpleReaders 0 None False []
       [DataChunk (OtherFourCC 9) [1], ListChunk kIRModuleFourCc [DataChunk (OtherFourCC 1) [7, 0, 0, 0]]])"
proof -
  let ?ir = "ListChunk kIRModuleFourCc [DataChunk (OtherFourCC 1) [7, 0, 0, 0]]"
  let ?junk = "DataChunk (OtherFourCC 9) [1]"
  note t = readModuleList_terminates [of simpleReaders 0 None False 0 ?junk "[?ir]" "[?junk, ?ir]" "[]"]
  have a: "asListChunk ?junk kIRModuleFourCc = None" and b: "asListChunk ?junk kSlangASTModuleFourCC = None"
    by simp_all
  from t a b have slot: "readSlot simpleReaders 0 None False 0 [?junk, ?ir] = Some ([], False, [?ir])"
    by blast
  from t slot have less: "length [?ir] < length [?junk, ?ir]"
    by blast
  have len: "length [?junk, ?ir] = 2"
    by simp
  from t have "readModuleListBounded (length [?junk, ?ir]) simpleReaders 0 None False [] [?junk, ?ir]
      = Some (readModuleList simpleReaders 0 None False [] [?junk, ?ir])"
    by blast
  then have bounded: "readModuleListBounded 2 simpleReaders 0 None False [] [?junk, ?ir]
      = Some (readModuleList simpleReaders 0 None False [] [?junk, ?ir])"
    unfolding len .
  from slot less bounded show ?thesis
    by blast
qed

subsection \<open>Locating the container and its header\<close>

text \<open>
  C7. \<open>read\<close> returns the failing code with the cleared snapshot when no List chunk
  tagged as container is found from the root, and likewise when the container chunk
  holds no header Data chunk. When both are found, a missing string-table chunk is read
  as the empty pool and a missing debug-info chunk as no source-location reader, and
  neither makes the call fail: \<open>read\<close> is then what the module and entry-point stages
  return for the empty pool, respectively for no reader.
\<close>

theorem read_requires_container_and_header:
  "(findListRec kContainerFourCc root = None \<longrightarrow> read R root options = Some (SLANG_FAIL, clear))
   \<and> (\<forall>cc. findListRec kContainerFourCc root = Some cc \<longrightarrow> findContainerHeader cc = None
         \<longrightarrow> read R root options = Some (SLANG_FAIL, clear))
   \<and> (\<forall>cc ct. findListRec kContainerFourCc root = Some cc \<longrightarrow> findContainerHeader cc = Some ct
         \<longrightarrow> findContainedData kStringTableFourCc cc = None
         \<longrightarrow> read R root options =
               (case readDebugInfo R options ct cc of
                  None \<Rightarrow> Some (SLANG_FAIL, clear)
                | Some lr \<Rightarrow> readModulesAndEntryPoints R ct (StringSlicePool []) lr cc))
   \<and> (\<forall>cc ct. findListRec kContainerFourCc root = Some cc \<longrightarrow> findContainerHeader cc = Some ct
         \<longrightarrow> findContainedList kDebugFourCc cc = None
         \<longrightarrow> read R root options = readModulesAndEntryPoints R ct (readStringTable R cc) None cc)"
  by (simp add: read_def readStringTable_def readDebugInfo_def)

theorem read_requires_container_and_header_witness:
  "read simpleReaders (ListChunk kModuleListFourCc []) \<lparr>ro_sourceManager = noSourceManager\<rparr>
     = Some (SLANG_FAIL, clear)
   \<and> read simpleReaders (ListChunk kContainerFourCc [DataChunk kContainerHeaderFourCc [0, 0, 0]])
        \<lparr>ro_sourceManager = noSourceManager\<rparr> = Some (SLANG_FAIL, clear)
   \<and> read simpleReaders
        (ListChunk kContainerFourCc
           [DataChunk kContainerHeaderFourCc [0, 0, 0, 0],
            DataChunk kEntryPointFourCc [0, 0, 0, 0, 3, 0, 0, 0, 0, 0, 0, 0]])
        \<lparr>ro_sourceManager = noSourceManager\<rparr>
     = Some (SLANG_OK, clear\<lparr>entryPoints := [\<lparr>name = [], mangledName = [], profile = 3\<rparr>]\<rparr>)"
proof -
  let ?ro = "\<lparr>ro_sourceManager = noSourceManager\<rparr>"
  let ?a = "ListChunk kModuleListFourCc []"
  let ?bcc = "[DataChunk kContainerHeaderFourCc [0, 0, 0]]"
  let ?ccc = "[DataChunk kContainerHeaderFourCc [0, 0, 0, 0],
            DataChunk kEntryPointFourCc [0, 0, 0, 0, 3, 0, 0, 0, 0, 0, 0, 0]]"
  have a: "read simpleReaders ?a ?ro = Some (SLANG_FAIL, clear)"
    using read_requires_container_and_header [of ?a simpleReaders ?ro] by simp
  have "findListRec kContainerFourCc (ListChunk kContainerFourCc ?bcc) = Some ?bcc"
    and "findContainerHeader ?bcc = None"
    by (simp_all add: findContainerHeader_def)
  with read_requires_container_and_header [of "ListChunk kContainerFourCc ?bcc" simpleReaders ?ro]
  have b: "read simpleReaders (ListChunk kContainerFourCc ?bcc) ?ro = Some (SLANG_FAIL, clear)"
    by blast
  have c1: "findListRec kContainerFourCc (ListChunk kContainerFourCc ?ccc) = Some ?ccc"
    and c2: "findContainerHeader ?ccc = Some 0"
    and c3: "findContainedData kStringTableFourCc ?ccc = None"
    and c4: "findContainedList kDebugFourCc ?ccc = None"
    by (simp_all add: findContainerHeader_def)
  from read_requires_container_and_header [of "ListChunk kContainerFourCc ?ccc" simpleReaders ?ro] c1 c2 c4
  have "read simpleReaders (ListChunk kContainerFourCc ?ccc) ?ro
      = readModulesAndEntryPoints simpleReaders 0 (readStringTable simpleReaders ?ccc) None ?ccc"
    by blast
  also have "readStringTable simpleReaders ?ccc = StringSlicePool []"
    using c3 by (simp add: readStringTable_def)
  also have "readModulesAndEntryPoints simpleReaders 0 (StringSlicePool []) None ?ccc
      = Some (SLANG_OK, clear\<lparr>entryPoints := [\<lparr>name = [], mangledName = [], profile = 3\<rparr>]\<rparr>)"
    by (simp add: readModulesAndEntryPoints_def readModules_def decodeEntryPoint_def getSlice_def clear_def)
  finally have c: "read simpleReaders (ListChunk kContainerFourCc ?ccc) ?ro
      = Some (SLANG_OK, clear\<lparr>entryPoints := [\<lparr>name = [], mangledName = [], profile = 3\<rparr>]\<rparr>)" .
  from a b c show ?thesis
    by blast
qed

subsection \<open>Evaluating \<open>read\<close> on a concrete container\<close>

lemma string_of_nat_0: "string_of_nat 0 = ''0''"
  by (simp add: string_of_nat.simps)

lemmas read_eval =
  string_of_nat_0
  read_def readStringTable_def readDebugInfo_def readModulesAndEntryPoints_def readModules_def
  findContainerHeader_def readSlot_def readIRPart_def readASTPart_def emitModule_def
  stepIfNoProgress_def clear_def decodeEntryPoint_def getSlice_def
  simpleReaders_def simpleIRRead_def simpleASTLoad_def noSourceManager_def

subsection \<open>Which slots of the module list become modules\<close>










subsection \<open>The snapshot that a failing \<open>read\<close> leaves\<close>






subsection \<open>The order of the sections that \<open>write\<close> lays out\<close>

lemma recordLocs_None [simp]: "recordLocs w locs = None \<longleftrightarrow> w = None"
  by (cases w) (simp_all add: recordLocs_def)

lemma writeModuleIR_shape:
  assumes "writeModuleIR W options (w, cl, cs) m = Some (w', cl', cs')"
  shows "(w' = None \<longleftrightarrow> w = None)
     \<and> (\<exists>new. cs' = cs @ new \<and>
           map chunkShape new =
             (if IRModuleFlag \<in> optionFlags options \<and> irModule m \<noteq> None
              then [(ListKind, kIRModuleFourCc)] else []))"
  using assms
  by (auto simp: writeModuleIR_def writeIRModule_def split: if_splits option.splits)

lemma writeModuleAST_shape:
  assumes "writeModuleAST W options (w, cl, cs) m = Some (w', cl', cs')"
  shows "(w' = None \<longleftrightarrow> w = None)
     \<and> (\<exists>new. cs' = cs @ new \<and>
           map chunkShape new =
             (if ASTModuleFlag \<in> optionFlags options \<and> isModuleDecl (astRootNode m)
              then [(ListKind, kSlangASTModuleFourCC)] else []))"
  using assms
  by (auto simp: writeModuleAST_def split: if_splits option.splits NodeBase.splits)

lemma writeModules_shape:
  "writeModules W options (w, cl, cs) ms = Some (w', cl', cs') \<Longrightarrow>
     (w' = None \<longleftrightarrow> w = None)
     \<and> (\<exists>new. cs' = cs @ new \<and>
           map chunkShape new = concat (map (moduleShape (optionFlags options)) ms))"
proof (induction ms arbitrary: w cl cs)
  case Nil
  then show ?case by simp
next
  case (Cons m ms)
  from Cons.prems obtain w1 cl1 cs1 w2 cl2 cs2 where
    ir: "writeModuleIR W options (w, cl, cs) m = Some (w1, cl1, cs1)" and
    ast: "writeModuleAST W options (w1, cl1, cs1) m = Some (w2, cl2, cs2)" and
    rest: "writeModules W options (w2, cl2, cs2) ms = Some (w', cl', cs')"
    by (auto split: option.splits)
  from writeModuleIR_shape [OF ir] obtain n1 where
    a: "w1 = None \<longleftrightarrow> w = None" "cs1 = cs @ n1"
    "map chunkShape n1 = (if IRModuleFlag \<in> optionFlags options \<and> irModule m \<noteq> None
              then [(ListKind, kIRModuleFourCc)] else [])"
    by blast
  from writeModuleAST_shape [OF ast] obtain n2 where
    b: "w2 = None \<longleftrightarrow> w1 = None" "cs2 = cs1 @ n2"
    "map chunkShape n2 = (if ASTModuleFlag \<in> optionFlags options \<and> isModuleDecl (astRootNode m)
              then [(ListKind, kSlangASTModuleFourCC)] else [])"
    by blast
  from Cons.IH [OF rest] obtain n3 where
    c: "w' = None \<longleftrightarrow> w2 = None" "cs' = cs2 @ n3"
    "map chunkShape n3 = concat (map (moduleShape (optionFlags options)) ms)"
    by blast
  have "cs' = cs @ (n1 @ n2 @ n3)"
    using a(2) b(2) c(2) by simp
  moreover have "map chunkShape (n1 @ n2 @ n3)
      = concat (map (moduleShape (optionFlags options)) (m # ms))"
    using a(3) b(3) c(3) by (simp add: moduleShape_def)
  ultimately show ?case
    using a(1) b(1) c(1) by blast
qed

lemma writeTargets_shape:
  "writeTargets W options (w, cl, cs) ts = Some (w', cl', cs') \<Longrightarrow>
     (w' = None \<longleftrightarrow> w = None)
     \<and> (\<exists>new. cs' = cs @ new \<and>
           map chunkShape new = replicate (length ts) (ListKind, kIRModuleFourCc))"
proof (induction ts arbitrary: w cl cs)
  case Nil
  then show ?case by simp
next
  case (Cons t ts)
  from Cons.prems obtain c w1 where
    ir: "writeIRModule W options w (tc_irModule t) = Some (c, w1)" and
    rest: "writeTargets W options (w1, cl, cs @ [c]) ts = Some (w', cl', cs')"
    by (auto split: option.splits)
  from ir have c: "chunkShape c = (ListKind, kIRModuleFourCc)" and w1: "w1 = None \<longleftrightarrow> w = None"
    by (auto simp: writeIRModule_def split: option.splits)
  from Cons.IH [OF rest] obtain n where
    n: "w' = None \<longleftrightarrow> w1 = None" "cs' = (cs @ [c]) @ n"
    "map chunkShape n = replicate (length ts) (ListKind, kIRModuleFourCc)"
    by blast
  have "cs' = cs @ (c # n)"
    using n(2) by simp
  moreover have "map chunkShape (c # n) = replicate (length (t # ts)) (ListKind, kIRModuleFourCc)"
    using c n(3) by simp
  ultimately show ?case
    using n(1) w1 by blast
qed

lemma writeModuleList_structure:
  assumes "writeModuleList W options d = Some (w, section)"
  shows "(w \<noteq> None \<longleftrightarrow> DebugInfo \<in> optionFlags options \<and> writesModuleList d options)
     \<and> (if writesModuleList d options
        then \<exists>ml. section = [ListChunk kModuleListFourCc ml]
               \<and> map chunkShape ml =
                   concat (map (moduleShape (optionFlags options)) (modules d))
                   @ (if targetComponents d \<noteq> [] \<and> IRModuleFlag \<in> optionFlags options
                      then replicate (length (targetComponents d)) (ListKind, kIRModuleFourCc)
                      else [])
        else section = [])"
proof (cases "writesModuleList d options")
  case False
  with assms show ?thesis
    by (auto simp: writeModuleList_def writesModuleList_def)
next
  case True
  let ?w0 = "if DebugInfo \<in> optionFlags options then Some [] else None :: SerialSourceLocWriter"
  from assms True obtain w1 cl1 cs1 cl2 cs2 where
    mods: "writeModules W options (?w0, False, []) (modules d) = Some (w1, cl1, cs1)" and
    tgts: "(if targetComponents d \<noteq> [] \<and> IRModuleFlag \<in> optionFlags options
            then writeTargets W options (w1, cl1, cs1) (targetComponents d)
            else Some (w1, cl1, cs1)) = Some (w, cl2, cs2)" and
    sec: "section = [ListChunk kModuleListFourCc cs2]"
    by (auto simp: writeModuleList_def writesModuleList_def Let_def split: option.splits if_splits)
  from writeModules_shape [OF mods] have
    m: "w1 = None \<longleftrightarrow> ?w0 = None"
    "map chunkShape cs1 = concat (map (moduleShape (optionFlags options)) (modules d))"
    by auto
  show ?thesis
  proof (cases "targetComponents d \<noteq> [] \<and> IRModuleFlag \<in> optionFlags options")
    case False
    with tgts have "w = w1" "cs2 = cs1" by auto
    with m sec True False show ?thesis by auto
  next
    case tg: True
    with tgts have "writeTargets W options (w1, cl1, cs1) (targetComponents d) = Some (w, cl2, cs2)"
      by simp
    from writeTargets_shape [OF this] obtain n where
      n: "w = None \<longleftrightarrow> w1 = None" "cs2 = cs1 @ n"
      "map chunkShape n = replicate (length (targetComponents d)) (ListKind, kIRModuleFourCc)"
      by blast
    have "map chunkShape cs2 = concat (map (moduleShape (optionFlags options)) (modules d))
        @ replicate (length (targetComponents d)) (ListKind, kIRModuleFourCc)"
      using m(2) n(2,3) by simp
    with n(1) m(1) sec True tg show ?thesis by auto
  qed
qed

lemma writeEntryPoints_shape:
  "map chunkShape (fst (writeEntryPoints pool es)) = replicate (length es) (DataKind, kEntryPointFourCc)"
proof (induction es arbitrary: pool)
  case Nil
  then show ?case by simp
next
  case (Cons e es)
  obtain n pool1 where a: "poolAdd pool (name e) = (n, pool1)"
    by (cases "poolAdd pool (name e)") auto
  obtain m pool2 where b: "poolAdd pool1 (mangledName e) = (m, pool2)"
    by (cases "poolAdd pool1 (mangledName e)") auto
  obtain cs pool3 where c: "writeEntryPoints pool2 es = (cs, pool3)"
    by (cases "writeEntryPoints pool2 es") auto
  from Cons.IH [of pool2] c have "map chunkShape cs = replicate (length es) (DataKind, kEntryPointFourCc)"
    by simp
  with a b c show ?case by simp
qed

text \<open>
  C2, as the code has it. A successful \<open>write\<close> gives the container List chunk holding,
  in this order: the header Data chunk; the module-list List chunk, when there is a module
  and IR or AST output is requested; one Data chunk per entry point; the debug-info List
  chunk, when the debug-info flag is set and the module-list chunk is written; the
  string-table Data chunk, when the container string pool is not empty. The module-list
  chunk holds, per module in order, the IR payload (if requested and present) then the
  AST payload (if requested and the root is a module declaration), and after the payloads
  of all modules the IR payloads of the target components, one per target, when there is
  a target and IR output is requested. The target payloads are inside the module-list
  chunk, and are written only when that chunk is.
\<close>

theorem write_layout:
  assumes "write W d options = Some c"
  shows "\<exists>moduleList eps debug strings.
      c = ListChunk kContainerFourCc
            ([DataChunk kContainerHeaderFourCc (encodeU32 (compressionType options))]
               @ moduleList @ eps @ debug @ strings)
    \<and> (if writesModuleList d options
       then \<exists>ml. moduleList = [ListChunk kModuleListFourCc ml]
              \<and> map chunkShape ml =
                  concat (map (moduleShape (optionFlags options)) (modules d))
                  @ (if targetComponents d \<noteq> [] \<and> IRModuleFlag \<in> optionFlags options
                     then replicate (length (targetComponents d)) (ListKind, kIRModuleFourCc)
                     else [])
       else moduleList = [])
    \<and> map chunkShape eps = replicate (length (entryPoints d)) (DataKind, kEntryPointFourCc)
    \<and> map chunkShape debug =
         (if DebugInfo \<in> optionFlags options \<and> writesModuleList d options
          then [(ListKind, kDebugFourCc)] else [])
    \<and> map chunkShape strings =
         (if getAdded (snd (writeEntryPoints (StringSlicePool []) (entryPoints d))) \<noteq> []
          then [(DataKind, kStringTableFourCc)] else [])"
proof -
  from assms obtain w moduleList where
    ml: "writeModuleList W options d = Some (w, moduleList)"
    by (auto simp: write_def split: option.splits)
  obtain eps pool where ep: "writeEntryPoints (StringSlicePool []) (entryPoints d) = (eps, pool)"
    by (cases "writeEntryPoints (StringSlicePool []) (entryPoints d)") auto
  from assms ml ep have c: "c = ListChunk kContainerFourCc
            ([DataChunk kContainerHeaderFourCc (encodeU32 (compressionType options))]
               @ moduleList @ eps @ writeDebugInfo W options w @ writeStringTable W pool)"
    by (simp add: write_def)
  from writeModuleList_structure [OF ml] have
    w: "w \<noteq> None \<longleftrightarrow> DebugInfo \<in> optionFlags options \<and> writesModuleList d options" and
    s: "if writesModuleList d options
       then \<exists>ml. moduleList = [ListChunk kModuleListFourCc ml]
              \<and> map chunkShape ml =
                  concat (map (moduleShape (optionFlags options)) (modules d))
                  @ (if targetComponents d \<noteq> [] \<and> IRModuleFlag \<in> optionFlags options
                     then replicate (length (targetComponents d)) (ListKind, kIRModuleFourCc)
                     else [])
       else moduleList = []"
    by blast+
  have e: "map chunkShape eps = replicate (length (entryPoints d)) (DataKind, kEntryPointFourCc)"
    using writeEntryPoints_shape [of "StringSlicePool []" "entryPoints d"] ep by simp
  have dbg: "map chunkShape (writeDebugInfo W options w) =
         (if DebugInfo \<in> optionFlags options \<and> writesModuleList d options
          then [(ListKind, kDebugFourCc)] else [])"
    using w by (cases w) (auto simp: writeDebugInfo_def)
  have str: "map chunkShape (writeStringTable W pool) =
         (if getAdded (snd (writeEntryPoints (StringSlicePool []) (entryPoints d))) \<noteq> []
          then [(DataKind, kStringTableFourCc)] else [])"
    using ep by (simp add: writeStringTable_def)
  from c s e dbg str show ?thesis
    by blast
qed

subsection \<open>Evaluating \<open>write\<close> on the sample snapshot\<close>

lemmas write_eval =
  write_def writeModuleList_def writeModuleIR_def writeModuleAST_def writeIRModule_def
  writeDebugInfo_def writeStringTable_def recordLocs_def poolAdd_def encodeEntryPoint_def
  encodeU32_def simpleWriters_def simpleIRWrite_def simpleIRWriteContainer_def
  simpleASTWrite_def simpleSourceLocWriteContainer_def simpleEncodeStringTable_def
  sampleData_def sampleModule_def sampleTarget_def sampleOptions_def

lemma sample_write:
  "write simpleWriters sampleData (sampleOptions {IRModuleFlag, ASTModuleFlag, DebugInfo}) =
     Some (ListChunk kContainerFourCc
       [DataChunk kContainerHeaderFourCc [0, 0, 0, 0],
        ListChunk kModuleListFourCc
          [ListChunk kIRModuleFourCc [DataChunk (OtherFourCC 1) [7, 0, 0, 0]],
           ListChunk kSlangASTModuleFourCC [DataChunk kSlangASTModuleDataFourCC [5]],
           ListChunk kIRModuleFourCc [DataChunk (OtherFourCC 2) [9, 0, 0, 0]]],
        DataChunk kEntryPointFourCc [1, 0, 0, 0, 3, 0, 0, 0, 2, 0, 0, 0],
        ListChunk kDebugFourCc
          [DataChunk (OtherFourCC 0) [7, 0, 0, 0], DataChunk (OtherFourCC 0) [9, 0, 0, 0]],
        DataChunk kStringTableFourCc [102, 0, 103, 0]])"
  by (simp add: write_eval)

theorem write_layout_witness:
  "write simpleWriters sampleData (sampleOptions {IRModuleFlag, ASTModuleFlag, DebugInfo}) =
     Some (ListChunk kContainerFourCc
       [DataChunk kContainerHeaderFourCc [0, 0, 0, 0],
        ListChunk kModuleListFourCc
          [ListChunk kIRModuleFourCc [DataChunk (OtherFourCC 1) [7, 0, 0, 0]],
           ListChunk kSlangASTModuleFourCC [DataChunk kSlangASTModuleDataFourCC [5]],
           ListChunk kIRModuleFourCc [DataChunk (OtherFourCC 2) [9, 0, 0, 0]]],
        DataChunk kEntryPointFourCc [1, 0, 0, 0, 3, 0, 0, 0, 2, 0, 0, 0],
        ListChunk kDebugFourCc
          [DataChunk (OtherFourCC 0) [7, 0, 0, 0], DataChunk (OtherFourCC 0) [9, 0, 0, 0]],
        DataChunk kStringTableFourCc [102, 0, 103, 0]])
   \<and> (\<exists>moduleList eps debug strings.
        [ListChunk kModuleListFourCc
          [ListChunk kIRModuleFourCc [DataChunk (OtherFourCC 1) [7, 0, 0, 0]],
           ListChunk kSlangASTModuleFourCC [DataChunk kSlangASTModuleDataFourCC [5]],
           ListChunk kIRModuleFourCc [DataChunk (OtherFourCC 2) [9, 0, 0, 0]]],
        DataChunk kEntryPointFourCc [1, 0, 0, 0, 3, 0, 0, 0, 2, 0, 0, 0],
        ListChunk kDebugFourCc
          [DataChunk (OtherFourCC 0) [7, 0, 0, 0], DataChunk (OtherFourCC 0) [9, 0, 0, 0]],
        DataChunk kStringTableFourCc [102, 0, 103, 0]] = moduleList @ eps @ debug @ strings
      \<and> (\<exists>ml. moduleList = [ListChunk kModuleListFourCc ml]
            \<and> map chunkShape ml =
                [(ListKind, kIRModuleFourCc), (ListKind, kSlangASTModuleFourCC),
                 (ListKind, kIRModuleFourCc)])
      \<and> map chunkShape eps = [(DataKind, kEntryPointFourCc)]
      \<and> map chunkShape debug = [(ListKind, kDebugFourCc)]
      \<and> map chunkShape strings = [(DataKind, kStringTableFourCc)])"
  using write_layout [OF sample_write] sample_write
  by (simp add: writesModuleList_def moduleShape_def sampleData_def sampleModule_def
      sampleTarget_def sampleOptions_def poolAdd_def)

text \<open>
  C2 as stated fails on where the target payloads go: with IR output requested, the IR
  payload of the sample's target component (instruction 2) is the second child of the
  module-list chunk, and the container chunk has no IR payload among its own children.
\<close>

theorem write_target_payload_inside_module_list:
  "write simpleWriters (sampleData\<lparr>entryPoints := []\<rparr>) (sampleOptions {IRModuleFlag}) =
     Some (ListChunk kContainerFourCc
       [DataChunk kContainerHeaderFourCc [0, 0, 0, 0],
        ListChunk kModuleListFourCc
          [ListChunk kIRModuleFourCc [DataChunk (OtherFourCC 1) [7, 0, 0, 0]],
           ListChunk kIRModuleFourCc [DataChunk (OtherFourCC 2) [9, 0, 0, 0]]]])
   \<and> findContainedList kIRModuleFourCc
       [DataChunk kContainerHeaderFourCc [0, 0, 0, 0],
        ListChunk kModuleListFourCc
          [ListChunk kIRModuleFourCc [DataChunk (OtherFourCC 1) [7, 0, 0, 0]],
           ListChunk kIRModuleFourCc [DataChunk (OtherFourCC 2) [9, 0, 0, 0]]]] = None"
  by (simp add: write_eval)

subsection \<open>When the debug-info and string-table chunks are written\<close>

lemma findContainedList_shape:
  "findContainedList tag cs \<noteq> None \<longleftrightarrow> (ListKind, tag) \<in> set (map chunkShape cs)"
proof (induction cs)
  case Nil
  then show ?case by simp
next
  case (Cons c cs)
  then show ?case by (cases c) auto
qed

lemma findContainedData_shape:
  "findContainedData tag cs \<noteq> None \<longleftrightarrow> (DataKind, tag) \<in> set (map chunkShape cs)"
proof (induction cs)
  case Nil
  then show ?case by simp
next
  case (Cons c cs)
  then show ?case by (cases c) auto
qed

lemma findContainedList_append:
  "findContainedList tag (xs @ ys) =
     (case findContainedList tag xs of Some r \<Rightarrow> Some r | None \<Rightarrow> findContainedList tag ys)"
  by (induction xs) (auto split: option.splits)

lemma findContainedList_absent:
  "(ListKind, tag) \<notin> set (map chunkShape cs) \<Longrightarrow> findContainedList tag cs = None"
  using findContainedList_shape [of tag cs] by blast

lemma findIndex_Some_nonempty: "findIndex x xs = Some i \<Longrightarrow> xs \<noteq> []"
  by (cases xs) auto

lemma poolAdd_nonempty:
  "getAdded (snd (poolAdd p s)) \<noteq> [] \<longleftrightarrow> getAdded p \<noteq> [] \<or> s \<noteq> []"
  by (auto simp: poolAdd_def dest: findIndex_Some_nonempty split: option.splits)

lemma writeEntryPoints_pool_nonempty:
  "getAdded (snd (writeEntryPoints pool es)) \<noteq> [] \<longleftrightarrow>
     getAdded pool \<noteq> [] \<or> (\<exists>e\<in>set es. name e \<noteq> [] \<or> mangledName e \<noteq> [])"
proof (induction es arbitrary: pool)
  case Nil
  then show ?case by simp
next
  case (Cons e es)
  obtain n pool1 where a: "poolAdd pool (name e) = (n, pool1)"
    by (cases "poolAdd pool (name e)") auto
  obtain m pool2 where b: "poolAdd pool1 (mangledName e) = (m, pool2)"
    by (cases "poolAdd pool1 (mangledName e)") auto
  obtain cs pool3 where c: "writeEntryPoints pool2 es = (cs, pool3)"
    by (cases "writeEntryPoints pool2 es") auto
  have "getAdded pool1 \<noteq> [] \<longleftrightarrow> getAdded pool \<noteq> [] \<or> name e \<noteq> []"
    using poolAdd_nonempty [of pool "name e"] a by simp
  moreover have "getAdded pool2 \<noteq> [] \<longleftrightarrow> getAdded pool1 \<noteq> [] \<or> mangledName e \<noteq> []"
    using poolAdd_nonempty [of pool1 "mangledName e"] b by simp
  moreover have "getAdded pool3 \<noteq> [] \<longleftrightarrow>
      getAdded pool2 \<noteq> [] \<or> (\<exists>e\<in>set es. name e \<noteq> [] \<or> mangledName e \<noteq> [])"
    using Cons.IH [of pool2] c by simp
  ultimately show ?case
    using a b c by auto
qed

lemma write_structure:
  assumes "write W d options = Some c"
  shows "\<exists>w moduleList eps pool.
      writeModuleList W options d = Some (w, moduleList)
    \<and> writeEntryPoints (StringSlicePool []) (entryPoints d) = (eps, pool)
    \<and> c = ListChunk kContainerFourCc
            ([DataChunk kContainerHeaderFourCc (encodeU32 (compressionType options))]
               @ moduleList @ eps @ writeDebugInfo W options w @ writeStringTable W pool)"
  using assms by (auto simp: write_def split: option.splits prod.splits)

text \<open>
  C8, as the code has it. In the container that a successful \<open>write\<close> gives, the
  debug-info chunk is present exactly when the debug-info flag is set and the module-list
  chunk is written (there is a module and IR or AST output is requested): that is when
  the source-location writer exists. The chunk then holds what the collaborator writes
  for the locations recorded, which may be none. The string-table chunk is present
  exactly when the container string pool is not empty, that is when some entry point has
  a non-empty name or mangled name.
\<close>

theorem write_debug_and_string_table_presence:
  assumes "write W d options = Some (ListChunk t cs)"
  shows "(findContainedList kDebugFourCc cs \<noteq> None
            \<longleftrightarrow> DebugInfo \<in> optionFlags options \<and> writesModuleList d options)
    \<and> (\<exists>w moduleList. writeModuleList W options d = Some (w, moduleList)
          \<and> findContainedList kDebugFourCc cs =
              (case w of
                 None \<Rightarrow> None
               | Some locs \<Rightarrow> Some (snd (sourceLocWriteContainer W locs (compressionType options)))))
    \<and> (findContainedData kStringTableFourCc cs \<noteq> None
            \<longleftrightarrow> getAdded (snd (writeEntryPoints (StringSlicePool []) (entryPoints d))) \<noteq> [])
    \<and> (getAdded (snd (writeEntryPoints (StringSlicePool []) (entryPoints d))) \<noteq> []
            \<longleftrightarrow> (\<exists>e\<in>set (entryPoints d). name e \<noteq> [] \<or> mangledName e \<noteq> []))"
proof -
  from write_structure [OF assms] obtain w moduleList eps pool where
    ml: "writeModuleList W options d = Some (w, moduleList)" and
    ep: "writeEntryPoints (StringSlicePool []) (entryPoints d) = (eps, pool)" and
    cs: "cs = [DataChunk kContainerHeaderFourCc (encodeU32 (compressionType options))]
               @ moduleList @ eps @ writeDebugInfo W options w @ writeStringTable W pool"
    by auto
  from writeModuleList_structure [OF ml] have
    w: "w \<noteq> None \<longleftrightarrow> DebugInfo \<in> optionFlags options \<and> writesModuleList d options" and
    mshape: "set (map chunkShape moduleList) \<subseteq> {(ListKind, kModuleListFourCc)}"
    by (auto split: if_splits)
  have eshape: "set (map chunkShape eps) \<subseteq> {(DataKind, kEntryPointFourCc)}"
    using writeEntryPoints_shape [of "StringSlicePool []" "entryPoints d"] ep by auto
  have sshape: "set (map chunkShape (writeStringTable W pool)) \<subseteq> {(DataKind, kStringTableFourCc)}"
    by (auto simp: writeStringTable_def)
  have dshape: "set (map chunkShape (writeDebugInfo W options w)) \<subseteq> {(ListKind, kDebugFourCc)}"
    by (cases w) (auto simp: writeDebugInfo_def)
  have before: "findContainedList kDebugFourCc
      ([DataChunk kContainerHeaderFourCc (encodeU32 (compressionType options))] @ moduleList @ eps) = None"
    using mshape eshape by (intro findContainedList_absent) auto
  have "findContainedList kDebugFourCc cs
      = findContainedList kDebugFourCc (writeDebugInfo W options w @ writeStringTable W pool)"
    using before unfolding cs
    by (simp add: findContainedList_append [of _ "_ # _"] findContainedList_append split: option.splits)
  also have "\<dots> = (case w of
                 None \<Rightarrow> None
               | Some locs \<Rightarrow> Some (snd (sourceLocWriteContainer W locs (compressionType options))))"
    by (cases w) (simp_all add: writeDebugInfo_def writeStringTable_def)
  finally have dbg: "findContainedList kDebugFourCc cs = (case w of
                 None \<Rightarrow> None
               | Some locs \<Rightarrow> Some (snd (sourceLocWriteContainer W locs (compressionType options))))" .
  have one: "findContainedList kDebugFourCc cs \<noteq> None
            \<longleftrightarrow> DebugInfo \<in> optionFlags options \<and> writesModuleList d options"
    using dbg w by (cases w) simp_all
  have "findContainedData kStringTableFourCc cs \<noteq> None
      \<longleftrightarrow> (DataKind, kStringTableFourCc) \<in> set (map chunkShape cs)"
    by (rule findContainedData_shape)
  also have "\<dots> \<longleftrightarrow> (DataKind, kStringTableFourCc) \<in> set (map chunkShape (writeStringTable W pool))"
    unfolding cs using mshape eshape dshape by auto
  also have "\<dots> \<longleftrightarrow> getAdded pool \<noteq> []"
    by (cases "getAdded pool = []") (simp_all add: writeStringTable_def)
  finally have three: "findContainedData kStringTableFourCc cs \<noteq> None
      \<longleftrightarrow> getAdded (snd (writeEntryPoints (StringSlicePool []) (entryPoints d))) \<noteq> []"
    using ep by simp
  have four: "getAdded (snd (writeEntryPoints (StringSlicePool []) (entryPoints d))) \<noteq> []
            \<longleftrightarrow> (\<exists>e\<in>set (entryPoints d). name e \<noteq> [] \<or> mangledName e \<noteq> [])"
    using writeEntryPoints_pool_nonempty [of "StringSlicePool []" "entryPoints d"] by simp
  from one ml dbg three four show ?thesis
    by blast
qed

theorem write_debug_and_string_table_presence_witness:
  "write simpleWriters sampleData (sampleOptions {IRModuleFlag, ASTModuleFlag, DebugInfo}) =
     Some (ListChunk kContainerFourCc
       [DataChunk kContainerHeaderFourCc [0, 0, 0, 0],
        ListChunk kModuleListFourCc
          [ListChunk kIRModuleFourCc [DataChunk (OtherFourCC 1) [7, 0, 0, 0]],
           ListChunk kSlangASTModuleFourCC [DataChunk kSlangASTModuleDataFourCC [5]],
           ListChunk kIRModuleFourCc [DataChunk (OtherFourCC 2) [9, 0, 0, 0]]],
        DataChunk kEntryPointFourCc [1, 0, 0, 0, 3, 0, 0, 0, 2, 0, 0, 0],
        ListChunk kDebugFourCc
          [DataChunk (OtherFourCC 0) [7, 0, 0, 0], DataChunk (OtherFourCC 0) [9, 0, 0, 0]],
        DataChunk kStringTableFourCc [102, 0, 103, 0]])
   \<and> DebugInfo \<in> optionFlags (sampleOptions {IRModuleFlag, ASTModuleFlag, DebugInfo})
   \<and> writesModuleList sampleData (sampleOptions {IRModuleFlag, ASTModuleFlag, DebugInfo})
   \<and> getAdded (snd (writeEntryPoints (StringSlicePool []) (entryPoints sampleData))) \<noteq> []"
  using write_debug_and_string_table_presence [OF sample_write] sample_write
  by simp

text \<open>
  C8 as stated fails for the debug-info chunk: with the debug-info flag and IR output
  requested for a module that has no IR module, the source-location writer is created,
  no location is recorded in it (the writer after the module list is \<open>Some []\<close>), and the
  debug-info chunk is written all the same.
\<close>

theorem write_debug_chunk_without_locations:
  "writeModuleList simpleWriters (sampleOptions {IRModuleFlag, DebugInfo})
       (sampleData\<lparr>modules := [sampleModule\<lparr>irModule := None\<rparr>], targetComponents := []\<rparr>)
     = Some (Some [], [ListChunk kModuleListFourCc []])
   \<and> write simpleWriters
       (sampleData\<lparr>modules := [sampleModule\<lparr>irModule := None\<rparr>], targetComponents := []\<rparr>)
       (sampleOptions {IRModuleFlag, DebugInfo})
     = Some (ListChunk kContainerFourCc
         [DataChunk kContainerHeaderFourCc [0, 0, 0, 0],
          ListChunk kModuleListFourCc [],
          DataChunk kEntryPointFourCc [1, 0, 0, 0, 3, 0, 0, 0, 2, 0, 0, 0],
          ListChunk kDebugFourCc [],
          DataChunk kStringTableFourCc [102, 0, 103, 0]])"
  by (simp add: write_eval)

subsection \<open>What \<open>requestToData\<close> reads and what it changes\<close>

lemma addModules_map:
  "addModules asserts tus out = Some out' \<Longrightarrow>
     out' = out @ map (\<lambda>tu. \<lparr>astBuilder = None, astRootNode = tu_moduleDecl tu, irModule = tu_irModule tu\<rparr>) tus"
proof (induction tus arbitrary: out)
  case Nil
  then show ?case by simp
next
  case (Cons tu tus)
  from Cons.prems have "addModules asserts tus
      (out @ [\<lparr>astBuilder = None, astRootNode = tu_moduleDecl tu, irModule = tu_irModule tu\<rparr>])
    = Some out'"
    by (simp split: if_splits)
  from Cons.IH [OF this] show ?case by simp
qed

lemma addEntryPoints_drop:
  "addEntryPoints eps ii out =
     out @ map (\<lambda>e. \<lparr>name = ep_name e, mangledName = ep_mangledName e, profile = ep_profile e\<rparr>)
             (drop ii eps)"
proof (induction eps ii out rule: addEntryPoints.induct)
  case (1 eps ii out)
  show ?case
  proof (cases "ii < length eps")
    case True
    then have "drop ii eps = eps ! ii # drop (Suc ii) eps"
      by (simp add: Cons_nth_drop_Suc)
    with True "1.IH" show ?thesis
      by (subst addEntryPoints.simps) simp
  next
    case False
    then show ?thesis
      by (subst addEntryPoints.simps) simp
  qed
qed

lemma addTargets_frame:
  "addTargets provider ts s out = (out', ts', s') \<Longrightarrow>
     map fst ts' = map fst ts
     \<and> (\<exists>new. out' = out @ new
           \<and> map tc_target new =
               map (\<lambda>(t, tp). \<lparr>t_floatingPointMode = floatingPointMode t, t_profile = targetProfile t,
                              t_flags = targetFlags t, t_codeGenTarget = target t\<rparr>) ts
           \<and> list_all2 (\<lambda>(t, tp) c. \<exists>s0. tc_irModule c = fst (provider tp s0)) ts new)"
proof (induction ts arbitrary: s out out' ts' s')
  case Nil
  then show ?case by simp
next
  case (Cons a ts)
  obtain t tp where a: "a = (t, tp)" by (cases a) auto
  obtain ir tp1 s1 where p: "provider tp s = (ir, tp1, s1)"
    by (cases "provider tp s") auto
  let ?c = "\<lparr>tc_target =
                           \<lparr>t_floatingPointMode = floatingPointMode t, t_profile = targetProfile t,
                            t_flags = targetFlags t, t_codeGenTarget = target t\<rparr>,
                         tc_irModule = ir\<rparr>"
  obtain o2 ts2 s2 where r: "addTargets provider ts s1 (out @ [?c]) = (o2, ts2, s2)"
    by (cases "addTargets provider ts s1 (out @ [?c])") auto
  from Cons.prems a p r have res: "out' = o2" "ts' = (t, tp1) # ts2" "s' = s2"
    by simp_all
  from Cons.IH [OF r] obtain new where
    n: "map fst ts2 = map fst ts" "o2 = (out @ [?c]) @ new"
    "map tc_target new =
               map (\<lambda>(t, tp). \<lparr>t_floatingPointMode = floatingPointMode t, t_profile = targetProfile t,
                              t_flags = targetFlags t, t_codeGenTarget = target t\<rparr>) ts"
    "list_all2 (\<lambda>(t, tp) c. \<exists>s0. tc_irModule c = fst (provider tp s0)) ts new"
    by blast
  have "tc_irModule ?c = fst (provider tp s)"
    using p by simp
  then have "list_all2 (\<lambda>(t, tp) c. \<exists>s0. tc_irModule c = fst (provider tp s0)) (a # ts) (?c # new)"
    using n(4) a by auto
  moreover have "out' = out @ (?c # new)"
    using res n(2) by simp
  moreover have "map tc_target (?c # new) =
               map (\<lambda>(t, tp). \<lparr>t_floatingPointMode = floatingPointMode t, t_profile = targetProfile t,
                              t_flags = targetFlags t, t_codeGenTarget = target t\<rparr>) (a # ts)"
    using n(3) a by simp
  moreover have "map fst ts' = map fst (a # ts)"
    using res n(1) a by simp
  ultimately show ?case by blast
qed

lemma addTargets_pure:
  assumes "\<forall>(t, tp)\<in>set ts. \<forall>s0. snd (provider tp s0) = (tp, s0)"
    and "addTargets provider ts s out = (out', ts', s')"
  shows "ts' = ts \<and> s' = s"
  using assms
proof (induction ts arbitrary: s out out' ts' s')
  case Nil
  then show ?case by simp
next
  case (Cons a ts)
  obtain t tp where a: "a = (t, tp)" by (cases a) auto
  from Cons.prems(1) a have pure: "snd (provider tp s) = (tp, s)"
    by auto
  then obtain ir where p: "provider tp s = (ir, tp, s)"
    by (cases "provider tp s") auto
  let ?c = "\<lparr>tc_target =
                           \<lparr>t_floatingPointMode = floatingPointMode t, t_profile = targetProfile t,
                            t_flags = targetFlags t, t_codeGenTarget = target t\<rparr>,
                         tc_irModule = ir\<rparr>"
  obtain o2 ts2 s2 where r: "addTargets provider ts s (out @ [?c]) = (o2, ts2, s2)"
    by (cases "addTargets provider ts s (out @ [?c])") auto
  from Cons.prems(1) have "\<forall>(t, tp)\<in>set ts. \<forall>s0. snd (provider tp s0) = (tp, s0)"
    by auto
  from Cons.IH [OF this r] have "ts2 = ts" "s2 = s" by simp_all
  with Cons.prems(2) a p r show ?case by simp
qed

text \<open>
  C9, as the code has it. \<open>requestToData\<close> leaves the translation units, the targets and
  the entry points of the compile request as they are, and writes the output snapshot.
  The target programs and the diagnostic sink are handed to
  \<open>getOrCreateIRModuleForLayout\<close> (line 55): the request changes only as far as that
  operation changes them, and when it leaves every target program and the sink alone
  the request after the call is the request before it.
\<close>

theorem requestToData_frame:
  assumes "requestToData provider asserts request = Some (r, out, request')"
  shows "translationUnits request' = translationUnits request
    \<and> map fst (targets request') = map fst (targets request)
    \<and> programEntryPoints request' = programEntryPoints request
    \<and> ((\<forall>(t, tp)\<in>set (targets request). \<forall>s0. snd (provider tp s0) = (tp, s0))
         \<longrightarrow> request' = request)"
proof -
  from assms obtain ms tcs targets' sink' where
    tg: "addTargets provider (targets request) (sink request) [] = (tcs, targets', sink')" and
    req: "request' = request\<lparr>targets := targets', sink := sink'\<rparr>"
    by (auto simp: requestToData_def split: option.splits prod.splits)
  from addTargets_frame [OF tg] have "map fst targets' = map fst (targets request)"
    by blast
  moreover have "(\<forall>(t, tp)\<in>set (targets request). \<forall>s0. snd (provider tp s0) = (tp, s0))
         \<longrightarrow> request' = request"
  proof
    assume "\<forall>(t, tp)\<in>set (targets request). \<forall>s0. snd (provider tp s0) = (tp, s0)"
    from addTargets_pure [OF this tg] req show "request' = request"
      by simp
  qed
  ultimately show ?thesis
    using req by simp
qed

lemmas request_eval =
  requestToData_def sampleRequest_def sampleTargetRequest_def cachingProvider_def
  addEntryPoints.simps

theorem requestToData_frame_witness:
  "requestToData cachingProvider True
       (sampleRequest\<lparr>targets := [(sampleTargetRequest, \<lparr>tp_irModuleForLayout = Some (IRModule [])\<rparr>)]\<rparr>)
     = Some (SLANG_OK,
         \<lparr>modules = [\<lparr>astBuilder = None, astRootNode = Some (ModuleDecl 5), irModule = None\<rparr>],
          targetComponents =
            [\<lparr>tc_target = \<lparr>t_floatingPointMode = 1, t_profile = 2, t_flags = 3, t_codeGenTarget = 4\<rparr>,
              tc_irModule = Some (IRModule [])\<rparr>],
          entryPoints = [\<lparr>name = ''f'', mangledName = ''g'', profile = 3\<rparr>]\<rparr>,
         sampleRequest\<lparr>targets := [(sampleTargetRequest, \<lparr>tp_irModuleForLayout = Some (IRModule [])\<rparr>)]\<rparr>)"
proof -
  let ?req = "sampleRequest\<lparr>targets := [(sampleTargetRequest, \<lparr>tp_irModuleForLayout = Some (IRModule [])\<rparr>)]\<rparr>"
  let ?out = "\<lparr>modules = [\<lparr>astBuilder = None, astRootNode = Some (ModuleDecl 5), irModule = None\<rparr>],
          targetComponents =
            [\<lparr>tc_target = \<lparr>t_floatingPointMode = 1, t_profile = 2, t_flags = 3, t_codeGenTarget = 4\<rparr>,
              tc_irModule = Some (IRModule [])\<rparr>],
          entryPoints = [\<lparr>name = ''f'', mangledName = ''g'', profile = 3\<rparr>]\<rparr>"
  obtain r out req' where ev: "requestToData cachingProvider True ?req = Some (r, out, req')"
    by (simp add: request_eval)
  have pure: "\<forall>(t, tp)\<in>set (targets ?req). \<forall>s0. snd (cachingProvider tp s0) = (tp, s0)"
    by (simp add: cachingProvider_def)
  from requestToData_frame [OF ev] pure have same: "req' = ?req"
    by blast
  from ev have "r = SLANG_OK" and "out = ?out"
    by (simp_all add: request_eval)
  with ev same show ?thesis
    by simp
qed

text \<open>
  C9 as stated fails when the operation of line 55 creates what it is asked for: for a
  target program that has no layout IR module yet, the request after the call holds the
  module that the call created, and differs from the request before it.
\<close>

theorem requestToData_creates_layout_ir:
  "requestToData cachingProvider True sampleRequest =
     Some (SLANG_OK,
       \<lparr>modules = [\<lparr>astBuilder = None, astRootNode = Some (ModuleDecl 5), irModule = None\<rparr>],
        targetComponents =
          [\<lparr>tc_target = \<lparr>t_floatingPointMode = 1, t_profile = 2, t_flags = 3, t_codeGenTarget = 4\<rparr>,
            tc_irModule = Some (IRModule [])\<rparr>],
        entryPoints = [\<lparr>name = ''f'', mangledName = ''g'', profile = 3\<rparr>]\<rparr>,
       sampleRequest\<lparr>targets := [(sampleTargetRequest, \<lparr>tp_irModuleForLayout = Some (IRModule [])\<rparr>)]\<rparr>)
   \<and> sampleRequest\<lparr>targets := [(sampleTargetRequest, \<lparr>tp_irModuleForLayout = Some (IRModule [])\<rparr>)]\<rparr>
       \<noteq> sampleRequest"
  by (simp add: request_eval)

subsection \<open>What a successful round-trip verification establishes\<close>

lemma assertFail_not_OK [simp]: "assertFail asserts \<noteq> Some SLANG_OK"
  by (simp add: assertFail_def)

lemma checkRawLocs_OK:
  "checkRawLocs asserts ps = Some SLANG_OK \<Longrightarrow> (origPtr, readPtr) \<in> set ps \<Longrightarrow>
     \<exists>origInst readInst. origPtr = Some origInst \<and> readPtr = Some readInst
        \<and> sourceLoc readInst = sourceLoc origInst"
  by (induction asserts ps rule: checkRawLocs.induct) (auto split: if_splits)

lemma checkDebugLocs_Cons_OK:
  "checkDebugLocs V asserts origMgr workMgr ((Some origInst, Some readInst) # rest) = Some SLANG_OK
     \<Longrightarrow> locationsAgree V origMgr workMgr origInst readInst
         \<and> checkDebugLocs V asserts origMgr workMgr rest = Some SLANG_OK"
  by (auto simp: locationsAgree_def Let_def split: if_splits option.splits)

lemma checkDebugLocs_OK:
  "checkDebugLocs V asserts origMgr workMgr ps = Some SLANG_OK \<Longrightarrow> (origPtr, readPtr) \<in> set ps \<Longrightarrow>
     \<exists>origInst readInst. origPtr = Some origInst \<and> readPtr = Some readInst
        \<and> locationsAgree V origMgr workMgr origInst readInst"
proof (induction ps)
  case Nil
  then show ?case by simp
next
  case (Cons p ps)
  obtain a b where p: "p = (a, b)" by (cases p) auto
  show ?case
  proof (cases a)
    case None
    with Cons.prems(1) p show ?thesis by simp
  next
    case sa: (Some origInst)
    show ?thesis
    proof (cases b)
      case None
      with Cons.prems(1) p sa show ?thesis by simp
    next
      case sb: (Some readInst)
      from Cons.prems(1) p sa sb
      have "checkDebugLocs V asserts origMgr workMgr ((Some origInst, Some readInst) # ps) = Some SLANG_OK"
        by simp
      from checkDebugLocs_Cons_OK [OF this] have
        here: "locationsAgree V origMgr workMgr origInst readInst" and
        rest: "checkDebugLocs V asserts origMgr workMgr ps = Some SLANG_OK"
        by simp_all
      from Cons.prems(2) p sa sb have
        "(origPtr, readPtr) = (Some origInst, Some readInst) \<or> (origPtr, readPtr) \<in> set ps"
        by simp
      then show ?thesis
      proof
        assume "(origPtr, readPtr) = (Some origInst, Some readInst)"
        with here show ?thesis by simp
      next
        assume "(origPtr, readPtr) \<in> set ps"
        with Cons.IH [OF rest] show ?thesis by simp
      qed
    qed
  qed
qed

lemma nth_pair_in_zip_tail:
  assumes "length ys = length xs" and "0 < i" and "i < length xs"
  shows "(xs ! i, ys ! i) \<in> set (zip (drop 1 xs) (drop 1 ys))"
proof -
  from assms obtain j where j: "i = Suc j" by (cases i) auto
  with assms have "j < length (zip (drop 1 xs) (drop 1 ys))" by simp
  then have "zip (drop 1 xs) (drop 1 ys) ! j \<in> set (zip (drop 1 xs) (drop 1 ys))"
    by (rule nth_mem)
  moreover from assms j have "zip (drop 1 xs) (drop 1 ys) ! j = (xs ! i, ys ! i)"
    by simp
  ultimately show ?thesis by simp
qed

lemma locationsAgree_resolved:
  assumes "locationsAgree V origMgr workMgr origInst readInst"
  shows "sourceLoc readInst = sourceLoc origInst
     \<or> resolvedLoc V workMgr (sourceLoc readInst) = resolvedLoc V origMgr (sourceLoc origInst)"
proof -
  from assms have "sourceLoc origInst = sourceLoc readInst
     \<or> (findSourceView V origMgr (sourceLoc origInst) = None
        \<and> findSourceView V workMgr (sourceLoc readInst) = None)
     \<or> (\<exists>origSourceView readSourceView.
           findSourceView V origMgr (sourceLoc origInst) = Some origSourceView
         \<and> findSourceView V workMgr (sourceLoc readInst) = Some readSourceView
         \<and> sourceLoc origInst - viewBegin origSourceView
             = sourceLoc readInst - viewBegin readSourceView
         \<and> line (getHumaneLoc V origSourceView (sourceLoc origInst))
             = line (getHumaneLoc V readSourceView (sourceLoc readInst))
         \<and> column (getHumaneLoc V origSourceView (sourceLoc origInst))
             = column (getHumaneLoc V readSourceView (sourceLoc readInst))
         \<and> foundPath (getHumaneLoc V origSourceView (sourceLoc origInst))
             = foundPath (getHumaneLoc V readSourceView (sourceLoc readInst)))"
    by (simp add: locationsAgree_def)
  then show ?thesis
  proof (elim disjE conjE exE)
    assume "sourceLoc origInst = sourceLoc readInst"
    then show ?thesis by simp
  next
    assume "findSourceView V origMgr (sourceLoc origInst) = None"
      and "findSourceView V workMgr (sourceLoc readInst) = None"
    then show ?thesis by (simp add: resolvedLoc_def)
  next
    fix origView readView
    assume "findSourceView V origMgr (sourceLoc origInst) = Some origView"
      and "findSourceView V workMgr (sourceLoc readInst) = Some readView"
      and "line (getHumaneLoc V origView (sourceLoc origInst))
             = line (getHumaneLoc V readView (sourceLoc readInst))"
      and "column (getHumaneLoc V origView (sourceLoc origInst))
             = column (getHumaneLoc V readView (sourceLoc readInst))"
      and "foundPath (getHumaneLoc V origView (sourceLoc origInst))
             = foundPath (getHumaneLoc V readView (sourceLoc readInst))"
    then show ?thesis by (simp add: resolvedLoc_def)
  qed
qed

lemma compareInsts_OK:
  assumes "compareInsts V asserts options workMgr originalInsts readInsts = Some SLANG_OK"
  shows "length readInsts = length originalInsts
    \<and> (RawSourceLocation \<in> optionFlags options \<longrightarrow>
         (\<forall>i. 0 < i \<and> i < length originalInsts \<longrightarrow>
            (\<exists>origInst readInst. originalInsts ! i = Some origInst \<and> readInsts ! i = Some readInst
               \<and> sourceLoc readInst = sourceLoc origInst)))
    \<and> (DebugInfo \<in> optionFlags options \<and> RawSourceLocation \<notin> optionFlags options \<longrightarrow>
         (\<forall>i. 0 < i \<and> i < length originalInsts \<longrightarrow>
            (\<exists>origInst readInst. originalInsts ! i = Some origInst \<and> readInsts ! i = Some readInst
               \<and> locationsAgree V (wo_sourceManager options) workMgr origInst readInst)))"
proof -
  from assms have len: "length readInsts = length originalInsts"
    by (auto simp: compareInsts_def split: if_splits)
  have raw: "\<exists>origInst readInst. originalInsts ! i = Some origInst \<and> readInsts ! i = Some readInst
               \<and> sourceLoc readInst = sourceLoc origInst"
    if "RawSourceLocation \<in> optionFlags options" and "0 < i" and "i < length originalInsts" for i
  proof -
    from assms len that(1)
    have "checkRawLocs asserts (zip (drop 1 originalInsts) (drop 1 readInsts)) = Some SLANG_OK"
      by (auto simp: compareInsts_def split: if_splits)
    from checkRawLocs_OK [OF this nth_pair_in_zip_tail [OF len that(2,3)]] show ?thesis .
  qed
  have dbg: "\<exists>origInst readInst. originalInsts ! i = Some origInst \<and> readInsts ! i = Some readInst
               \<and> locationsAgree V (wo_sourceManager options) workMgr origInst readInst"
    if "DebugInfo \<in> optionFlags options" and "RawSourceLocation \<notin> optionFlags options"
      and "0 < i" and "i < length originalInsts" for i
  proof -
    from assms len that(1,2)
    have "checkDebugLocs V asserts (wo_sourceManager options) workMgr
            (zip (drop 1 originalInsts) (drop 1 readInsts)) = Some SLANG_OK"
      by (auto simp: compareInsts_def split: if_splits)
    from checkDebugLocs_OK [OF this nth_pair_in_zip_tail [OF len that(3,4)]] show ?thesis .
  qed
  from len raw dbg show ?thesis
    by blast
qed

lemma verifyRead_cases:
  assumes "verifyRead R V asserts options irData stream = Some res"
  shows "res = Inl SLANG_FAIL
    \<or> (\<exists>rootList sourceLocReader workMgr irReadModule.
          res = Inr (irReadModule, workMgr)
        \<and> riffRead V stream = Some rootList
        \<and> verifyReadDebug R options (initializeSourceManager V (wo_sourceManager options)) rootList
            = Some (sourceLocReader, workMgr)
        \<and> verifyReadData R options rootList = Some irData
        \<and> irRead R irData sourceLocReader = Some irReadModule)"
proof (cases "riffRead V stream")
  case None
  with assms show ?thesis by (simp add: verifyRead_def)
next
  case (Some rootList)
  note rr = this
  show ?thesis
  proof (cases "verifyReadDebug R options (initializeSourceManager V (wo_sourceManager options)) rootList")
    case None
    with assms rr show ?thesis by (simp add: verifyRead_def)
  next
    case (Some dbg)
    obtain sourceLocReader workMgr where dbg: "dbg = (sourceLocReader, workMgr)"
      by (cases dbg) auto
    note rd = Some [unfolded dbg]
    show ?thesis
    proof (cases "verifyReadData R options rootList")
      case None
      with assms rr rd show ?thesis by (simp add: verifyRead_def)
    next
      case (Some irReadData)
      note eq = this
      show ?thesis
      proof (cases "irData = irReadData")
        case False
        with assms rr rd eq have "res = Inl SLANG_FAIL"
          by (cases asserts) (simp_all add: verifyRead_def assertFail_def)
        then show ?thesis by simp
      next
        case True
        show ?thesis
        proof (cases "irRead R irData sourceLocReader")
          case None
          with assms rr rd eq True show ?thesis by (simp add: verifyRead_def)
        next
          case (Some irReadModule)
          with assms rr rd eq True have "res = Inr (irReadModule, workMgr)"
            by (simp add: verifyRead_def)
          with rr rd eq True Some show ?thesis by simp
        qed
      qed
    qed
  qed
qed

text \<open>
  C1. When \<open>verifyIRSerialize\<close> returns the success code: the IR payload read back from
  the stream equals the payload written; the module re-read has as many entries in its
  flattened instruction list as the original; with the raw-source-location flag, every
  instruction (every entry from index 1 on; entry 0 is the reserved null entry that line
  487 asserts to be shared) has the raw source location of the original; with the
  debug-info flag and without the raw flag, every instruction agrees with the original in
  the way lines 509 to 544 accept (the same raw location, or no source view on either
  side, or the same offset, line, column and found path), so that it has the raw location
  of the original, which line 509 accepts without resolving either side, or its
  resolved line, column and found path in the work source manager are those of the
  original in the original source manager. Any mismatch in what is compared therefore
  makes the call not succeed: it returns the failing code or, with assertions compiled
  in, stops at the assertion.
\<close>

theorem verifyIRSerialize_success:
  assumes "verifyIRSerialize W R V asserts module options = Some SLANG_OK"
  shows "\<exists>irData stream rootList sourceLocReader workMgr irReadModule.
      verifyWrite W V module options = Some (irData, stream)
    \<and> riffRead V stream = Some rootList
    \<and> verifyReadData R options rootList = Some irData
    \<and> verifyReadDebug R options (initializeSourceManager V (wo_sourceManager options)) rootList
        = Some (sourceLocReader, workMgr)
    \<and> irRead R irData sourceLocReader = Some irReadModule
    \<and> length (calcInstructionList V irReadModule) = length (calcInstructionList V module)
    \<and> (RawSourceLocation \<in> optionFlags options \<longrightarrow>
         (\<forall>i. 0 < i \<and> i < length (calcInstructionList V module) \<longrightarrow>
            (\<exists>origInst readInst.
                 calcInstructionList V module ! i = Some origInst
               \<and> calcInstructionList V irReadModule ! i = Some readInst
               \<and> sourceLoc readInst = sourceLoc origInst)))
    \<and> (DebugInfo \<in> optionFlags options \<and> RawSourceLocation \<notin> optionFlags options \<longrightarrow>
         (\<forall>i. 0 < i \<and> i < length (calcInstructionList V module) \<longrightarrow>
            (\<exists>origInst readInst.
                 calcInstructionList V module ! i = Some origInst
               \<and> calcInstructionList V irReadModule ! i = Some readInst
               \<and> locationsAgree V (wo_sourceManager options) workMgr origInst readInst
               \<and> (sourceLoc readInst = sourceLoc origInst
                   \<or> resolvedLoc V workMgr (sourceLoc readInst)
                     = resolvedLoc V (wo_sourceManager options) (sourceLoc origInst)))))"
proof -
  from assms obtain irData stream where
    w: "verifyWrite W V module options = Some (irData, stream)"
    by (cases "verifyWrite W V module options") (auto simp: verifyIRSerialize_def)
  from assms w obtain res where
    r: "verifyRead R V asserts options irData stream = Some res"
    by (cases "verifyRead R V asserts options irData stream") (auto simp: verifyIRSerialize_def)
  from verifyRead_cases [OF r] have "\<exists>rootList sourceLocReader workMgr irReadModule.
          res = Inr (irReadModule, workMgr)
        \<and> riffRead V stream = Some rootList
        \<and> verifyReadDebug R options (initializeSourceManager V (wo_sourceManager options)) rootList
            = Some (sourceLocReader, workMgr)
        \<and> verifyReadData R options rootList = Some irData
        \<and> irRead R irData sourceLocReader = Some irReadModule"
  proof
    assume "res = Inl SLANG_FAIL"
    with assms w r have False by (simp add: verifyIRSerialize_def)
    then show ?thesis ..
  qed
  then obtain rootList sourceLocReader workMgr irReadModule where
    res: "res = Inr (irReadModule, workMgr)" and
    rr: "riffRead V stream = Some rootList" and
    rd: "verifyReadDebug R options (initializeSourceManager V (wo_sourceManager options)) rootList
        = Some (sourceLocReader, workMgr)" and
    eq: "verifyReadData R options rootList = Some irData" and
    ir: "irRead R irData sourceLocReader = Some irReadModule"
    by blast
  from assms w r res have
    c: "compareInsts V asserts options workMgr (calcInstructionList V module)
          (calcInstructionList V irReadModule) = Some SLANG_OK"
    by (simp add: verifyIRSerialize_def)
  note cmp = compareInsts_OK [OF c]
  from cmp have len: "length (calcInstructionList V irReadModule) = length (calcInstructionList V module)"
    by simp
  from cmp have raw: "RawSourceLocation \<in> optionFlags options \<longrightarrow>
         (\<forall>i. 0 < i \<and> i < length (calcInstructionList V module) \<longrightarrow>
            (\<exists>origInst readInst.
                 calcInstructionList V module ! i = Some origInst
               \<and> calcInstructionList V irReadModule ! i = Some readInst
               \<and> sourceLoc readInst = sourceLoc origInst))"
    by simp
  have dbg: "DebugInfo \<in> optionFlags options \<and> RawSourceLocation \<notin> optionFlags options \<longrightarrow>
         (\<forall>i. 0 < i \<and> i < length (calcInstructionList V module) \<longrightarrow>
            (\<exists>origInst readInst.
                 calcInstructionList V module ! i = Some origInst
               \<and> calcInstructionList V irReadModule ! i = Some readInst
               \<and> locationsAgree V (wo_sourceManager options) workMgr origInst readInst
               \<and> (sourceLoc readInst = sourceLoc origInst
                   \<or> resolvedLoc V workMgr (sourceLoc readInst)
                     = resolvedLoc V (wo_sourceManager options) (sourceLoc origInst))))"
  proof (intro impI allI)
    fix i
    assume f: "DebugInfo \<in> optionFlags options \<and> RawSourceLocation \<notin> optionFlags options"
      and i: "0 < i \<and> i < length (calcInstructionList V module)"
    from cmp f i obtain origInst readInst where
      a: "calcInstructionList V module ! i = Some origInst"
         "calcInstructionList V irReadModule ! i = Some readInst"
         "locationsAgree V (wo_sourceManager options) workMgr origInst readInst"
      by blast
    from locationsAgree_resolved [OF a(3)]
    have "sourceLoc readInst = sourceLoc origInst
            \<or> resolvedLoc V workMgr (sourceLoc readInst)
                 = resolvedLoc V (wo_sourceManager options) (sourceLoc origInst)" .
    with a show "\<exists>origInst readInst.
                 calcInstructionList V module ! i = Some origInst
               \<and> calcInstructionList V irReadModule ! i = Some readInst
               \<and> locationsAgree V (wo_sourceManager options) workMgr origInst readInst
               \<and> (sourceLoc readInst = sourceLoc origInst
                   \<or> resolvedLoc V workMgr (sourceLoc readInst)
                     = resolvedLoc V (wo_sourceManager options) (sourceLoc origInst))"
      by simp
  qed
  show ?thesis
    by (intro exI [of _ irData] exI [of _ "stream"] exI [of _ rootList] exI [of _ sourceLocReader]
        exI [of _ workMgr] exI [of _ irReadModule] conjI w rr eq rd ir len raw dbg)
qed

lemmas verify_eval =
  verifyIRSerialize_def verifyWrite_def verifyRead_def verifyReadDebug_def verifyReadData_def
  compareInsts_def assertFail_def slotZeroShared_def recordLocs_def
  simpleVerifyEnv_def relocatingReaders_def relocatingIRRead_def simpleReaders_def
  simpleWriters_def simpleIRWrite_def simpleIRWriteContainer_def simpleSourceLocWriteContainer_def
  sampleIRModule_def verifyOptions_def sampleSourceManager_def encodeU32_def

lemma sample_verifyWrite:
  "verifyWrite simpleWriters simpleVerifyEnv sampleIRModule (verifyOptions {DebugInfo}) =
     Some ([(3, 7, []), (4, 9, [])],
       ListChunk kContainerFourCc
         [ListChunk kIRModuleFourCc
            [DataChunk (OtherFourCC 3) [7, 0, 0, 0], DataChunk (OtherFourCC 4) [9, 0, 0, 0]],
          ListChunk kDebugFourCc
            [DataChunk (OtherFourCC 0) [7, 0, 0, 0], DataChunk (OtherFourCC 0) [9, 0, 0, 0]]])"
  by (simp add: verify_eval)


lemma sample_verifyRead:
  "verifyRead relocatingReaders simpleVerifyEnv True (verifyOptions {DebugInfo})
     [(3, 7, []), (4, 9, [])]
     (ListChunk kContainerFourCc
         [ListChunk kIRModuleFourCc
            [DataChunk (OtherFourCC 3) [7, 0, 0, 0], DataChunk (OtherFourCC 4) [9, 0, 0, 0]],
          ListChunk kDebugFourCc
            [DataChunk (OtherFourCC 0) [7, 0, 0, 0], DataChunk (OtherFourCC 0) [9, 0, 0, 0]]])
   = Some (Inr (IRModule [\<lparr>instId = 3, sourceLoc = 107\<rparr>, \<lparr>instId = 4, sourceLoc = 109\<rparr>],
        SourceManager
         [\<lparr>viewBegin = 0, viewEnd = 50, viewPath = ''a.slang''\<rparr>,
          \<lparr>viewBegin = 100, viewEnd = 150, viewPath = ''a.slang''\<rparr>]))"
  by (simp add: verify_eval)


lemma sample_compareInsts:
  "compareInsts simpleVerifyEnv True (verifyOptions {DebugInfo})
     (SourceManager
         [\<lparr>viewBegin = 0, viewEnd = 50, viewPath = ''a.slang''\<rparr>,
          \<lparr>viewBegin = 100, viewEnd = 150, viewPath = ''a.slang''\<rparr>])
     (calcInstructionList simpleVerifyEnv sampleIRModule)
     (calcInstructionList simpleVerifyEnv
        (IRModule [\<lparr>instId = 3, sourceLoc = 107\<rparr>, \<lparr>instId = 4, sourceLoc = 109\<rparr>]))
   = Some SLANG_OK"
  by (simp add: verify_eval)


lemma sample_verify:
  "verifyIRSerialize simpleWriters relocatingReaders simpleVerifyEnv True sampleIRModule
     (verifyOptions {DebugInfo}) = Some SLANG_OK"
  using sample_compareInsts
  by (simp add: verifyIRSerialize_def sample_verifyWrite sample_verifyRead)

theorem verifyIRSerialize_success_witness:
  "verifyIRSerialize simpleWriters relocatingReaders simpleVerifyEnv True sampleIRModule
     (verifyOptions {DebugInfo}) = Some SLANG_OK
   \<and> resolvedLoc simpleVerifyEnv
       (SourceManager
         [\<lparr>viewBegin = 0, viewEnd = 50, viewPath = ''a.slang''\<rparr>,
          \<lparr>viewBegin = 100, viewEnd = 150, viewPath = ''a.slang''\<rparr>]) 107
     = resolvedLoc simpleVerifyEnv sampleSourceManager 7"
proof -
  let ?options = "verifyOptions {DebugInfo}"
  let ?work = "SourceManager
         [\<lparr>viewBegin = 0, viewEnd = 50, viewPath = ''a.slang''\<rparr>,
          \<lparr>viewBegin = 100, viewEnd = 150, viewPath = ''a.slang''\<rparr>]"
  let ?read = "IRModule [\<lparr>instId = 3, sourceLoc = 107\<rparr>, \<lparr>instId = 4, sourceLoc = 109\<rparr>]"
  from verifyIRSerialize_success [OF sample_verify]
  obtain irData stream rootList sourceLocReader workMgr irReadModule where
    w: "verifyWrite simpleWriters simpleVerifyEnv sampleIRModule ?options = Some (irData, stream)" and
    rr: "riffRead simpleVerifyEnv stream = Some rootList" and
    rd: "verifyReadDebug relocatingReaders ?options
           (initializeSourceManager simpleVerifyEnv (wo_sourceManager ?options)) rootList
         = Some (sourceLocReader, workMgr)" and
    ir: "irRead relocatingReaders irData sourceLocReader = Some irReadModule" and
    dbg: "DebugInfo \<in> optionFlags ?options \<and> RawSourceLocation \<notin> optionFlags ?options \<longrightarrow>
         (\<forall>i. 0 < i \<and> i < length (calcInstructionList simpleVerifyEnv sampleIRModule) \<longrightarrow>
            (\<exists>origInst readInst.
                 calcInstructionList simpleVerifyEnv sampleIRModule ! i = Some origInst
               \<and> calcInstructionList simpleVerifyEnv irReadModule ! i = Some readInst
               \<and> locationsAgree simpleVerifyEnv (wo_sourceManager ?options) workMgr origInst readInst
               \<and> (sourceLoc readInst = sourceLoc origInst
                   \<or> resolvedLoc simpleVerifyEnv workMgr (sourceLoc readInst)
                     = resolvedLoc simpleVerifyEnv (wo_sourceManager ?options) (sourceLoc origInst))))"
    by blast
  from w have irData: "irData = [(3, 7, []), (4, 9, [])]" and
    stream: "stream = ListChunk kContainerFourCc
         [ListChunk kIRModuleFourCc
            [DataChunk (OtherFourCC 3) [7, 0, 0, 0], DataChunk (OtherFourCC 4) [9, 0, 0, 0]],
          ListChunk kDebugFourCc
            [DataChunk (OtherFourCC 0) [7, 0, 0, 0], DataChunk (OtherFourCC 0) [9, 0, 0, 0]]]"
    by (simp_all add: sample_verifyWrite)
  from rr stream have rootList: "rootList =
         [ListChunk kIRModuleFourCc
            [DataChunk (OtherFourCC 3) [7, 0, 0, 0], DataChunk (OtherFourCC 4) [9, 0, 0, 0]],
          ListChunk kDebugFourCc
            [DataChunk (OtherFourCC 0) [7, 0, 0, 0], DataChunk (OtherFourCC 0) [9, 0, 0, 0]]]"
    by (simp add: simpleVerifyEnv_def)
  from rd rootList have work: "workMgr = ?work" and lr: "sourceLocReader = Some (SerialSourceLocReader [])"
    by (auto simp: verify_eval)
  from ir irData lr have read: "irReadModule = ?read"
    by (simp add: verify_eval)
  have flags: "DebugInfo \<in> optionFlags ?options \<and> RawSourceLocation \<notin> optionFlags ?options"
    by (simp add: verifyOptions_def)
  have one: "0 < (1::nat) \<and> 1 < length (calcInstructionList simpleVerifyEnv sampleIRModule)"
    by (simp add: simpleVerifyEnv_def sampleIRModule_def)
  from dbg flags one obtain origInst readInst where
    o: "calcInstructionList simpleVerifyEnv sampleIRModule ! 1 = Some origInst" and
    r: "calcInstructionList simpleVerifyEnv irReadModule ! 1 = Some readInst" and
    alt: "sourceLoc readInst = sourceLoc origInst
            \<or> resolvedLoc simpleVerifyEnv workMgr (sourceLoc readInst)
                 = resolvedLoc simpleVerifyEnv (wo_sourceManager ?options) (sourceLoc origInst)"
    by blast
  from o have origInst: "sourceLoc origInst = 7"
    by (auto simp: simpleVerifyEnv_def sampleIRModule_def)
  from r read have readInst: "sourceLoc readInst = 107"
    by (auto simp: simpleVerifyEnv_def)
  have mgr: "wo_sourceManager ?options = sampleSourceManager"
    by (simp add: verifyOptions_def)
  from alt have "resolvedLoc simpleVerifyEnv ?work 107
      = resolvedLoc simpleVerifyEnv sampleSourceManager 7"
    unfolding origInst readInst work mgr by simp
  with sample_verify show ?thesis
    by simp
qed

text \<open>
  C1 as it is stated fails: with the debug-info flag and without the raw flag,
  \<open>verifyIRSerialize\<close> succeeds on a module whose first instruction is re-read with the
  raw location 7 of the original, although that location resolves to nothing in the work
  source manager and to line 1, column 8 of \<open>a.slang\<close> in the original one. Line 509
  accepts the equal raw locations before anything is resolved.
\<close>

theorem verifyIRSerialize_succeeds_on_unresolved_location:
  "verifyIRSerialize simpleWriters simpleReaders freshVerifyEnv True
     (IRModule [\<lparr>instId = 3, sourceLoc = 7\<rparr>, \<lparr>instId = 4, sourceLoc = 9\<rparr>])
     \<lparr>compressionType = 0, optionFlags = {DebugInfo},
      wo_sourceManager = SourceManager [\<lparr>viewBegin = 0, viewEnd = 50, viewPath = ''a.slang''\<rparr>]\<rparr>
     = Some SLANG_OK
   \<and> verifyRead simpleReaders freshVerifyEnv True
       \<lparr>compressionType = 0, optionFlags = {DebugInfo},
        wo_sourceManager = SourceManager [\<lparr>viewBegin = 0, viewEnd = 50, viewPath = ''a.slang''\<rparr>]\<rparr>
       [(3, 7, []), (4, 9, [])]
       (ListChunk kContainerFourCc
         [ListChunk kIRModuleFourCc
            [DataChunk (OtherFourCC 3) [7, 0, 0, 0], DataChunk (OtherFourCC 4) [9, 0, 0, 0]],
          ListChunk kDebugFourCc
            [DataChunk (OtherFourCC 0) [7, 0, 0, 0], DataChunk (OtherFourCC 0) [9, 0, 0, 0]]])
     = Some (Inr (IRModule [\<lparr>instId = 3, sourceLoc = 7\<rparr>, \<lparr>instId = 4, sourceLoc = 9\<rparr>],
                  SourceManager []))
   \<and> resolvedLoc freshVerifyEnv (SourceManager []) 7 = None
   \<and> resolvedLoc freshVerifyEnv
       (SourceManager [\<lparr>viewBegin = 0, viewEnd = 50, viewPath = ''a.slang''\<rparr>]) 7
     = Some (1, 8, ''a.slang'')"
  by (simp add: verify_eval simpleIRRead_def freshVerifyEnv_def resolvedLoc_def)

subsection \<open>The order in which \<open>read\<close> emits what it decodes\<close>

lemma chunkSlots_other:
  "\<not> isIRChunk c \<Longrightarrow> \<not> isASTChunk c \<Longrightarrow> chunkSlots (c # cs) = (None, None) # chunkSlots cs"
  by (cases cs) simp_all

lemma chunkSlots_AST:
  "\<not> isIRChunk c \<Longrightarrow> isASTChunk c \<Longrightarrow> chunkSlots (c # cs) = (None, Some c) # chunkSlots cs"
  by (cases cs) simp_all

lemma chunkSlots_IR:
  "isIRChunk c \<Longrightarrow> cs = [] \<or> \<not> isASTChunk (hd cs) \<Longrightarrow>
     chunkSlots (c # cs) = (Some c, None) # chunkSlots cs"
  by (cases cs) simp_all

lemma chunkSlots_IR_AST:
  "isIRChunk c \<Longrightarrow> isASTChunk c' \<Longrightarrow>
     chunkSlots (c # c' # cs) = (Some c, Some c') # chunkSlots cs"
  by simp

lemma readSlot_slot:
  assumes "readSlot R ct lr classes n (c # cs) = Some (ms, classes', cs')"
  shows "\<exists>s. chunkSlots (c # cs) = s # chunkSlots cs'
     \<and> (if slotEmits s then \<exists>m. ms = [m] \<and> decodesSlot R ct lr n s m else ms = [])"
proof (cases "asListChunk c kIRModuleFourCc")
  case None
  note noIR = this
  then have nir: "\<not> isIRChunk c" by (simp add: isIRChunk_def)
  show ?thesis
  proof (cases "asListChunk c kSlangASTModuleFourCC")
    case None
    with noIR assms have "cs' = cs" "ms = []"
      by (auto simp: readSlot_def readIRPart_def readASTPart_def emitModule_def stepIfNoProgress_def)
    moreover from None have "\<not> isASTChunk c" by (simp add: isASTChunk_def)
    ultimately show ?thesis
      using nir by (intro exI [of _ "(None, None)"]) (simp add: chunkSlots_other slotEmits_def)
  next
    case (Some astChunk)
    then have isast: "isASTChunk c" by (simp add: isASTChunk_def)
    show ?thesis
    proof (cases "findContainedData kSlangASTModuleDataFourCC astChunk")
      case None
      with Some noIR assms have "cs' = cs" "ms = []"
        by (auto simp: readSlot_def readIRPart_def readASTPart_def emitModule_def stepIfNoProgress_def)
      moreover from None Some have "astPayload c = None" by (simp add: astPayload_def)
      ultimately show ?thesis
        using nir isast by (intro exI [of _ "(None, Some c)"]) (simp add: chunkSlots_AST slotEmits_def)
    next
      case payload: (Some payload)
      with Some noIR assms obtain root where
        "cs' = cs" and
        "ms = [\<lparr>astBuilder = Some (ASTBuilder (''tu'' @ string_of_nat n)), astRootNode = root,
                 irModule = None\<rparr>]" and
        "astLoad R payload lr (ASTBuilder (''tu'' @ string_of_nat n)) = Some root"
        by (auto simp: readSlot_def readIRPart_def readASTPart_def emitModule_def stepIfNoProgress_def
            Let_def split: option.splits if_splits)
      moreover from payload Some have "astPayload c = Some payload" by (simp add: astPayload_def)
      ultimately show ?thesis
        using nir isast
        by (intro exI [of _ "(None, Some c)"])
          (simp add: chunkSlots_AST slotEmits_def decodesSlot_def decodesAST_def)
    qed
  qed
next
  case (Some irChunk)
  then have isir: "isIRChunk c"
    by (simp add: isIRChunk_def)
  from assms Some obtain ir where
    irp: "readIRPart R ct lr (c # cs) = Some (Some ir, cs)" and
    dec: "decodesIR R ct lr c ir"
    by (auto simp: readSlot_def readIRPart_def decodesIR_def split: option.splits)
  from assms irp obtain b root cs2 where
    ast: "readASTPart R lr classes n cs = Some (b, root, classes', cs2)" and
    ms: "ms = [\<lparr>astBuilder = b, astRootNode = root, irModule = Some ir\<rparr>]" and
    step: "cs' = stepIfNoProgress (c # cs) cs2"
    by (auto simp: readSlot_def emitModule_def split: option.splits)
  from readASTPart_rest [OF ast] have "cs2 \<noteq> c # cs"
    by auto
  with step have cs2: "cs' = cs2"
    by (simp add: stepIfNoProgress_def)
  show ?thesis
  proof (cases "cs = [] \<or> \<not> isASTChunk (hd cs)")
    case True
    with ast have "b = None" "root = None" "cs2 = cs"
      by (auto simp: readASTPart_def isASTChunk_def split: list.splits)
    with True cs2 ms isir dec show ?thesis
      by (intro exI [of _ "(Some c, None)"]) (simp add: chunkSlots_IR slotEmits_def decodesSlot_def)
  next
    case False
    then obtain c2 rest2 astChunk where
      cs: "cs = c2 # rest2" and
      c2: "asListChunk c2 kSlangASTModuleFourCC = Some astChunk"
      by (cases cs) (auto simp: isASTChunk_def)
    from c2 have isast2: "isASTChunk c2" by (simp add: isASTChunk_def)
    have slots: "chunkSlots (c # cs) = (Some c, Some c2) # chunkSlots rest2"
      unfolding cs using isir isast2 by (rule chunkSlots_IR_AST)
    have emits: "slotEmits (Some c, Some c2)"
      by (simp add: slotEmits_def)
    show ?thesis
    proof (cases "findContainedData kSlangASTModuleDataFourCC astChunk")
      case None
      with ast cs c2 have "b = None" "root = None" "cs2 = rest2"
        by (simp_all add: readASTPart_def)
      moreover from None c2 have "astPayload c2 = None" by (simp add: astPayload_def)
      ultimately show ?thesis
        using cs2 ms dec slots emits
        by (intro exI [of _ "(Some c, Some c2)"]) (simp add: decodesSlot_def)
    next
      case (Some payload)
      with ast cs c2 have "b = Some (ASTBuilder (''tu'' @ string_of_nat n))"
        and "astLoad R payload lr (ASTBuilder (''tu'' @ string_of_nat n)) = Some root"
        and "cs2 = rest2"
        by (auto simp: readASTPart_def Let_def split: option.splits if_splits)
      moreover from Some c2 have "astPayload c2 = Some payload" by (simp add: astPayload_def)
      ultimately show ?thesis
        using cs2 ms dec slots emits
        by (intro exI [of _ "(Some c, Some c2)"]) (simp add: decodesSlot_def decodesAST_def)
    qed
  qed
qed

lemma readModuleList_order:
  assumes "readModuleList R ct lr classes out cs = (SLANG_OK, out')"
  shows "\<exists>new. out' = out @ new
     \<and> list_all2 (\<lambda>(count, s) m. decodesSlot R ct lr count s m)
          (enumerate (length out) (filter slotEmits (chunkSlots cs))) new"
  using assms
proof (induction R ct lr classes out cs rule: readModuleList.induct)
  case (1 R ct lr classes out)
  then show ?case by simp
next
  case (2 R ct lr classes out c cs)
  from "2.prems" obtain ms classes1 cs1 where
    slot: "readSlot R ct lr classes (length out) (c # cs) = Some (ms, classes1, cs1)" and
    rest: "readModuleList R ct lr classes1 (out @ ms) cs1 = (SLANG_OK, out')"
    by (auto split: option.splits)
  from "2.IH" [OF slot refl refl rest] obtain new where
    n: "out' = (out @ ms) @ new"
    "list_all2 (\<lambda>(count, s) m. decodesSlot R ct lr count s m)
          (enumerate (length (out @ ms)) (filter slotEmits (chunkSlots cs1))) new"
    by blast
  from readSlot_slot [OF slot] obtain s where
    s: "chunkSlots (c # cs) = s # chunkSlots cs1"
    "if slotEmits s then \<exists>m. ms = [m] \<and> decodesSlot R ct lr (length out) s m else ms = []"
    by blast
  show ?case
  proof (cases "slotEmits s")
    case True
    with s(2) obtain m where m: "ms = [m]" "decodesSlot R ct lr (length out) s m"
      by auto
    have "list_all2 (\<lambda>(count, s) m. decodesSlot R ct lr count s m)
          (enumerate (length out) (filter slotEmits (chunkSlots (c # cs)))) (m # new)"
      unfolding s(1) using True m n(2) by simp
    with n(1) m(1) show ?thesis
      by (intro exI [of _ "m # new"]) simp
  next
    case False
    with s(2) have ms: "ms = []" by simp
    have "list_all2 (\<lambda>(count, s) m. decodesSlot R ct lr count s m)
          (enumerate (length out) (filter slotEmits (chunkSlots (c # cs)))) new"
      unfolding s(1) using False ms n(2) by simp
    with n(1) ms show ?thesis
      by (intro exI [of _ new]) simp
  qed
qed

lemma readEntryPoints_order:
  "readEntryPoints pool ps out = Some (SLANG_OK, out') \<Longrightarrow>
     \<exists>new. out' = out @ new \<and> list_all2 (decodesEntryPoint pool) ps new"
proof (induction ps arbitrary: out)
  case Nil
  then show ?case by simp
next
  case (Cons p ps)
  from Cons.prems obtain src n m where
    src: "decodeEntryPoint p = Some src" and
    n: "getSlice pool (unat (bin_name src)) = Some n" and
    m: "getSlice pool (unat (bin_mangledName src)) = Some m" and
    rest: "readEntryPoints pool ps (out @ [\<lparr>name = n, mangledName = m, profile = bin_profile src\<rparr>])
             = Some (SLANG_OK, out')"
    by (auto split: option.splits)
  from Cons.IH [OF rest] obtain new where
    new: "out' = (out @ [\<lparr>name = n, mangledName = m, profile = bin_profile src\<rparr>]) @ new"
    "list_all2 (decodesEntryPoint pool) ps new"
    by blast
  have "decodesEntryPoint pool p \<lparr>name = n, mangledName = m, profile = bin_profile src\<rparr>"
    using src n m by (simp add: decodesEntryPoint_def)
  with new show ?case
    by (intro exI [of _ "\<lparr>name = n, mangledName = m, profile = bin_profile src\<rparr> # new"]) simp
qed

lemma read_order:
  assumes "read R root ro = Some (SLANG_OK, d')"
  shows "\<exists>cc ct lr.
       findListRec kContainerFourCc root = Some cc
     \<and> findContainerHeader cc = Some ct
     \<and> readDebugInfo R ro ct cc = Some lr
     \<and> list_all2 (\<lambda>(count, s) m. decodesSlot R ct lr count s m)
          (enumerate 0 (filter slotEmits (chunkSlots (moduleListChunks cc)))) (modules d')
     \<and> list_all2 (decodesEntryPoint (readStringTable R cc)) (findContained kEntryPointFourCc cc)
          (entryPoints d')
     \<and> targetComponents d' = []"
proof -
  from assms obtain cc where cc: "findListRec kContainerFourCc root = Some cc"
    by (cases "findListRec kContainerFourCc root") (auto simp: read_def)
  from assms cc obtain ct where ct: "findContainerHeader cc = Some ct"
    by (cases "findContainerHeader cc") (auto simp: read_def)
  from assms cc ct obtain lr where lr: "readDebugInfo R ro ct cc = Some lr"
    by (cases "readDebugInfo R ro ct cc") (auto simp: read_def)
  from assms cc ct lr have
    body: "readModulesAndEntryPoints R ct (readStringTable R cc) lr cc = Some (SLANG_OK, d')"
    by (simp add: read_def)
  obtain r ms where stage: "readModules R ct lr cc = (r, ms)"
    by (cases "readModules R ct lr cc") auto
  from body stage have r: "r = SLANG_OK"
    by (cases r) (auto simp: readModulesAndEntryPoints_def)
  from body stage r obtain eps where
    ep: "readEntryPoints (readStringTable R cc) (findContained kEntryPointFourCc cc) []
           = Some (SLANG_OK, eps)" and
    d': "d' = clear\<lparr>modules := ms, entryPoints := eps\<rparr>"
    by (auto simp: readModulesAndEntryPoints_def split: option.splits)
  have "list_all2 (\<lambda>(count, s) m. decodesSlot R ct lr count s m)
          (enumerate 0 (filter slotEmits (chunkSlots (moduleListChunks cc)))) ms"
  proof (cases "findContainedList kModuleListFourCc cc")
    case None
    with stage show ?thesis
      by (auto simp: readModules_def moduleListChunks_def)
  next
    case (Some ml)
    with stage r have "readModuleList R ct lr False [] ml = (SLANG_OK, ms)"
      by (simp add: readModules_def)
    from readModuleList_order [OF this] Some show ?thesis
      by (simp add: moduleListChunks_def)
  qed
  moreover from readEntryPoints_order [OF ep]
  have "list_all2 (decodesEntryPoint (readStringTable R cc)) (findContained kEntryPointFourCc cc) eps"
    by simp
  ultimately show ?thesis
    using cc ct lr d' by (simp add: clear_def)
qed
subsection \<open>Payloads written in order: the module list\<close>

lemma writeIRModule_payload:
  assumes "payloadRoundTrips W R options irSim astSim (Inl ir)"
  shows "\<exists>c w'. writeIRModule W options w ir = Some (c, w') \<and> holdsPayload R options irSim astSim c (Inl ir)"
proof -
  from assms obtain serialData locs children where
    "irWrite W ir w (optionFlags options) = Some (serialData, locs)"
    "irWriteContainer W serialData (compressionType options) = Some children"
    "\<forall>lr. \<exists>readData m.
        irReadContainer R children (compressionType options) = Some readData
      \<and> irRead R readData lr = Some m \<and> irSim ir m"
    unfolding payloadRoundTrips_def by simp blast
  then show ?thesis
    by (simp add: writeIRModule_def holdsPayload_def)
qed

lemma writeModuleIR_payload:
  assumes "\<forall>p\<in>set (modulePayloads (optionFlags options) m). payloadRoundTrips W R options irSim astSim p"
  shows "\<exists>w1 n1. writeModuleIR W options (w, cl, cs) m = Some (w1, cl, cs @ n1)
     \<and> list_all2 (holdsPayload R options irSim astSim) n1
          (if IRModuleFlag \<in> optionFlags options \<and> irModule m \<noteq> None
           then [Inl (irModule m)] else [])"
proof (cases "IRModuleFlag \<in> optionFlags options \<and> irModule m \<noteq> None")
  case True
  with assms have "payloadRoundTrips W R options irSim astSim (Inl (irModule m))"
    by (simp add: modulePayloads_def)
  from writeIRModule_payload [OF this, of w] obtain c w' where
    "writeIRModule W options w (irModule m) = Some (c, w')"
    "holdsPayload R options irSim astSim c (Inl (irModule m))"
    by blast
  with True show ?thesis
    by (intro exI [of _ w'] exI [of _ "[c]"]) (simp add: writeModuleIR_def)
next
  case False
  then show ?thesis
    by (intro exI [of _ w] exI [of _ "[]"]) (auto simp: writeModuleIR_def)
qed

lemma writeModuleAST_payload:
  assumes "\<forall>p\<in>set (modulePayloads (optionFlags options) m). payloadRoundTrips W R options irSim astSim p"
    and "w_serialClassesCreate W"
  shows "\<exists>w2 cl2 n2. writeModuleAST W options (w, cl, cs) m = Some (w2, cl2, cs @ n2)
     \<and> list_all2 (holdsPayload R options irSim astSim) n2
          (case astRootNode m of
             Some (ModuleDecl k) \<Rightarrow>
               if ASTModuleFlag \<in> optionFlags options then [Inr (ModuleDecl k)] else []
           | _ \<Rightarrow> [])"
proof (cases "ASTModuleFlag \<in> optionFlags options \<and> isModuleDecl (astRootNode m)")
  case False
  then have "writeModuleAST W options (w, cl, cs) m = Some (w, cl, cs)"
    and "(case astRootNode m of
             Some (ModuleDecl k) \<Rightarrow>
               if ASTModuleFlag \<in> optionFlags options then [Inr (ModuleDecl k)] else []
           | _ \<Rightarrow> ([] :: Payload list)) = []"
    by (auto simp: writeModuleAST_def split: option.splits NodeBase.splits)
  then show ?thesis
    by (intro exI [of _ w] exI [of _ cl] exI [of _ "[]"]) simp
next
  case True
  then obtain k where k: "astRootNode m = Some (ModuleDecl k)"
    by (cases "astRootNode m" rule: isModuleDecl.cases) auto
  with True assms(1) have "payloadRoundTrips W R options irSim astSim (Inr (ModuleDecl k))"
    by (simp add: modulePayloads_def)
  then obtain children locs payload where
    a: "astWrite W (ModuleDecl k) w = Some (children, locs)"
       "findContainedData kSlangASTModuleDataFourCC children = Some payload"
       "\<forall>lr builder. \<exists>root. astLoad R payload lr builder = Some root \<and> astSim (ModuleDecl k) root"
    unfolding payloadRoundTrips_def by simp blast
  have "writeModuleAST W options (w, cl, cs) m
      = Some (recordLocs w locs, True, cs @ [ListChunk kSlangASTModuleFourCC children])"
    using True k a(1) assms(2) by (simp add: writeModuleAST_def)
  moreover have "list_all2 (holdsPayload R options irSim astSim) [ListChunk kSlangASTModuleFourCC children]
          (case astRootNode m of
             Some (ModuleDecl k) \<Rightarrow>
               if ASTModuleFlag \<in> optionFlags options then [Inr (ModuleDecl k)] else []
           | _ \<Rightarrow> [])"
    using True k a(2,3) by (simp add: holdsPayload_def)
  ultimately show ?thesis
    by blast
qed

lemma writeModules_payloads:
  assumes "\<forall>p\<in>set (concat (map (modulePayloads (optionFlags options)) ms)).
             payloadRoundTrips W R options irSim astSim p"
    and "w_serialClassesCreate W"
  shows "\<exists>w' cl' new. writeModules W options (w, cl, cs) ms = Some (w', cl', cs @ new)
     \<and> list_all2 (holdsPayload R options irSim astSim) new
          (concat (map (modulePayloads (optionFlags options)) ms))"
  using assms(1)
proof (induction ms arbitrary: w cl cs)
  case Nil
  then show ?case by simp
next
  case (Cons m ms)
  from Cons.prems have
    here: "\<forall>p\<in>set (modulePayloads (optionFlags options) m). payloadRoundTrips W R options irSim astSim p" and
    later: "\<forall>p\<in>set (concat (map (modulePayloads (optionFlags options)) ms)).
             payloadRoundTrips W R options irSim astSim p"
    by simp_all
  from writeModuleIR_payload [OF here, of w cl cs] obtain w1 n1 where
    ir: "writeModuleIR W options (w, cl, cs) m = Some (w1, cl, cs @ n1)" and
    n1: "list_all2 (holdsPayload R options irSim astSim) n1
          (if IRModuleFlag \<in> optionFlags options \<and> irModule m \<noteq> None
           then [Inl (irModule m)] else [])"
    by blast
  from writeModuleAST_payload [OF here assms(2), of w1 cl "cs @ n1"] obtain w2 cl2 n2 where
    ast: "writeModuleAST W options (w1, cl, cs @ n1) m = Some (w2, cl2, (cs @ n1) @ n2)" and
    n2: "list_all2 (holdsPayload R options irSim astSim) n2
          (case astRootNode m of
             Some (ModuleDecl k) \<Rightarrow>
               if ASTModuleFlag \<in> optionFlags options then [Inr (ModuleDecl k)] else []
           | _ \<Rightarrow> [])"
    by blast
  from Cons.IH [OF later, of w2 cl2 "(cs @ n1) @ n2"] obtain w' cl' n3 where
    rest: "writeModules W options (w2, cl2, (cs @ n1) @ n2) ms = Some (w', cl', ((cs @ n1) @ n2) @ n3)" and
    n3: "list_all2 (holdsPayload R options irSim astSim) n3
          (concat (map (modulePayloads (optionFlags options)) ms))"
    by blast
  have "writeModules W options (w, cl, cs) (m # ms) = Some (w', cl', cs @ (n1 @ n2 @ n3))"
    using ir ast rest by simp
  moreover have "list_all2 (holdsPayload R options irSim astSim) (n1 @ n2 @ n3)
          (concat (map (modulePayloads (optionFlags options)) (m # ms)))"
    using n1 n2 n3 by (simp add: modulePayloads_def list_all2_appendI)
  ultimately show ?case
    by blast
qed

lemma writeTargets_payloads:
  assumes "\<forall>t\<in>set ts. payloadRoundTrips W R options irSim astSim (Inl (tc_irModule t))"
  shows "\<exists>w' new. writeTargets W options (w, cl, cs) ts = Some (w', cl, cs @ new)
     \<and> list_all2 (holdsPayload R options irSim astSim) new (map (\<lambda>t. Inl (tc_irModule t)) ts)"
  using assms
proof (induction ts arbitrary: w cs)
  case Nil
  then show ?case by simp
next
  case (Cons t ts)
  from Cons.prems have here: "payloadRoundTrips W R options irSim astSim (Inl (tc_irModule t))"
    and later: "\<forall>t\<in>set ts. payloadRoundTrips W R options irSim astSim (Inl (tc_irModule t))"
    by simp_all
  from writeIRModule_payload [OF here, of w] obtain c w1 where
    c: "writeIRModule W options w (tc_irModule t) = Some (c, w1)"
       "holdsPayload R options irSim astSim c (Inl (tc_irModule t))"
    by blast
  from Cons.IH [OF later, of w1 "cs @ [c]"] obtain w' n where
    n: "writeTargets W options (w1, cl, cs @ [c]) ts = Some (w', cl, (cs @ [c]) @ n)"
       "list_all2 (holdsPayload R options irSim astSim) n (map (\<lambda>t. Inl (tc_irModule t)) ts)"
    by blast
  have "writeTargets W options (w, cl, cs) (t # ts) = Some (w', cl, cs @ (c # n))"
    using c(1) n(1) by simp
  moreover have "list_all2 (holdsPayload R options irSim astSim) (c # n) (map (\<lambda>t. Inl (tc_irModule t)) (t # ts))"
    using c(2) n(2) by simp
  ultimately show ?case
    by blast
qed

lemma writeModuleList_payloads:
  assumes "\<forall>p\<in>set (writtenPayloads d options). payloadRoundTrips W R options irSim astSim p"
    and "w_serialClassesCreate W"
  shows "\<exists>w section. writeModuleList W options d = Some (w, section)
     \<and> (if writesModuleList d options
        then \<exists>ml. section = [ListChunk kModuleListFourCc ml]
               \<and> list_all2 (holdsPayload R options irSim astSim) ml (writtenPayloads d options)
        else section = [])"
proof (cases "writesModuleList d options")
  case False
  then show ?thesis
    by (auto simp: writeModuleList_def writesModuleList_def)
next
  case True
  let ?w0 = "if DebugInfo \<in> optionFlags options then Some [] else None :: SerialSourceLocWriter"
  let ?tg = "targetComponents d \<noteq> [] \<and> IRModuleFlag \<in> optionFlags options"
  from assms(1) True have
    mods: "\<forall>p\<in>set (concat (map (modulePayloads (optionFlags options)) (modules d))).
             payloadRoundTrips W R options irSim astSim p"
    by (simp add: writtenPayloads_def)
  from writeModules_payloads [OF mods assms(2), of ?w0 False "[]"] obtain w1 cl1 n1 where
    m: "writeModules W options (?w0, False, []) (modules d) = Some (w1, cl1, n1)"
       "list_all2 (holdsPayload R options irSim astSim) n1
          (concat (map (modulePayloads (optionFlags options)) (modules d)))"
    by auto
  show ?thesis
  proof (cases ?tg)
    case False
    with True m show ?thesis
      by (auto simp: writeModuleList_def writesModuleList_def writtenPayloads_def Let_def)
  next
    case tg: True
    with assms(1) True have
      "\<forall>t\<in>set (targetComponents d). payloadRoundTrips W R options irSim astSim (Inl (tc_irModule t))"
      by (simp add: writtenPayloads_def)
    from writeTargets_payloads [OF this, of w1 cl1 n1] obtain w2 n2 where
      t: "writeTargets W options (w1, cl1, n1) (targetComponents d) = Some (w2, cl1, n1 @ n2)"
         "list_all2 (holdsPayload R options irSim astSim) n2 (map (\<lambda>t. Inl (tc_irModule t)) (targetComponents d))"
      by blast
    have "writeModuleList W options d = Some (w2, [ListChunk kModuleListFourCc (n1 @ n2)])"
      using True tg m(1) t(1) by (simp add: writeModuleList_def writesModuleList_def Let_def)
    moreover have "list_all2 (holdsPayload R options irSim astSim) (n1 @ n2) (writtenPayloads d options)"
      using True tg m(2) t(2) by (simp add: writtenPayloads_def list_all2_appendI)
    ultimately show ?thesis
      using True by auto
  qed
qed

subsection \<open>Payloads read back in order: the module list\<close>

lemma readSlot_IR_only:
  assumes "asListChunk c kIRModuleFourCc = Some children"
    and "irReadContainer R children ct = Some readData"
    and "irRead R readData lr = Some m"
    and "rest = [] \<or> asListChunk (hd rest) kSlangASTModuleFourCC = None"
  shows "readSlot R ct lr classes n (c # rest)
     = Some ([\<lparr>astBuilder = None, astRootNode = None, irModule = Some m\<rparr>], classes, rest)"
proof -
  have ir: "readIRPart R ct lr (c # rest) = Some (Some m, rest)"
    using assms(1-3) by (simp add: readIRPart_def)
  have ast: "readASTPart R lr classes n rest = Some (None, None, classes, rest)"
    using assms(4) by (cases rest) (auto simp: readASTPart_def)
  show ?thesis
    using ir ast by (simp add: readSlot_def emitModule_def stepIfNoProgress_def)
qed

lemma readSlot_IR_AST:
  assumes "asListChunk c kIRModuleFourCc = Some children"
    and "irReadContainer R children ct = Some readData"
    and "irRead R readData lr = Some m"
    and "asListChunk c2 kSlangASTModuleFourCC = Some astChunk"
    and "findContainedData kSlangASTModuleDataFourCC astChunk = Some payload"
    and "serialClassesCreate R"
    and "astLoad R payload lr (ASTBuilder (''tu'' @ string_of_nat n)) = Some root"
  shows "readSlot R ct lr classes n (c # c2 # rest)
     = Some ([\<lparr>astBuilder = Some (ASTBuilder (''tu'' @ string_of_nat n)), astRootNode = root,
               irModule = Some m\<rparr>], True, rest)"
proof -
  have ir: "readIRPart R ct lr (c # c2 # rest) = Some (Some m, c2 # rest)"
    using assms(1-3) by (simp add: readIRPart_def)
  have ast: "readASTPart R lr classes n (c2 # rest)
      = Some (Some (ASTBuilder (''tu'' @ string_of_nat n)), root, True, rest)"
    using assms(4-7) by (simp add: readASTPart_def)
  show ?thesis
    using ir ast by (simp add: readSlot_def emitModule_def stepIfNoProgress_def)
qed

lemma readSlot_AST_only:
  assumes "asListChunk c kIRModuleFourCc = None"
    and "asListChunk c kSlangASTModuleFourCC = Some astChunk"
    and "findContainedData kSlangASTModuleDataFourCC astChunk = Some payload"
    and "serialClassesCreate R"
    and "astLoad R payload lr (ASTBuilder (''tu'' @ string_of_nat n)) = Some root"
  shows "readSlot R ct lr classes n (c # rest)
     = Some ([\<lparr>astBuilder = Some (ASTBuilder (''tu'' @ string_of_nat n)), astRootNode = root,
               irModule = None\<rparr>], True, rest)"
proof -
  have ir: "readIRPart R ct lr (c # rest) = Some (None, c # rest)"
    using assms(1) by (simp add: readIRPart_def)
  have ast: "readASTPart R lr classes n (c # rest)
      = Some (Some (ASTBuilder (''tu'' @ string_of_nat n)), root, True, rest)"
    using assms(2-5) by (simp add: readASTPart_def)
  show ?thesis
    using ir ast by (simp add: readSlot_def emitModule_def stepIfNoProgress_def)
qed

lemma holdsPayload_InlD:
  "holdsPayload R options irSim astSim c (Inl ir) \<Longrightarrow>
     \<exists>children readData m. c = ListChunk kIRModuleFourCc children
       \<and> irReadContainer R children (compressionType options) = Some readData
       \<and> irRead R readData lr = Some m \<and> irSim ir m"
  unfolding holdsPayload_def by simp blast

lemma holdsPayload_InrD:
  "holdsPayload R options irSim astSim c (Inr node) \<Longrightarrow>
     \<exists>children payload. c = ListChunk kSlangASTModuleFourCC children
       \<and> findContainedData kSlangASTModuleDataFourCC children = Some payload
       \<and> (\<forall>lr builder. \<exists>root. astLoad R payload lr builder = Some root \<and> astSim node root)"
  unfolding holdsPayload_def by simp

lemma payloadSlots_IR:
  "ps = [] \<or> (\<exists>ir' ps'. ps = Inl ir' # ps') \<Longrightarrow>
     payloadSlots (Inl ir # ps) = IRSlot ir # payloadSlots ps"
  by (cases ps) auto

lemma readModuleList_payloads:
  assumes "list_all2 (holdsPayload R options irSim astSim) cs ps" and "serialClassesCreate R"
  shows "\<exists>new. readModuleList R (compressionType options) lr classes out cs = (SLANG_OK, out @ new)
     \<and> list_all2 (readsBackAs irSim astSim) (payloadSlots ps) new"
  using assms(1)
proof (induction "length cs" arbitrary: cs ps classes out rule: less_induct)
  case less
  let ?ct = "compressionType options"
  show ?case
  proof (cases cs)
    case Nil
    with less.prems show ?thesis
      by simp
  next
    case (Cons c rest)
    with less.prems obtain p prest where
      ps: "ps = p # prest" and cp: "holdsPayload R options irSim astSim c p" and
      rp: "list_all2 (holdsPayload R options irSim astSim) rest prest"
      by (auto simp: list_all2_Cons1)
    show ?thesis
    proof (cases p)
      case (Inr node)
      from holdsPayload_InrD [OF cp [unfolded Inr]] obtain children payload where
        c: "c = ListChunk kSlangASTModuleFourCC children"
           "findContainedData kSlangASTModuleDataFourCC children = Some payload"
           "\<And>lr builder. \<exists>root. astLoad R payload lr builder = Some root \<and> astSim node root"
        by blast
      from c(3) [of lr "ASTBuilder (''tu'' @ string_of_nat (length out))"] obtain root where
        root: "astLoad R payload lr (ASTBuilder (''tu'' @ string_of_nat (length out))) = Some root"
              "astSim node root"
        by blast
      let ?m = "\<lparr>astBuilder = Some (ASTBuilder (''tu'' @ string_of_nat (length out))),
                 astRootNode = root, irModule = None\<rparr>"
      have slot: "readSlot R ?ct lr classes (length out) (c # rest) = Some ([?m], True, rest)"
        using c(1,2) root(1) assms(2)
        by (intro readSlot_AST_only [where astChunk = children and payload = payload]) simp_all
      from less.hyps [of rest prest True "out @ [?m]"] Cons rp obtain new where
        n: "readModuleList R ?ct lr True (out @ [?m]) rest = (SLANG_OK, (out @ [?m]) @ new)"
           "list_all2 (readsBackAs irSim astSim) (payloadSlots prest) new"
        by auto
      have "readsBackAs irSim astSim (ASTSlot node) ?m"
        using root(2) by (simp add: readsBackAs_def)
      with slot n Cons ps Inr show ?thesis
        by (intro exI [of _ "?m # new"]) simp
    next
      case (Inl ir)
      from holdsPayload_InlD [OF cp [unfolded Inl], of lr] obtain children readData m where
        c: "c = ListChunk kIRModuleFourCc children"
           "irReadContainer R children ?ct = Some readData"
           "irRead R readData lr = Some m" "irSim ir m"
        by blast
      have follows: "prest = [] \<or> (\<exists>ir' ps'. prest = Inl ir' # ps')"
        if "rest = [] \<or> asListChunk (hd rest) kSlangASTModuleFourCC = None"
      proof (cases prest)
        case Nil
        then show ?thesis by simp
      next
        case (Cons p2 prest2)
        with rp obtain c2 rest2 where
          r: "rest = c2 # rest2" "holdsPayload R options irSim astSim c2 p2"
          by (auto simp: list_all2_Cons2)
        show ?thesis
        proof (cases p2)
          case (Inl ir2)
          with Cons show ?thesis by simp
        next
          case (Inr node)
          with r(2) have "asListChunk c2 kSlangASTModuleFourCC \<noteq> None"
            by (auto simp: holdsPayload_def)
          with that r(1) show ?thesis by simp
        qed
      qed
      have follows_ast: "\<exists>c2 rest2 node prest2. rest = c2 # rest2 \<and> prest = Inr node # prest2"
        if "rest \<noteq> []" and "asListChunk (hd rest) kSlangASTModuleFourCC \<noteq> None"
      proof -
        from that(1) rp obtain c2 rest2 p2 prest2 where
          r: "rest = c2 # rest2" "prest = p2 # prest2" "holdsPayload R options irSim astSim c2 p2"
          by (cases rest) (auto simp: list_all2_Cons1)
        show ?thesis
        proof (cases p2)
          case (Inl ir2)
          with r(3) have "asListChunk c2 kSlangASTModuleFourCC = None"
            by (auto simp: holdsPayload_def)
          with that(2) r(1) show ?thesis by simp
        next
          case (Inr node)
          with r show ?thesis by blast
        qed
      qed
      show ?thesis
      proof (cases "rest = [] \<or> asListChunk (hd rest) kSlangASTModuleFourCC = None")
        case True
        let ?m = "\<lparr>astBuilder = None, astRootNode = None, irModule = Some m\<rparr>"
        have slot: "readSlot R ?ct lr classes (length out) (c # rest) = Some ([?m], classes, rest)"
          using c True by (intro readSlot_IR_only [where children = children and readData = readData]) simp_all
        from less.hyps [of rest prest classes "out @ [?m]"] Cons rp obtain new where
          n: "readModuleList R ?ct lr classes (out @ [?m]) rest = (SLANG_OK, (out @ [?m]) @ new)"
             "list_all2 (readsBackAs irSim astSim) (payloadSlots prest) new"
          by auto
        have "readsBackAs irSim astSim (IRSlot ir) ?m"
          using c(4) by (simp add: readsBackAs_def)
        moreover have "payloadSlots ps = IRSlot ir # payloadSlots prest"
          unfolding ps Inl using follows [OF True] by (rule payloadSlots_IR)
        ultimately show ?thesis
          using slot n Cons
          by (intro exI [of _ "?m # new"]) simp
      next
        case False
        with follows_ast obtain c2 rest2 node prest2 where
          r: "rest = c2 # rest2" "prest = Inr node # prest2"
          by blast
        with rp have c2p: "holdsPayload R options irSim astSim c2 (Inr node)"
          and rp2: "list_all2 (holdsPayload R options irSim astSim) rest2 prest2"
          by simp_all
        from holdsPayload_InrD [OF c2p] obtain children2 payload where
          c2: "c2 = ListChunk kSlangASTModuleFourCC children2"
              "findContainedData kSlangASTModuleDataFourCC children2 = Some payload"
              "\<And>lr builder. \<exists>root. astLoad R payload lr builder = Some root \<and> astSim node root"
          by blast
        from c2(3) [of lr "ASTBuilder (''tu'' @ string_of_nat (length out))"] obtain root where
          root: "astLoad R payload lr (ASTBuilder (''tu'' @ string_of_nat (length out))) = Some root"
                "astSim node root"
          by blast
        let ?m = "\<lparr>astBuilder = Some (ASTBuilder (''tu'' @ string_of_nat (length out))),
                   astRootNode = root, irModule = Some m\<rparr>"
        have slot: "readSlot R ?ct lr classes (length out) (c # c2 # rest2) = Some ([?m], True, rest2)"
          using c c2(1,2) root(1) assms(2)
          by (intro readSlot_IR_AST [where children = children and readData = readData
                and astChunk = children2 and payload = payload]) simp_all
        from less.hyps [of rest2 prest2 True "out @ [?m]"] Cons r rp2 obtain new where
          n: "readModuleList R ?ct lr True (out @ [?m]) rest2 = (SLANG_OK, (out @ [?m]) @ new)"
             "list_all2 (readsBackAs irSim astSim) (payloadSlots prest2) new"
          by auto
        have "readsBackAs irSim astSim (IRASTSlot ir node) ?m"
          using c(4) root(2) by (simp add: readsBackAs_def)
        with slot n Cons ps Inl r show ?thesis
          by (intro exI [of _ "?m # new"]) simp
      qed
    qed
  qed
qed
subsection \<open>Entry points through the string pool\<close>

lemma findIndex_Some: "findIndex x xs = Some i \<Longrightarrow> i < length xs \<and> xs ! i = x"
proof (induction xs arbitrary: i)
  case Nil
  then show ?case by simp
next
  case (Cons y ys)
  then show ?case
    by (auto split: if_splits option.splits)
qed

lemma poolAdd_getSlice:
  assumes "poolAdd p s = (h, p')"
  shows "getSlice p' h = Some s"
proof (cases "s = []")
  case True
  with assms show ?thesis by (auto simp: poolAdd_def getSlice_def)
next
  case False
  show ?thesis
  proof (cases "findIndex s (getAdded p)")
    case None
    with False assms show ?thesis
      by (auto simp: poolAdd_def getSlice_def)
  next
    case (Some i)
    with False assms findIndex_Some [OF Some] show ?thesis
      by (auto simp: poolAdd_def getSlice_def)
  qed
qed

lemma poolAdd_keeps:
  assumes "getSlice p h = Some s"
  shows "getSlice (snd (poolAdd p s')) h = Some s"
  using assms
  by (auto simp: poolAdd_def getSlice_def nth_append split: option.splits if_splits)

lemma writeEntryPoints_keeps:
  "getSlice p h = Some s \<Longrightarrow> getSlice (snd (writeEntryPoints p es)) h = Some s"
proof (induction es arbitrary: p)
  case Nil
  then show ?case by simp
next
  case (Cons e es)
  obtain n pool1 where a: "poolAdd p (name e) = (n, pool1)"
    by (cases "poolAdd p (name e)") auto
  obtain m pool2 where b: "poolAdd pool1 (mangledName e) = (m, pool2)"
    by (cases "poolAdd pool1 (mangledName e)") auto
  obtain cs pool3 where c: "writeEntryPoints pool2 es = (cs, pool3)"
    by (cases "writeEntryPoints pool2 es") auto
  from poolAdd_keeps [OF Cons.prems, of "name e"] a have "getSlice pool1 h = Some s" by simp
  from poolAdd_keeps [OF this, of "mangledName e"] b have "getSlice pool2 h = Some s" by simp
  from Cons.IH [OF this] c have "getSlice pool3 h = Some s" by simp
  with a b c show ?case by simp
qed

lemma getSlice_bound: "getSlice p h = Some s \<Longrightarrow> h \<le> length (getAdded p)"
  by (auto simp: getSlice_def split: if_splits)

lemma decodeEntryPoint_encodeEntryPoint: "decodeEntryPoint (encodeEntryPoint b) = Some b"
proof -
  have len: "length (encodeU32 w) = 4" for w
    by (simp add: encodeU32_def)
  have one: "decodeU32 (encodeEntryPoint b) = Some (bin_name b)"
    unfolding encodeEntryPoint_def by (rule decodeU32_encodeU32)
  have two: "decodeU32 (drop 4 (encodeEntryPoint b)) = Some (bin_profile b)"
    unfolding encodeEntryPoint_def by (simp add: len decodeU32_encodeU32)
  have three: "decodeU32 (drop 8 (encodeEntryPoint b)) = Some (bin_mangledName b)"
    unfolding encodeEntryPoint_def
    using decodeU32_encodeU32 [of "bin_mangledName b" "[]"] by (simp add: len)
  show ?thesis
    by (simp add: decodeEntryPoint_def one two three)
qed

lemma unat_handle: "n < 2 ^ 32 \<Longrightarrow> unat (of_nat n :: 32 word) = n"
  by (simp add: unat_of_nat take_bit_nat_eq_self)

lemma writeEntryPoints_read:
  assumes "\<And>h s. getSlice (snd (writeEntryPoints p es)) h = Some s \<Longrightarrow> getSlice final h = Some s"
    and "length (getAdded final) < 2 ^ 32"
  shows "readEntryPoints final (findContained kEntryPointFourCc (fst (writeEntryPoints p es))) out
     = Some (SLANG_OK, out @ es)"
  using assms(1)
proof (induction es arbitrary: p out)
  case Nil
  then show ?case by simp
next
  case (Cons e es)
  obtain n pool1 where a: "poolAdd p (name e) = (n, pool1)"
    by (cases "poolAdd p (name e)") auto
  obtain m pool2 where b: "poolAdd pool1 (mangledName e) = (m, pool2)"
    by (cases "poolAdd pool1 (mangledName e)") auto
  obtain cs pool3 where c: "writeEntryPoints pool2 es = (cs, pool3)"
    by (cases "writeEntryPoints pool2 es") auto
  have fin: "snd (writeEntryPoints p (e # es)) = pool3"
    using a b c by simp
  have "getSlice pool1 n = Some (name e)"
    using poolAdd_getSlice [OF a] .
  from poolAdd_keeps [OF this, of "mangledName e"] b have "getSlice pool2 n = Some (name e)"
    by simp
  from writeEntryPoints_keeps [OF this, of es] c have "getSlice pool3 n = Some (name e)"
    by simp
  with Cons.prems fin have n: "getSlice final n = Some (name e)"
    by simp
  have "getSlice pool2 m = Some (mangledName e)"
    using poolAdd_getSlice [OF b] .
  from writeEntryPoints_keeps [OF this, of es] c have "getSlice pool3 m = Some (mangledName e)"
    by simp
  with Cons.prems fin have m: "getSlice final m = Some (mangledName e)"
    by simp
  from getSlice_bound [OF n] getSlice_bound [OF m] assms(2) have "n < 2 ^ 32" "m < 2 ^ 32"
    by simp_all
  then have un: "unat (of_nat n :: 32 word) = n" and um: "unat (of_nat m :: 32 word) = m"
    by (simp_all add: unat_handle)
  have later: "\<And>h s. getSlice (snd (writeEntryPoints pool2 es)) h = Some s \<Longrightarrow> getSlice final h = Some s"
    using Cons.prems fin c by simp
  have e: "\<lparr>name = name e, mangledName = mangledName e, profile = profile e\<rparr> = e"
    by simp
  have chunks: "fst (writeEntryPoints p (e # es)) =
      DataChunk kEntryPointFourCc
        (encodeEntryPoint \<lparr>bin_name = of_nat n, bin_profile = profile e, bin_mangledName = of_nat m\<rparr>)
      # fst (writeEntryPoints pool2 es)"
    using a b c by simp
  have "readEntryPoints final (findContained kEntryPointFourCc (fst (writeEntryPoints p (e # es)))) out
      = readEntryPoints final (findContained kEntryPointFourCc (fst (writeEntryPoints pool2 es)))
          (out @ [\<lparr>name = name e, mangledName = mangledName e, profile = profile e\<rparr>])"
    unfolding chunks using n m un um
    by (simp add: decodeEntryPoint_encodeEntryPoint)
  also have "\<dots> = readEntryPoints final (findContained kEntryPointFourCc (fst (writeEntryPoints pool2 es)))
          (out @ [e])"
    unfolding e ..
  also have "\<dots> = Some (SLANG_OK, (out @ [e]) @ es)"
    by (rule Cons.IH [of pool2 "out @ [e]", OF later])
  finally show ?case
    by simp
qed

subsection \<open>Writing and reading back a container\<close>

lemma findContainedData_append:
  "findContainedData tag (xs @ ys) =
     (case findContainedData tag xs of Some r \<Rightarrow> Some r | None \<Rightarrow> findContainedData tag ys)"
  by (induction xs) (auto split: option.splits)

lemma findContained_append:
  "findContained tag (xs @ ys) = findContained tag xs @ findContained tag ys"
  by (induction xs) (auto split: option.splits)

lemma findContainedData_absent:
  "(DataKind, tag) \<notin> set (map chunkShape cs) \<Longrightarrow> findContainedData tag cs = None"
  using findContainedData_shape [of tag cs] by blast

lemma findContained_absent:
  "(DataKind, tag) \<notin> set (map chunkShape cs) \<Longrightarrow> findContained tag cs = []"
proof (induction cs)
  case Nil
  then show ?case by simp
next
  case (Cons c cs)
  then show ?case by (cases c) auto
qed

lemma written_lookups:
  assumes cs: "cs = [DataChunk kContainerHeaderFourCc hb] @ moduleList @ eps
                 @ writeDebugInfo W options w @ writeStringTable W pool"
    and ml: "set (map chunkShape moduleList) \<subseteq> {(ListKind, kModuleListFourCc)}"
    and ep: "set (map chunkShape eps) \<subseteq> {(DataKind, kEntryPointFourCc)}"
  shows "findContainedData kStringTableFourCc cs
           = (if getAdded pool \<noteq> [] then Some (encodeStringTable W pool) else None)"
    and "findContainedList kDebugFourCc cs
           = (case w of
                None \<Rightarrow> None
              | Some locs \<Rightarrow> Some (snd (sourceLocWriteContainer W locs (compressionType options))))"
    and "findContainedList kModuleListFourCc cs = findContainedList kModuleListFourCc moduleList"
    and "findContained kEntryPointFourCc cs = findContained kEntryPointFourCc eps"
proof -
  have dbg: "set (map chunkShape (writeDebugInfo W options w)) \<subseteq> {(ListKind, kDebugFourCc)}"
    by (cases w) (auto simp: writeDebugInfo_def)
  have str: "set (map chunkShape (writeStringTable W pool)) \<subseteq> {(DataKind, kStringTableFourCc)}"
    by (auto simp: writeStringTable_def)
  have s1: "findContainedData kStringTableFourCc moduleList = None"
    using ml by (intro findContainedData_absent) auto
  have s2: "findContainedData kStringTableFourCc eps = None"
    using ep by (intro findContainedData_absent) auto
  have s3: "findContainedData kStringTableFourCc (writeDebugInfo W options w) = None"
    using dbg by (intro findContainedData_absent) auto
  show "findContainedData kStringTableFourCc cs
           = (if getAdded pool \<noteq> [] then Some (encodeStringTable W pool) else None)"
    unfolding cs
    by (simp add: findContainedData_append s1 s2 s3 writeStringTable_def)
  have d1: "findContainedList kDebugFourCc moduleList = None"
    using ml by (intro findContainedList_absent) auto
  have d2: "findContainedList kDebugFourCc eps = None"
    using ep by (intro findContainedList_absent) auto
  have d3: "findContainedList kDebugFourCc (writeStringTable W pool) = None"
    using str by (intro findContainedList_absent) auto
  show "findContainedList kDebugFourCc cs
           = (case w of
                None \<Rightarrow> None
              | Some locs \<Rightarrow> Some (snd (sourceLocWriteContainer W locs (compressionType options))))"
    unfolding cs
    by (cases w) (simp_all add: findContainedList_append d1 d2 d3 writeDebugInfo_def)
  have m1: "findContainedList kModuleListFourCc eps = None"
    using ep by (intro findContainedList_absent) auto
  have m2: "findContainedList kModuleListFourCc (writeDebugInfo W options w) = None"
    using dbg by (intro findContainedList_absent) auto
  have m3: "findContainedList kModuleListFourCc (writeStringTable W pool) = None"
    using str by (intro findContainedList_absent) auto
  show "findContainedList kModuleListFourCc cs = findContainedList kModuleListFourCc moduleList"
    unfolding cs
    by (simp add: findContainedList_append m1 m2 m3 split: option.splits)
  have e1: "findContained kEntryPointFourCc moduleList = []"
    using ml by (intro findContained_absent) auto
  have e2: "findContained kEntryPointFourCc (writeDebugInfo W options w) = []"
    using dbg by (intro findContained_absent) auto
  have e3: "findContained kEntryPointFourCc (writeStringTable W pool) = []"
    using str by (intro findContained_absent) auto
  show "findContained kEntryPointFourCc cs = findContained kEntryPointFourCc eps"
    unfolding cs
    by (simp add: findContained_append e1 e2 e3)
qed

lemma write_read_round_trip:
  assumes rt: "codecsRoundTrip W R irSim astSim options ro d"
  shows "\<exists>c d'. write W d options = Some c
     \<and> read R c ro = Some (SLANG_OK, d')
     \<and> list_all2 (readsBackAs irSim astSim) (payloadSlots (writtenPayloads d options)) (modules d')
     \<and> entryPoints d' = entryPoints d
     \<and> targetComponents d' = []"
proof -
  let ?ct = "compressionType options"
  let ?pool = "snd (writeEntryPoints (StringSlicePool []) (entryPoints d))"
  let ?eps = "fst (writeEntryPoints (StringSlicePool []) (entryPoints d))"
  from rt have
    payloads: "\<forall>p\<in>set (writtenPayloads d options). payloadRoundTrips W R options irSim astSim p" and
    wcl: "w_serialClassesCreate W" and rcl: "serialClassesCreate R" and
    debug: "\<And>locs. \<exists>sourceLocData reader mgr.
            sourceLocReadContainer R ?ct (snd (sourceLocWriteContainer W locs ?ct)) = Some sourceLocData
          \<and> sourceLocRead R sourceLocData (ro_sourceManager ro) = Some (reader, mgr)" and
    strings: "decodeStringTable R (encodeStringTable W ?pool) = ?pool" and
    small: "length (getAdded ?pool) < 2 ^ 32"
    unfolding codecsRoundTrip_def by blast+
  from writeModuleList_payloads [OF payloads wcl] obtain w moduleList where
    wml: "writeModuleList W options d = Some (w, moduleList)" and
    held: "if writesModuleList d options
        then \<exists>ml. moduleList = [ListChunk kModuleListFourCc ml]
               \<and> list_all2 (holdsPayload R options irSim astSim) ml (writtenPayloads d options)
        else moduleList = []"
    by blast
  define cs where "cs = [DataChunk kContainerHeaderFourCc (encodeU32 ?ct)] @ moduleList @ ?eps
                 @ writeDebugInfo W options w @ writeStringTable W ?pool"
  have wr: "write W d options = Some (ListChunk kContainerFourCc cs)"
    using wml by (simp add: write_def cs_def split: prod.splits)
  have mlshape: "set (map chunkShape moduleList) \<subseteq> {(ListKind, kModuleListFourCc)}"
    using held by (auto split: if_splits)
  have epshape: "set (map chunkShape ?eps) \<subseteq> {(DataKind, kEntryPointFourCc)}"
    using writeEntryPoints_shape [of "StringSlicePool []" "entryPoints d"] by auto
  note look = written_lookups [OF cs_def mlshape epshape]
  have root: "findListRec kContainerFourCc (ListChunk kContainerFourCc cs) = Some cs"
    by simp
  have header: "findContainerHeader cs = Some ?ct"
    unfolding cs_def by (simp add: findContainerHeader_written)
  have pool: "readStringTable R cs = ?pool"
  proof (cases "getAdded ?pool = []")
    case True
    then have "?pool = StringSlicePool []"
      by (cases ?pool) simp
    with True look(1) show ?thesis
      by (simp add: readStringTable_def)
  next
    case False
    with look(1) strings show ?thesis
      by (simp add: readStringTable_def)
  qed
  obtain lr where dbg: "readDebugInfo R ro ?ct cs = Some lr"
  proof (cases w)
    case None
    with look(2) that show ?thesis
      by (simp add: readDebugInfo_def)
  next
    case (Some locs)
    from debug [of locs] obtain sourceLocData reader mgr where
      "sourceLocReadContainer R ?ct (snd (sourceLocWriteContainer W locs ?ct)) = Some sourceLocData"
      "sourceLocRead R sourceLocData (ro_sourceManager ro) = Some (reader, mgr)"
      by blast
    with Some look(2) that show ?thesis
      by (simp add: readDebugInfo_def)
  qed
  obtain ms where
    mods: "readModules R ?ct lr cs = (SLANG_OK, ms)" and
    slots: "list_all2 (readsBackAs irSim astSim) (payloadSlots (writtenPayloads d options)) ms"
  proof (cases "writesModuleList d options")
    case False
    with held look(3) have "readModules R ?ct lr cs = (SLANG_OK, [])"
      by (simp add: readModules_def)
    moreover from False have "writtenPayloads d options = []"
      by (simp add: writtenPayloads_def)
    ultimately show ?thesis
      using that by simp
  next
    case True
    with held obtain ml where
      ml: "moduleList = [ListChunk kModuleListFourCc ml]"
          "list_all2 (holdsPayload R options irSim astSim) ml (writtenPayloads d options)"
      by auto
    from readModuleList_payloads [OF ml(2) rcl, of lr False "[]"] obtain new where
      "readModuleList R ?ct lr False [] ml = (SLANG_OK, new)"
      "list_all2 (readsBackAs irSim astSim) (payloadSlots (writtenPayloads d options)) new"
      by auto
    with ml(1) look(3) that show ?thesis
      by (simp add: readModules_def)
  qed
  have eps: "readEntryPoints ?pool (findContained kEntryPointFourCc cs) []
      = Some (SLANG_OK, entryPoints d)"
    using writeEntryPoints_read [of "StringSlicePool []" "entryPoints d" ?pool "[]"] small look(4)
    by simp
  have "read R (ListChunk kContainerFourCc cs) ro
      = Some (SLANG_OK, clear\<lparr>modules := ms, entryPoints := entryPoints d\<rparr>)"
    using root header pool dbg mods eps
    by (simp add: read_def readModulesAndEntryPoints_def)
  with wr slots show ?thesis
    by (intro exI [of _ "ListChunk kContainerFourCc cs"]
        exI [of _ "clear\<lparr>modules := ms, entryPoints := entryPoints d\<rparr>"])
      (simp add: clear_def)
qed

subsection \<open>Order from the request to the snapshot, and through the container\<close>

lemma requestToData_order:
  assumes "requestToData provider asserts request = Some (r, out, request')"
  shows "modules out =
           map (\<lambda>tu. \<lparr>astBuilder = None, astRootNode = tu_moduleDecl tu, irModule = tu_irModule tu\<rparr>)
             (translationUnits request)
     \<and> map tc_target (targetComponents out) =
           map (\<lambda>(t, tp). \<lparr>t_floatingPointMode = floatingPointMode t, t_profile = targetProfile t,
                          t_flags = targetFlags t, t_codeGenTarget = target t\<rparr>) (targets request)
     \<and> list_all2 (\<lambda>(t, tp) c. \<exists>s0. tc_irModule c = fst (provider tp s0))
           (targets request) (targetComponents out)
     \<and> entryPoints out =
           map (\<lambda>e. \<lparr>name = ep_name e, mangledName = ep_mangledName e, profile = ep_profile e\<rparr>)
             (programEntryPoints request)"
proof -
  from assms obtain ms tcs targets' sink' where
    m: "addModules asserts (translationUnits request) [] = Some ms" and
    t: "addTargets provider (targets request) (sink request) [] = (tcs, targets', sink')" and
    out: "out = \<lparr>modules = ms, targetComponents = tcs,
                 entryPoints = addEntryPoints (programEntryPoints request) 0 []\<rparr>"
    by (auto simp: requestToData_def split: option.splits prod.splits)
  from addModules_map [OF m] have "ms =
           map (\<lambda>tu. \<lparr>astBuilder = None, astRootNode = tu_moduleDecl tu, irModule = tu_irModule tu\<rparr>)
             (translationUnits request)"
    by simp
  moreover from addTargets_frame [OF t] have
    "map tc_target tcs =
           map (\<lambda>(t, tp). \<lparr>t_floatingPointMode = floatingPointMode t, t_profile = targetProfile t,
                          t_flags = targetFlags t, t_codeGenTarget = target t\<rparr>) (targets request)"
    "list_all2 (\<lambda>(t, tp) c. \<exists>s0. tc_irModule c = fst (provider tp s0)) (targets request) tcs"
    by auto
  moreover have "addEntryPoints (programEntryPoints request) 0 [] =
           map (\<lambda>e. \<lparr>name = ep_name e, mangledName = ep_mangledName e, profile = ep_profile e\<rparr>)
             (programEntryPoints request)"
    by (simp add: addEntryPoints_drop)
  ultimately show ?thesis
    using out by simp
qed

text \<open>
  C3. \<^const>\<open>requestToData\<close> fills the snapshot in the order of the request: one module per
  translation unit, one target component per target (its IR module being what the layout
  provider returned for that target), one entry point per entry point of the program.
  \<^const>\<open>read\<close>, when it succeeds, emits its modules in the order of the module-list chunk, one
  module for each iteration of the loop that meets an IR-module chunk or an AST-module
  chunk with data (an IR-module chunk and the AST-module chunk directly after it give
  one module), and its entry points in the order of the entry-point chunks; it emits no
  target component. Through \<^const>\<open>write\<close> and \<^const>\<open>read\<close>, when the payload codecs bring back
  what \<^const>\<open>write\<close> hands them, the entry points come back as they were, in order, and the
  payloads come back in the order written (the modules' payloads in module order, IR
  before AST, then the targets' IR payloads in target order), grouped into modules as
  the loop groups their chunks: a target's IR payload comes back as a module that has
  only an IR module, and the snapshot read has no target components.
\<close>

theorem order_through_extract_write_read:
  "(\<forall>r out request'. requestToData provider asserts request = Some (r, out, request') \<longrightarrow>
       modules out =
           map (\<lambda>tu. \<lparr>astBuilder = None, astRootNode = tu_moduleDecl tu, irModule = tu_irModule tu\<rparr>)
             (translationUnits request)
     \<and> map tc_target (targetComponents out) =
           map (\<lambda>(t, tp). \<lparr>t_floatingPointMode = floatingPointMode t, t_profile = targetProfile t,
                          t_flags = targetFlags t, t_codeGenTarget = target t\<rparr>) (targets request)
     \<and> list_all2 (\<lambda>(t, tp) c. \<exists>s0. tc_irModule c = fst (provider tp s0))
           (targets request) (targetComponents out)
     \<and> entryPoints out =
           map (\<lambda>e. \<lparr>name = ep_name e, mangledName = ep_mangledName e, profile = ep_profile e\<rparr>)
             (programEntryPoints request))
   \<and> (\<forall>read'. read R root ro = Some (SLANG_OK, read') \<longrightarrow>
        (\<exists>cc ct lr.
            findListRec kContainerFourCc root = Some cc
          \<and> findContainerHeader cc = Some ct
          \<and> readDebugInfo R ro ct cc = Some lr
          \<and> list_all2 (\<lambda>(count, s) m. decodesSlot R ct lr count s m)
               (enumerate 0 (filter slotEmits (chunkSlots (moduleListChunks cc)))) (modules read')
          \<and> list_all2 (decodesEntryPoint (readStringTable R cc)) (findContained kEntryPointFourCc cc)
               (entryPoints read')
          \<and> targetComponents read' = []))
   \<and> (codecsRoundTrip W R irSim astSim options ro d \<longrightarrow>
        (\<exists>c d'. write W d options = Some c
          \<and> read R c ro = Some (SLANG_OK, d')
          \<and> list_all2 (readsBackAs irSim astSim) (payloadSlots (writtenPayloads d options))
               (modules d')
          \<and> entryPoints d' = entryPoints d
          \<and> targetComponents d' = []))"
  using requestToData_order [of provider asserts request] read_order [of R root ro]
    write_read_round_trip [of W R irSim astSim options ro d]
  by blast

lemma sample_payloads:
  "writtenPayloads sampleData (sampleOptions {IRModuleFlag, ASTModuleFlag, DebugInfo}) =
     [Inl (Some (IRModule [\<lparr>instId = 1, sourceLoc = 7\<rparr>])), Inr (ModuleDecl 5),
      Inl (Some (IRModule [\<lparr>instId = 2, sourceLoc = 9\<rparr>]))]"
  by (simp add: writtenPayloads_def writesModuleList_def modulePayloads_def sampleData_def
      sampleModule_def sampleTarget_def sampleOptions_def)

lemma sample_pool:
  "snd (writeEntryPoints (StringSlicePool []) (entryPoints sampleData)) = StringSlicePool [''f'', ''g'']"
  by (simp add: sampleData_def poolAdd_def)

lemma sample_chars: "char_of (102::nat) = CHR ''f''" "char_of (103::nat) = CHR ''g''"
  by code_simp+

lemma sample_round_trip:
  "codecsRoundTrip simpleWriters relocatingReaders sameInstructions sameNode
     (sampleOptions {IRModuleFlag, ASTModuleFlag, DebugInfo})
     \<lparr>ro_sourceManager = noSourceManager\<rparr> sampleData"
  unfolding codecsRoundTrip_def sample_payloads sample_pool
  by (simp add: payloadRoundTrips_def simpleWriters_def relocatingReaders_def simpleReaders_def
      simpleIRWrite_def simpleIRWriteContainer_def relocatingIRRead_def simpleASTWrite_def
      simpleASTLoad_def simpleEncodeStringTable_def sampleOptions_def encodeU32_def sample_chars
      noSourceManager_def sameInstructions_def sameNode_def)

lemma sample_request:
  "requestToData cachingProvider True sampleRequest =
     Some (SLANG_OK,
       \<lparr>modules = [\<lparr>astBuilder = None, astRootNode = Some (ModuleDecl 5), irModule = None\<rparr>],
        targetComponents =
          [\<lparr>tc_target = \<lparr>t_floatingPointMode = 1, t_profile = 2, t_flags = 3, t_codeGenTarget = 4\<rparr>,
            tc_irModule = Some (IRModule [])\<rparr>],
        entryPoints = [\<lparr>name = ''f'', mangledName = ''g'', profile = 3\<rparr>]\<rparr>,
       sampleRequest\<lparr>targets := [(sampleTargetRequest, \<lparr>tp_irModuleForLayout = Some (IRModule [])\<rparr>)]\<rparr>)"
  by (simp add: request_eval)

theorem order_through_extract_write_read_witness:
  "requestToData cachingProvider True sampleRequest =
     Some (SLANG_OK,
       \<lparr>modules = [\<lparr>astBuilder = None, astRootNode = Some (ModuleDecl 5), irModule = None\<rparr>],
        targetComponents =
          [\<lparr>tc_target = \<lparr>t_floatingPointMode = 1, t_profile = 2, t_flags = 3, t_codeGenTarget = 4\<rparr>,
            tc_irModule = Some (IRModule [])\<rparr>],
        entryPoints = [\<lparr>name = ''f'', mangledName = ''g'', profile = 3\<rparr>]\<rparr>,
       sampleRequest\<lparr>targets := [(sampleTargetRequest, \<lparr>tp_irModuleForLayout = Some (IRModule [])\<rparr>)]\<rparr>)
   \<and> [\<lparr>name = ''f'', mangledName = ''g'', profile = 3\<rparr>] =
       map (\<lambda>e. \<lparr>name = ep_name e, mangledName = ep_mangledName e, profile = ep_profile e\<rparr>)
         (programEntryPoints sampleRequest)
   \<and> codecsRoundTrip simpleWriters relocatingReaders sameInstructions sameNode
       (sampleOptions {IRModuleFlag, ASTModuleFlag, DebugInfo})
       \<lparr>ro_sourceManager = noSourceManager\<rparr> sampleData
   \<and> (\<exists>c d' cc ct lr.
          write simpleWriters sampleData (sampleOptions {IRModuleFlag, ASTModuleFlag, DebugInfo}) = Some c
        \<and> read relocatingReaders c \<lparr>ro_sourceManager = noSourceManager\<rparr> = Some (SLANG_OK, d')
        \<and> list_all2 (readsBackAs sameInstructions sameNode)
            [IRASTSlot (Some (IRModule [\<lparr>instId = 1, sourceLoc = 7\<rparr>])) (ModuleDecl 5),
             IRSlot (Some (IRModule [\<lparr>instId = 2, sourceLoc = 9\<rparr>]))]
            (modules d')
        \<and> entryPoints d' = [\<lparr>name = ''f'', mangledName = ''g'', profile = 3\<rparr>]
        \<and> targetComponents d' = []
        \<and> findListRec kContainerFourCc c = Some cc
        \<and> findContainerHeader cc = Some ct
        \<and> readDebugInfo relocatingReaders \<lparr>ro_sourceManager = noSourceManager\<rparr> ct cc = Some lr
        \<and> list_all2 (\<lambda>(count, s) m. decodesSlot relocatingReaders ct lr count s m)
            (enumerate 0 (filter slotEmits (chunkSlots (moduleListChunks cc)))) (modules d')
        \<and> list_all2 (decodesEntryPoint (readStringTable relocatingReaders cc))
            (findContained kEntryPointFourCc cc) (entryPoints d'))"
proof -
  let ?options = "sampleOptions {IRModuleFlag, ASTModuleFlag, DebugInfo}"
  let ?ro = "\<lparr>ro_sourceManager = noSourceManager\<rparr>"
  let ?out = "\<lparr>modules = [\<lparr>astBuilder = None, astRootNode = Some (ModuleDecl 5), irModule = None\<rparr>],
        targetComponents =
          [\<lparr>tc_target = \<lparr>t_floatingPointMode = 1, t_profile = 2, t_flags = 3, t_codeGenTarget = 4\<rparr>,
            tc_irModule = Some (IRModule [])\<rparr>],
        entryPoints = [\<lparr>name = ''f'', mangledName = ''g'', profile = 3\<rparr>]\<rparr>"
  note first = order_through_extract_write_read [of cachingProvider True sampleRequest
      relocatingReaders "ListChunk kContainerFourCc []" ?ro simpleWriters
      sameInstructions sameNode ?options sampleData]
  from first sample_request have "entryPoints ?out =
       map (\<lambda>e. \<lparr>name = ep_name e, mangledName = ep_mangledName e, profile = ep_profile e\<rparr>)
         (programEntryPoints sampleRequest)"
    by blast
  then have a: "[\<lparr>name = ''f'', mangledName = ''g'', profile = 3\<rparr>] =
       map (\<lambda>e. \<lparr>name = ep_name e, mangledName = ep_mangledName e, profile = ep_profile e\<rparr>)
         (programEntryPoints sampleRequest)"
    by simp
  from first sample_round_trip obtain c d' where
    w: "write simpleWriters sampleData ?options = Some c" and
    r: "read relocatingReaders c ?ro = Some (SLANG_OK, d')" and
    ms: "list_all2 (readsBackAs sameInstructions sameNode)
           (payloadSlots (writtenPayloads sampleData ?options)) (modules d')" and
    ep: "entryPoints d' = entryPoints sampleData" and
    tc: "targetComponents d' = []"
    by blast
  from ms have ms': "list_all2 (readsBackAs sameInstructions sameNode)
            [IRASTSlot (Some (IRModule [\<lparr>instId = 1, sourceLoc = 7\<rparr>])) (ModuleDecl 5),
             IRSlot (Some (IRModule [\<lparr>instId = 2, sourceLoc = 9\<rparr>]))]
            (modules d')"
    by (simp add: sample_payloads)
  from ep have ep': "entryPoints d' = [\<lparr>name = ''f'', mangledName = ''g'', profile = 3\<rparr>]"
    by (simp add: sampleData_def)
  note second = order_through_extract_write_read [of cachingProvider True sampleRequest
      relocatingReaders c ?ro simpleWriters sameInstructions sameNode ?options sampleData]
  from second r obtain cc ct lr where
    b: "findListRec kContainerFourCc c = Some cc"
       "findContainerHeader cc = Some ct"
       "readDebugInfo relocatingReaders ?ro ct cc = Some lr"
       "list_all2 (\<lambda>(count, s) m. decodesSlot relocatingReaders ct lr count s m)
            (enumerate 0 (filter slotEmits (chunkSlots (moduleListChunks cc)))) (modules d')"
       "list_all2 (decodesEntryPoint (readStringTable relocatingReaders cc))
            (findContained kEntryPointFourCc cc) (entryPoints d')"
    by blast
  from sample_request a sample_round_trip w r ms' ep' tc b show ?thesis
    by blast
qed

text \<open>
  C3 as it is stated fails. A snapshot of two modules, the first with an IR module only
  and the second with a module declaration only, and of one target component is
  written and read back: the snapshot read has the two modules' payloads in one module,
  the target's IR module as a second module, and no target component.
\<close>

theorem write_read_fuses_modules_and_drops_targets:
  "write simpleWriters
     \<lparr>modules =
        [\<lparr>astBuilder = None, astRootNode = None,
          irModule = Some (IRModule [\<lparr>instId = 1, sourceLoc = 7\<rparr>])\<rparr>,
         \<lparr>astBuilder = None, astRootNode = Some (ModuleDecl 5), irModule = None\<rparr>],
      targetComponents =
        [\<lparr>tc_target = \<lparr>t_floatingPointMode = 0, t_profile = 0, t_flags = 0, t_codeGenTarget = 0\<rparr>,
          tc_irModule = Some (IRModule [\<lparr>instId = 2, sourceLoc = 9\<rparr>])\<rparr>],
      entryPoints = []\<rparr>
     \<lparr>compressionType = 0, optionFlags = {IRModuleFlag, ASTModuleFlag},
      wo_sourceManager = SourceManager []\<rparr>
   = Some (ListChunk kContainerFourCc
       [DataChunk kContainerHeaderFourCc [0, 0, 0, 0],
        ListChunk kModuleListFourCc
          [ListChunk kIRModuleFourCc [DataChunk (OtherFourCC 1) [7, 0, 0, 0]],
           ListChunk kSlangASTModuleFourCC [DataChunk kSlangASTModuleDataFourCC [5]],
           ListChunk kIRModuleFourCc [DataChunk (OtherFourCC 2) [9, 0, 0, 0]]]])
   \<and> read simpleReaders
       (ListChunk kContainerFourCc
         [DataChunk kContainerHeaderFourCc [0, 0, 0, 0],
          ListChunk kModuleListFourCc
            [ListChunk kIRModuleFourCc [DataChunk (OtherFourCC 1) [7, 0, 0, 0]],
             ListChunk kSlangASTModuleFourCC [DataChunk kSlangASTModuleDataFourCC [5]],
             ListChunk kIRModuleFourCc [DataChunk (OtherFourCC 2) [9, 0, 0, 0]]]])
       \<lparr>ro_sourceManager = SourceManager []\<rparr>
     = Some (SLANG_OK,
         \<lparr>modules =
            [\<lparr>astBuilder = Some (ASTBuilder ''tu0''), astRootNode = Some (ModuleDecl 5),
              irModule = Some (IRModule [\<lparr>instId = 1, sourceLoc = 7\<rparr>])\<rparr>,
             \<lparr>astBuilder = None, astRootNode = None,
              irModule = Some (IRModule [\<lparr>instId = 2, sourceLoc = 9\<rparr>])\<rparr>],
          targetComponents = [], entryPoints = []\<rparr>)"
  by (simp add: write_eval read_eval)

end
